(* ===== verification/Prelude.thy ===== *)
theory Prelude
  imports Main "HOL-Library.List_Lexorder" "HOL-Library.Char_ord"
begin

text \<open>
  What the components share: Go's error values, the state-and-error actions a Go function with
  side effects is modelled by, the parts of the packages \<^verbatim>\<open>strings\<close>, \<^verbatim>\<open>strconv\<close>,
  \<^verbatim>\<open>unicode/utf8\<close> and \<^verbatim>\<open>fmt\<close> the loader uses, and the generic lemmas on them.

  A Go string is a sequence of bytes, so it is a HOL \<^typ>\<open>string\<close> (a list of 8-bit characters),
  with the UTF-8 decoding written out where the program looks at code points.
\<close>

named_theorems act_simps
  \<open>rewrite rules that run an action\<close>
named_theorems frame
  \<open>what an operation leaves unchanged\<close>

section \<open>Error values\<close>

text \<open>
  An \<^verbatim>\<open>error\<close> is one a library returned (\<open>ErrExt\<close> of its text) or one made by
  \<^verbatim>\<open>fmt.Errorf\<close>, kept as its format and arguments; \<open>AErr\<close> is an argument of \<^verbatim>\<open>%w\<close> or \<^verbatim>\<open>%v\<close>.
\<close>

datatype gerr = ErrExt string | Errorf string "farg list"
  and farg = AStr string | AInt int | AErr gerr

type_synonym 'a res = "gerr + 'a"

text \<open>
  A Go function that changes state: it returns a value or an error, and the state it leaves.
  An error does not undo what was done before it, so the state is outside the sum.
\<close>

type_synonym ('s, 'a) act = "'s \<Rightarrow> 'a res \<times> 's"

definition retA :: "'a \<Rightarrow> ('s, 'a) act" where
  "retA x = (\<lambda>s. (Inr x, s))"

definition failA :: "gerr \<Rightarrow> ('s, 'a) act" where
  "failA e = (\<lambda>s. (Inl e, s))"

definition bindA :: "('s, 'a) act \<Rightarrow> ('a \<Rightarrow> ('s, 'b) act) \<Rightarrow> ('s, 'b) act" where
  "bindA m f = (\<lambda>s. case m s of (Inl e, s') \<Rightarrow> (Inl e, s') | (Inr x, s') \<Rightarrow> f x s')"

text \<open>\<^verbatim>\<open>if err != nil { return fmt.Errorf("...: %w", err) }\<close>: the error of an action is rewritten.\<close>

definition wrapA :: "(gerr \<Rightarrow> gerr) \<Rightarrow> ('s, 'a) act \<Rightarrow> ('s, 'a) act" where
  "wrapA w m = (\<lambda>s. case m s of (Inl e, s') \<Rightarrow> (Inl (w e), s') | (Inr x, s') \<Rightarrow> (Inr x, s'))"

text \<open>A pure check used inside an action.\<close>

definition liftA :: "'a res \<Rightarrow> ('s, 'a) act" where
  "liftA r = (\<lambda>s. (r, s))"

definition wrap_res :: "(gerr \<Rightarrow> gerr) \<Rightarrow> 'a res \<Rightarrow> 'a res" where
  "wrap_res w r = (case r of Inl e \<Rightarrow> Inl (w e) | Inr x \<Rightarrow> Inr x)"

definition bind_res :: "'a res \<Rightarrow> ('a \<Rightarrow> 'b res) \<Rightarrow> 'b res" where
  "bind_res r f = (case r of Inl e \<Rightarrow> Inl e | Inr x \<Rightarrow> f x)"

text \<open>\<^verbatim>\<open>fmt.Errorf(prefix + ": %w", err)\<close>\<close>

definition wrapf :: "string \<Rightarrow> gerr \<Rightarrow> gerr" where
  "wrapf prefix e = Errorf (prefix @ '': %w'') [AErr e]"

lemma retA_apply [simp, act_simps]: "retA x s = (Inr x, s)"
  by (simp add: retA_def)

lemma failA_apply [simp, act_simps]: "failA e s = (Inl e, s)"
  by (simp add: failA_def)

lemma liftA_apply [simp, act_simps]: "liftA r s = (r, s)"
  by (simp add: liftA_def)

lemma bindA_Inl [act_simps]: "m s = (Inl e, s') \<Longrightarrow> bindA m f s = (Inl e, s')"
  by (simp add: bindA_def)

lemma bindA_Inr [act_simps]: "m s = (Inr x, s') \<Longrightarrow> bindA m f s = f x s'"
  by (simp add: bindA_def)

lemma wrapA_Inl_iff [simp]: "wrapA w m s = (Inl e, s') \<longleftrightarrow> (\<exists>e0. m s = (Inl e0, s') \<and> e = w e0)"
  by (auto simp: wrapA_def split: prod.splits sum.splits)

lemma wrapA_Inr_iff [simp]: "wrapA w m s = (Inr x, s') \<longleftrightarrow> m s = (Inr x, s')"
  by (auto simp: wrapA_def split: prod.splits sum.splits)

lemma snd_wrapA [simp]: "snd (wrapA w m s) = snd (m s)"
  by (auto simp: wrapA_def split: prod.splits sum.splits)

lemma bindA_assoc: "bindA (bindA m f) g = bindA m (\<lambda>x. bindA (f x) g)"
  by (auto simp: bindA_def fun_eq_iff split: prod.splits sum.splits)

lemma bindA_retA [simp]: "bindA m retA = m"
  by (auto simp: bindA_def fun_eq_iff split: prod.splits sum.splits)

lemma bindA_InrE:
  assumes "bindA m f s = (Inr y, s')"
  obtains x s1 where "m s = (Inr x, s1)" and "f x s1 = (Inr y, s')"
  using assms by (auto simp: bindA_def split: prod.splits sum.splits)

lemma bindA_InlE:
  assumes "bindA m f s = (Inl e, s')"
  obtains (first) "m s = (Inl e, s')"
        | (second) x s1 where "m s = (Inr x, s1)" and "f x s1 = (Inl e, s')"
  using assms by (auto simp: bindA_def split: prod.splits sum.splits)

lemma wrap_res_simps [simp]:
  "wrap_res w (Inl e) = Inl (w e)" "wrap_res w (Inr x) = Inr x"
  by (simp_all add: wrap_res_def)

lemma wrap_res_Inr_iff [simp]: "wrap_res w r = Inr x \<longleftrightarrow> r = Inr x"
  by (cases r) simp_all

lemma bind_res_simps [simp]:
  "bind_res (Inl e) f = Inl e" "bind_res (Inr x) f = f x"
  by (simp_all add: bind_res_def)

lemma bind_res_Inr_iff: "bind_res r f = Inr y \<longleftrightarrow> (\<exists>x. r = Inr x \<and> f x = Inr y)"
  by (cases r) simp_all

text \<open>
  An action that keeps a view of the state on every path. The frame lemmas of the components
  are stated with it, and the three rules below compose them.
\<close>

definition keeps :: "('s \<Rightarrow> 'v) \<Rightarrow> ('s, 'a) act \<Rightarrow> bool" where
  "keeps v m \<longleftrightarrow> (\<forall>s. v (snd (m s)) = v s)"

lemma keepsD: "keeps v m \<Longrightarrow> m s = (r, s') \<Longrightarrow> v s' = v s"
  by (metis keeps_def snd_conv)

lemma keeps_retA [frame, intro]: "keeps v (retA x)"
  by (simp add: keeps_def)

lemma keeps_failA [frame, intro]: "keeps v (failA e)"
  by (simp add: keeps_def)

lemma keeps_liftA [frame, intro]: "keeps v (liftA r)"
  by (simp add: keeps_def)

lemma keeps_wrapA [frame, intro]: "keeps v m \<Longrightarrow> keeps v (wrapA w m)"
  by (simp add: keeps_def)

lemma keeps_bindA [frame, intro]:
  assumes "keeps v m" and "\<And>x. keeps v (f x)"
  shows "keeps v (bindA m f)"
  using assms unfolding keeps_def bindA_def
  by (simp split: prod.splits sum.splits) (metis snd_conv)

text \<open>The panic of a call through a nil pointer ends the function like an error.\<close>

definition nil_deref :: gerr where
  "nil_deref = ErrExt ''invalid memory address or nil pointer dereference''"

section \<open>Integers and decimal text\<close>

fun nat_digits :: "nat \<Rightarrow> string" where
  "nat_digits n =
     (if n < 10 then [char_of (48 + n)] else nat_digits (n div 10) @ [char_of (48 + n mod 10)])"

declare nat_digits.simps [simp del]

text \<open>\<^verbatim>\<open>%d\<close> and \<^verbatim>\<open>strconv.FormatInt(x, 10)\<close>\<close>

definition itoa :: "int \<Rightarrow> string" where
  "itoa i = (if i < 0 then CHR ''-'' # nat_digits (nat (- i)) else nat_digits (nat i))"

text \<open>A value of a signed 64-bit variable after an operation that wraps around.\<close>

definition wrap64 :: "int \<Rightarrow> int" where
  "wrap64 i = (i + 2 ^ 63) mod 2 ^ 64 - 2 ^ 63"

lemma wrap64_id: "- (2 ^ 63) \<le> i \<Longrightarrow> i < 2 ^ 63 \<Longrightarrow> wrap64 i = i"
  by (simp add: wrap64_def)

text \<open>
  \<^verbatim>\<open>strconv.Atoi\<close>: an optional sign and one or more decimal digits, in the range of a 64-bit int.
\<close>

definition is_digit :: "char \<Rightarrow> bool" where
  "is_digit c \<longleftrightarrow> 48 \<le> (of_char c :: nat) \<and> (of_char c :: nat) \<le> 57"

definition digits_val :: "string \<Rightarrow> int" where
  "digits_val s = foldl (\<lambda>a c. 10 * a + (of_char c - 48)) 0 s"

definition atoi :: "string \<Rightarrow> int res" where
  "atoi s =
     (let neg = (s \<noteq> [] \<and> hd s = CHR ''-'');
          t = (if s \<noteq> [] \<and> (hd s = CHR ''-'' \<or> hd s = CHR ''+'') then tl s else s);
          v = (if neg then - digits_val t else digits_val t)
      in if t = [] \<or> \<not> list_all is_digit t then Inl (ErrExt ''invalid syntax'')
         else if v < - (2 ^ 63) \<or> 2 ^ 63 \<le> v then Inl (ErrExt ''value out of range'')
         else Inr v)"

section \<open>UTF-8\<close>

text \<open>
  The width of the encoding that starts a byte sequence, as \<^verbatim>\<open>utf8.DecodeRune\<close> finds it: a byte
  that starts no valid encoding is one byte wide and stands for U+FFFD.
\<close>

definition in_range :: "nat \<Rightarrow> nat \<Rightarrow> string \<Rightarrow> nat \<Rightarrow> bool" where
  "in_range lo hi s i \<longleftrightarrow> i < length s \<and> lo \<le> of_char (s ! i) \<and> (of_char (s ! i) :: nat) \<le> hi"

definition rune_width :: "string \<Rightarrow> nat" where
  "rune_width s =
     (let a = (of_char (hd s) :: nat); c = in_range 128 191 s in
      if a < 128 then 1
      else if 194 \<le> a \<and> a \<le> 223 \<and> c 1 then 2
      else if (a = 224 \<and> in_range 160 191 s 1 \<or> 225 \<le> a \<and> a \<le> 236 \<and> c 1
               \<or> a = 237 \<and> in_range 128 159 s 1 \<or> 238 \<le> a \<and> a \<le> 239 \<and> c 1) \<and> c 2 then 3
      else if (a = 240 \<and> in_range 144 191 s 1 \<or> 241 \<le> a \<and> a \<le> 243 \<and> c 1
               \<or> a = 244 \<and> in_range 128 143 s 1) \<and> c 2 \<and> c 3 then 4
      else 1)"

definition rune_of :: "string \<Rightarrow> nat" where
  "rune_of s =
     (let a = of_char (hd s); b = (\<lambda>i. of_char (s ! i) mod 64) in
      case rune_width s of
        Suc 0 \<Rightarrow> if a < 128 then a else 65533
      | Suc (Suc 0) \<Rightarrow> (a mod 32) * 64 + b 1
      | Suc (Suc (Suc 0)) \<Rightarrow> (a mod 16) * 4096 + b 1 * 64 + b 2
      | _ \<Rightarrow> (a mod 8) * 262144 + b 1 * 4096 + b 2 * 64 + b 3)"

lemma rune_width_pos [simp]: "0 < rune_width s"
  by (simp add: rune_width_def Let_def)

text \<open>The code points of a string with the bytes of each, as \<^verbatim>\<open>for _, r := range s\<close> visits them.\<close>

function runes :: "string \<Rightarrow> (nat \<times> string) list" where
  "runes s = (if s = [] then [] else (rune_of s, take (rune_width s) s) # runes (drop (rune_width s) s))"
  by pat_completeness auto
termination
  by (relation "measure length") (auto simp: Let_def)

declare runes.simps [simp del]

lemma runes_Nil [simp]: "runes [] = []"
  by (simp add: runes.simps)

lemma runes_ascii [simp]:
  assumes "(of_char c :: nat) < 128"
  shows "runes (c # s) = (of_char c, [c]) # runes s"
  using assms by (subst runes.simps) (simp add: rune_width_def rune_of_def Let_def)

lemma concat_runes [simp]: "concat (map snd (runes s)) = s"
proof (induction s rule: runes.induct)
  case (1 s)
  then show ?case
    by (cases "s = []") (simp_all add: runes.simps [of s])
qed

lemma runes_code [code]:
  "runes s = (case s of [] \<Rightarrow> []
              | c # t \<Rightarrow> (rune_of s, take (rune_width s) s) # runes (drop (rune_width s) s))"
  by (subst runes.simps) (simp split: list.splits)

text \<open>An ASCII byte of a string is a code point of its own.\<close>

lemma in_range_high: "in_range lo hi s i \<Longrightarrow> 128 \<le> lo \<Longrightarrow> 128 \<le> (of_char (s ! i) :: nat)"
  by (simp add: in_range_def)

lemma rune_width_cases:
  "rune_width s = 1
   \<or> rune_width s = 2 \<and> in_range 128 191 s 1
   \<or> rune_width s = 3 \<and> (\<exists>lo hi. 128 \<le> lo \<and> in_range lo hi s 1) \<and> in_range 128 191 s 2
   \<or> rune_width s = 4 \<and> (\<exists>lo hi. 128 \<le> lo \<and> in_range lo hi s 1) \<and> in_range 128 191 s 2 \<and> in_range 128 191 s 3"
proof -
  have r: "in_range lo hi s 1 \<Longrightarrow> 128 \<le> lo \<Longrightarrow> \<exists>lo hi. 128 \<le> lo \<and> in_range lo hi s 1" for lo hi
    by blast
  show ?thesis
    unfolding rune_width_def Let_def
    using r [of 128 191] r [of 160 191] r [of 128 159] r [of 144 191] r [of 128 143]
    by (simp split: if_split) blast
qed

lemma rune_width_high:
  assumes "rune_width s \<noteq> 1" and "i < rune_width s"
  shows "128 \<le> (of_char (s ! i) :: nat)"
proof -
  have s: "s \<noteq> []"
    using rune_width_cases [of s] assms(1) by (auto simp: in_range_def)
  have 0: "128 \<le> (of_char (s ! 0) :: nat)"
    using assms(1) unfolding rune_width_def Let_def hd_conv_nth [OF s]
    by (simp split: if_splits)
  have "i = 0 \<or> i = 1 \<or> i = 2 \<or> i = 3"
    using rune_width_cases [of s] assms(2) by linarith
  then show ?thesis
    using 0 rune_width_cases [of s] assms by (auto dest: in_range_high)
qed

lemma ascii_byte_rune:
  assumes "(r, bs) \<in> set (runes s)" and "c \<in> set bs" and "(of_char c :: nat) < 128"
  shows "r = of_char c"
  using assms
proof (induction s rule: runes.induct)
  case (1 s)
  then have "s \<noteq> []" by auto
  then consider (here) "r = rune_of s" "bs = take (rune_width s) s"
    | (later) "(r, bs) \<in> set (runes (drop (rune_width s) s))"
    using "1.prems"(1) by (auto simp: runes.simps [of s])
  then show ?case
  proof cases
    case here
    have "rune_width s = 1"
      using here(2) "1.prems"(2,3) rune_width_high [of s]
      by (fastforce simp: in_set_conv_nth)
    then show ?thesis
      using here "1.prems"(2,3) \<open>s \<noteq> []\<close> by (cases s) (auto simp: rune_of_def Let_def)
  next
    case later
    then show ?thesis
      using "1.IH" \<open>s \<noteq> []\<close> "1.prems"(2,3) by blast
  qed
qed

lemma byte_in_runes:
  assumes "c \<in> set s"
  shows "\<exists>r bs. (r, bs) \<in> set (runes s) \<and> c \<in> set bs"
proof -
  have "c \<in> set (concat (map snd (runes s)))"
    using assms by simp
  then show ?thesis
    unfolding set_concat set_map by force
qed

text \<open>\<^verbatim>\<open>utf8.ValidString\<close>: no byte above ASCII stands alone.\<close>

definition valid_utf8 :: "string \<Rightarrow> bool" where
  "valid_utf8 s \<longleftrightarrow> list_all (\<lambda>(r, bs). length bs = 1 \<longrightarrow> (of_char (hd bs) :: nat) < 128) (runes s)"

section \<open>The strings package\<close>

definition lower_char :: "char \<Rightarrow> char" where
  "lower_char c = (if 65 \<le> (of_char c :: nat) \<and> (of_char c :: nat) \<le> 90 then char_of (of_char c + 32 :: nat) else c)"

definition upper_char :: "char \<Rightarrow> char" where
  "upper_char c = (if 97 \<le> (of_char c :: nat) \<and> (of_char c :: nat) \<le> 122 then char_of (of_char c - 32 :: nat) else c)"

text \<open>
  \<^verbatim>\<open>strings.ToLower\<close>, \<^verbatim>\<open>ToUpper\<close> and \<^verbatim>\<open>EqualFold\<close> as the loader uses them, to compare with an ASCII
  word: the code points whose lower case, upper case or fold is ASCII are the ASCII ones and
  U+0130, U+212A (lower), U+0131, U+017F (upper), U+017F, U+212A (fold). Every other code point
  is left as it is here; its image is not ASCII in Go either, so no comparison changes.
\<close>

definition ToLower :: "string \<Rightarrow> string" where
  "ToLower s = concat (map (\<lambda>(r, bs). if r = 304 then ''i'' else if r = 8490 then ''k''
                                      else map lower_char bs) (runes s))"

definition ToUpper :: "string \<Rightarrow> string" where
  "ToUpper s = concat (map (\<lambda>(r, bs). if r = 305 then ''I'' else if r = 383 then ''S''
                                      else map upper_char bs) (runes s))"

definition fold_case :: "string \<Rightarrow> string" where
  "fold_case s = concat (map (\<lambda>(r, bs). if r = 383 then ''s'' else if r = 8490 then ''k''
                                        else map lower_char bs) (runes s))"

lemma ToLower_code [code]:
  "ToLower s = concat (map (\<lambda>(r, bs). let i = int r in if i = 304 then ''i'' else if i = 8490 then ''k''
                                      else map lower_char bs) (runes s))"
  by (auto simp: ToLower_def Let_def intro!: arg_cong [where f = concat] map_cong)

lemma fold_case_code [code]:
  "fold_case s = concat (map (\<lambda>(r, bs). let i = int r in if i = 383 then ''s'' else if i = 8490 then ''k''
                                        else map lower_char bs) (runes s))"
  by (auto simp: fold_case_def Let_def intro!: arg_cong [where f = concat] map_cong)

definition EqualFold :: "string \<Rightarrow> string \<Rightarrow> bool" where
  "EqualFold s t \<longleftrightarrow> fold_case s = fold_case t"

text \<open>\<^verbatim>\<open>strings.Trim\<close> with a cutset of ASCII characters works on bytes.\<close>

definition Trim :: "string \<Rightarrow> string \<Rightarrow> string" where
  "Trim s cutset = rev (dropWhile (\<lambda>c. c \<in> set cutset) (rev (dropWhile (\<lambda>c. c \<in> set cutset) s)))"

definition is_space :: "nat \<Rightarrow> bool" where
  "is_space r \<longleftrightarrow> r \<in> {9, 10, 11, 12, 13, 32, 133, 160, 5760, 8232, 8233, 8239, 8287, 12288}
                 \<or> 8192 \<le> r \<and> r \<le> 8202"

lemma is_space_code [code]:
  "is_space r \<longleftrightarrow> (let i = int r in i = 32 \<or> 9 \<le> i \<and> i \<le> 13 \<or> i = 133 \<or> i = 160 \<or> i = 5760 \<or> 8192 \<le> i \<and> i \<le> 8202 \<or>
     i = 8232 \<or> i = 8233 \<or> i = 8239 \<or> i = 8287 \<or> i = 12288)"
  by (auto simp: is_space_def Let_def)

definition TrimSpace :: "string \<Rightarrow> string" where
  "TrimSpace s =
     (let sp = (\<lambda>(r, bs). is_space r)
      in concat (map snd (rev (dropWhile sp (rev (dropWhile sp (runes s)))))))"

fun split_on :: "char \<Rightarrow> string \<Rightarrow> string list" where
  "split_on c [] = [[]]"
| "split_on c (x # xs) =
     (if x = c then [] # split_on c xs
      else (case split_on c xs of [] \<Rightarrow> [[x]] | w # ws \<Rightarrow> (x # w) # ws))"

fun Join :: "string list \<Rightarrow> string \<Rightarrow> string" where
  "Join [] sep = []"
| "Join [x] sep = x"
| "Join (x # y # xs) sep = x @ sep @ Join (y # xs) sep"

text \<open>\<^verbatim>\<open>strings.ReplaceAll\<close> of a single character.\<close>

definition replace_char :: "char \<Rightarrow> string \<Rightarrow> string \<Rightarrow> string" where
  "replace_char c new s = concat (map (\<lambda>x. if x = c then new else [x]) s)"

fun HasPrefix :: "string \<Rightarrow> string \<Rightarrow> bool" where
  "HasPrefix s [] = True"
| "HasPrefix [] (p # ps) = False"
| "HasPrefix (x # xs) (p # ps) = (x = p \<and> HasPrefix xs ps)"

definition TrimPrefix :: "string \<Rightarrow> string \<Rightarrow> string" where
  "TrimPrefix s p = (if HasPrefix s p then drop (length p) s else s)"

lemma HasPrefix_append [simp]: "HasPrefix (p @ s) p"
  by (induction p) simp_all

lemma HasPrefix_iff: "HasPrefix s p \<longleftrightarrow> (\<exists>t. s = p @ t)"
  by (induction s p rule: HasPrefix.induct) auto

lemma TrimPrefix_append [simp]: "TrimPrefix (p @ s) p = s"
  by (simp add: TrimPrefix_def)

lemma split_on_not_Nil [simp]: "split_on c s \<noteq> []"
  by (induction s) (auto split: list.splits)

lemma Join_split_on: "Join (split_on c s) [c] = s"
proof (induction s)
  case (Cons x xs)
  then show ?case
    by (cases "split_on c xs" rule: list.exhaust; cases "tl (split_on c xs)") auto
qed simp

lemma split_on_no_sep: "w \<in> set (split_on c s) \<Longrightarrow> c \<notin> set w"
  by (induction s arbitrary: w) (auto split: if_splits list.splits)

lemma split_on_id: "c \<notin> set s \<Longrightarrow> split_on c s = [s]"
  by (induction s) auto

lemma split_on_append: "c \<notin> set s \<Longrightarrow> split_on c (s @ c # t) = s # split_on c t"
  by (induction s) auto

lemma replace_char_id: "c \<notin> set s \<Longrightarrow> replace_char c new s = s"
  by (induction s) (auto simp: replace_char_def)

lemma replace_char_Nil [simp]: "replace_char c new [] = []"
  by (simp add: replace_char_def)

lemma replace_char_Cons [simp]:
  "replace_char c new (x # s) = (if x = c then new else [x]) @ replace_char c new s"
  by (simp add: replace_char_def)

lemma Trim_id:
  assumes "s = [] \<or> hd s \<notin> set cutset" and "s = [] \<or> last s \<notin> set cutset"
  shows "Trim s cutset = s"
proof (cases "s = []")
  case False
  then have 1: "dropWhile (\<lambda>c. c \<in> set cutset) s = s"
    using assms(1) by (cases s) auto
  have "dropWhile (\<lambda>c. c \<in> set cutset) (rev s) = rev s"
    using False assms(2) by (cases s rule: rev_cases) auto
  with 1 show ?thesis
    by (simp add: Trim_def)
qed (simp add: Trim_def)

lemma Trim_noop: "set s \<inter> set cutset = {} \<Longrightarrow> Trim s cutset = s"
  by (rule Trim_id) (auto simp: hd_in_set last_in_set disjoint_iff)

section \<open>Formatting\<close>

text \<open>
  \<^verbatim>\<open>strconv.Quote\<close> (\<^verbatim>\<open>%q\<close>): escapes for the quote, the backslash and the control characters, an
  invalid byte as \<^verbatim>\<open>\xNN\<close>; other code points are copied, as Go does for the printable ones.
\<close>

definition hexdigit :: "nat \<Rightarrow> char" where
  "hexdigit n = (if n < 10 then char_of (48 + n) else char_of (87 + n))"

definition quote_rune :: "nat \<times> string \<Rightarrow> string" where
  "quote_rune = (\<lambda>(r, bs).
     if r = 34 then [CHR 0x5C, CHR 0x22]
     else if r = 92 then [CHR 0x5C, CHR 0x5C]
     else if r = 7 then [CHR 0x5C, CHR ''a''] else if r = 8 then [CHR 0x5C, CHR ''b'']
     else if r = 9 then [CHR 0x5C, CHR ''t''] else if r = 10 then [CHR 0x5C, CHR ''n'']
     else if r = 11 then [CHR 0x5C, CHR ''v''] else if r = 12 then [CHR 0x5C, CHR ''f'']
     else if r = 13 then [CHR 0x5C, CHR ''r'']
     else if r < 32 \<or> r = 127 \<or> r = 65533 \<and> length bs = 1
     then (let b = of_char (hd bs) in [CHR 0x5C, CHR ''x'', hexdigit (b div 16), hexdigit (b mod 16)])
     else bs)"

definition go_quote :: "string \<Rightarrow> string" where
  "go_quote s = CHR 0x22 # concat (map quote_rune (runes s)) @ [CHR 0x22]"

text \<open>
  The text of an error: each verb of the format takes the next argument (\<^verbatim>\<open>%q\<close> quotes a string;
  \<^verbatim>\<open>%s\<close>, \<^verbatim>\<open>%v\<close>, \<^verbatim>\<open>%w\<close>, \<^verbatim>\<open>%d\<close> print it).
\<close>

fun fill :: "string \<Rightarrow> (string \<times> string) list \<Rightarrow> string" where
  "fill [] args = []"
| "fill [c] args = [c]"
| "fill (c # v # fmt) args =
     (if c = CHR ''%'' then
        (case args of [] \<Rightarrow> c # v # fill fmt []
         | (plain, quoted) # rest \<Rightarrow> (if v = CHR ''q'' then quoted else plain) @ fill fmt rest)
      else c # fill (v # fmt) args)"

primrec Error :: "gerr \<Rightarrow> string" and farg_text :: "farg \<Rightarrow> string \<times> string" where
  "Error (ErrExt m) = m"
| "Error (Errorf fmt args) = fill fmt (map farg_text args)"
| "farg_text (AStr s) = (s, go_quote s)"
| "farg_text (AInt i) = (itoa i, itoa i)"
| "farg_text (AErr e) = (Error e, Error e)"

section \<open>Maps and lists\<close>

text \<open>
  A \<^verbatim>\<open>map[string]string\<close> is a list of its entries, with distinct keys, in the order in which a
  \<^verbatim>\<open>range\<close> visits them; \<open>get_str\<close> is \<^verbatim>\<open>m[k]\<close>, with the zero value for a missing key.
\<close>

type_synonym strmap = "(string \<times> string) list"

definition get_str :: "strmap \<Rightarrow> string \<Rightarrow> string" where
  "get_str m k = (case map_of m k of None \<Rightarrow> [] | Some v \<Rightarrow> v)"

text \<open>\<^verbatim>\<open>sort.Strings\<close> of the keys: the order on strings is the one on byte sequences.\<close>

definition sorted_keys :: "strmap \<Rightarrow> string list" where
  "sorted_keys m = sort (map fst m)"

lemma sorted_keys_set [simp]: "set (sorted_keys m) = fst ` set m"
  by (simp add: sorted_keys_def)

lemma sorted_keys_distinct: "distinct (map fst m) \<Longrightarrow> distinct (sorted_keys m)"
  by (simp add: sorted_keys_def)

lemma sorted_keys_sorted [simp]: "sorted (sorted_keys m)"
  by (simp add: sorted_keys_def)

text \<open>The entries of a map in the order of its keys.\<close>

definition sorted_entries :: "strmap \<Rightarrow> strmap" where
  "sorted_entries m = map (\<lambda>k. (k, get_str m k)) (sorted_keys m)"

lemma map_of_sorted_entries: "map_of (sorted_entries m) = map_of m"
proof
  fix k
  show "map_of (sorted_entries m) k = map_of m k"
  proof (cases "map_of m k")
    case None
    then have "k \<notin> fst ` set m"
      by (simp add: map_of_eq_None_iff)
    then show ?thesis
      using None by (simp add: sorted_entries_def map_of_map_restrict restrict_map_def)
  next
    case (Some v)
    then have "k \<in> fst ` set m"
      by (force dest: map_of_SomeD)
    then show ?thesis
      using Some by (simp add: sorted_entries_def map_of_map_restrict restrict_map_def get_str_def)
  qed
qed

lemma sorted_entries_unique:
  assumes "distinct (map fst m)" "distinct (map fst m')" "map_of m = map_of m'"
  shows "sorted_entries m = sorted_entries m'"
proof -
  have "set (sorted_keys m) = set (sorted_keys m')"
    using assms(3) by (simp add: dom_map_of_conv_image_fst [symmetric])
  then have "sorted_keys m = sorted_keys m'"
    using assms(1,2) by (intro sorted_distinct_set_unique) (simp_all add: sorted_keys_distinct)
  then show ?thesis
    using assms(3) by (simp add: sorted_entries_def get_str_def)
qed

text \<open>A list of rows looked up by a key, after an insert and after an update in place.\<close>

lemma find_append_new:
  assumes "key r \<notin> key ` set rs"
  shows "List.find (\<lambda>x. key x = i) (rs @ [r]) = (if i = key r then Some r else List.find (\<lambda>x. key x = i) rs)"
  using assms by (induction rs) auto

lemma find_map_update:
  assumes "key r \<in> key ` set rs"
  shows "List.find (\<lambda>x. key x = i) (map (\<lambda>x. if key x = key r then r else x) rs)
         = (if i = key r then Some r else List.find (\<lambda>x. key x = i) rs)"
proof -
  have "List.find (\<lambda>x. key x = i) (map (\<lambda>x. if key x = key r then r else x) xs)
         = (if i = key r then (if key r \<in> key ` set xs then Some r else None) else List.find (\<lambda>x. key x = i) xs)" for xs
    by (induction xs) auto
  with assms show ?thesis by simp
qed

lemma find_None: "List.find (\<lambda>x. key x = i) rs = None \<longleftrightarrow> i \<notin> key ` set rs"
  by (induction rs) auto

lemma find_SomeD: "List.find P xs = Some x \<Longrightarrow> P x \<and> x \<in> set xs"
  by (induction xs) (auto split: if_splits)

section \<open>Ranging over a map\<close>

text \<open>The order in which \<^verbatim>\<open>range\<close> visits the keys of a map is not specified; it visits each key once.\<close>

definition ranges :: "('k set \<Rightarrow> 'k list) \<Rightarrow> bool" where
  "ranges ord \<longleftrightarrow> (\<forall>A. finite A \<longrightarrow> set (ord A) = A \<and> distinct (ord A))"

lemma ranges_sorted: "ranges (sorted_list_of_set :: 'k::linorder set \<Rightarrow> 'k list)"
  by (simp add: ranges_def)

end
