(* ===== verification/SqlIdent.thy ===== *)
theory SqlIdent
  imports Prelude
begin

text \<open>
  \<^verbatim>\<open>internal/sqlident/ident.go\<close>: validation and quoting of SQL identifiers. The lemmas show that
  what the quoting functions return is read back by the SQL lexer as exactly the identifier that
  was quoted, whatever characters it holds, so no identifier can end its quotes early.

  The Unicode classes \<^verbatim>\<open>\p{L}\<close> and \<^verbatim>\<open>\p{N}\<close> above ASCII are tables of the Go toolchain's Unicode
  version; they are the parameter \<open>U\<close>. The ASCII part is fixed.
\<close>

record unicode_tabs =
  uni_L :: "nat \<Rightarrow> bool"
  uni_N :: "nat \<Rightarrow> bool"

text \<open>A small table, for evaluating examples: no letter and no number above ASCII.\<close>

definition ascii_tabs :: unicode_tabs where
  "ascii_tabs = \<lparr> uni_L = \<lambda>_. False, uni_N = \<lambda>_. False \<rparr>"

section \<open>The operations\<close>

definition MaxIdentLen :: nat where
  "MaxIdentLen = 128"

definition is_letter :: "unicode_tabs \<Rightarrow> nat \<Rightarrow> bool" where
  "is_letter U r \<longleftrightarrow> (if r < 128 then 65 \<le> r \<and> r \<le> 90 \<or> 97 \<le> r \<and> r \<le> 122 else uni_L U r)"

definition is_number :: "unicode_tabs \<Rightarrow> nat \<Rightarrow> bool" where
  "is_number U r \<longleftrightarrow> (if r < 128 then 48 \<le> r \<and> r \<le> 57 else uni_N U r)"

text \<open>The two character classes of \<^verbatim>\<open>identRE\<close>: \<^verbatim>\<open>_\<close> is 95, and the rest adds \<^verbatim>\<open>@ $ # space . -\<close>.\<close>

definition ident_start :: "unicode_tabs \<Rightarrow> nat \<Rightarrow> bool" where
  "ident_start U r \<longleftrightarrow> is_letter U r \<or> r = 95"

definition ident_rest :: "unicode_tabs \<Rightarrow> nat \<Rightarrow> bool" where
  "ident_rest U r \<longleftrightarrow> is_letter U r \<or> is_number U r \<or> r \<in> {95, 64, 36, 35, 32, 46, 45}"

definition identRE :: "unicode_tabs \<Rightarrow> string \<Rightarrow> bool" where
  "identRE U s =
     (case runes s of
        [] \<Rightarrow> False
      | (r, _) # rs \<Rightarrow> ident_start U r \<and> length rs \<le> 127 \<and> list_all (\<lambda>(q, _). ident_rest U q) rs)"

definition Validate :: "unicode_tabs \<Rightarrow> string \<Rightarrow> unit res" where
  "Validate U name =
     (if name = [] then Inl (Errorf ''identifier is empty'' [])
      else if \<not> valid_utf8 name then Inl (Errorf ''identifier is not valid UTF-8'' [])
      else if length name > MaxIdentLen
      then Inl (Errorf ''identifier %q exceeds %d characters'' [AStr name, AInt (int MaxIdentLen)])
      else if \<not> identRE U name
      then Inl (Errorf ''identifier %q contains illegal characters'' [AStr name])
      else Inr ())"

fun validate_parts :: "unicode_tabs \<Rightarrow> string list \<Rightarrow> unit res" where
  "validate_parts U [] = Inr ()"
| "validate_parts U (p # ps) =
     (case Validate U (Trim p [CHR ''['', CHR '']'', CHR 0x22]) of
        Inl e \<Rightarrow> Inl e
      | Inr _ \<Rightarrow> validate_parts U ps)"

definition ValidateQualified :: "unicode_tabs \<Rightarrow> string \<Rightarrow> unit res" where
  "ValidateQualified U name =
     (if name = [] then Inl (Errorf ''identifier is empty'' [])
      else let parts = split_on CHR ''.'' name in
        if length parts > 2 then Inl (Errorf ''identifier %q has too many segments'' [AStr name])
        else validate_parts U parts)"

definition QuoteMSSQL :: "string \<Rightarrow> string" where
  "QuoteMSSQL name =
     (let name = Trim name [CHR ''['', CHR '']'']
      in ''['' @ replace_char CHR '']'' '']]'' name @ '']'')"

definition QuoteMSSQLQualified :: "unicode_tabs \<Rightarrow> string \<Rightarrow> string res" where
  "QuoteMSSQLQualified U name =
     (case ValidateQualified U name of
        Inl e \<Rightarrow> Inl e
      | Inr _ \<Rightarrow>
          Inr (Join (map (\<lambda>p. QuoteMSSQL (Trim p [CHR ''['', CHR '']''])) (split_on CHR ''.'' name)) ''.''))"

definition QuotePostgres :: "string \<Rightarrow> string" where
  "QuotePostgres name =
     (let name = Trim name [CHR 0x22]
      in [CHR 0x22] @ replace_char (CHR 0x22) [CHR 0x22, CHR 0x22] name @ [CHR 0x22])"

definition QuotePostgresQualified :: "unicode_tabs \<Rightarrow> string \<Rightarrow> string res" where
  "QuotePostgresQualified U name =
     (case ValidateQualified U name of
        Inl e \<Rightarrow> Inl e
      | Inr _ \<Rightarrow>
          Inr (Join (map (\<lambda>p. QuotePostgres (Trim p [CHR 0x22])) (split_on CHR ''.'' name)) ''.''))"

section \<open>Reading quoted identifiers back\<close>

text \<open>
  The lexical rule of a delimited identifier, with closing delimiter \<open>q\<close>: two closing delimiters
  stand for one, a single one ends the identifier. The result is the identifier and what follows.
\<close>

fun lex_body :: "char \<Rightarrow> string \<Rightarrow> (string \<times> string) option" where
  "lex_body q [] = None"
| "lex_body q (c # s) =
     (if c \<noteq> q then map_option (\<lambda>(w, r). (c # w, r)) (lex_body q s)
      else (case s of
              d # t \<Rightarrow> if d = q then map_option (\<lambda>(w, r). (q # w, r)) (lex_body q t) else Some ([], s)
            | [] \<Rightarrow> Some ([], [])))"

definition lex_delim :: "char \<Rightarrow> char \<Rightarrow> string \<Rightarrow> (string \<times> string) option" where
  "lex_delim open close s = (case s of [] \<Rightarrow> None | c # t \<Rightarrow> if c = open then lex_body close t else None)"

text \<open>A name of one or more delimited identifiers with dots between them, and nothing after it.\<close>

fun lex_dotted :: "nat \<Rightarrow> char \<Rightarrow> char \<Rightarrow> string \<Rightarrow> string list option" where
  "lex_dotted 0 open close s = None"
| "lex_dotted (Suc n) open close s =
     (case lex_delim open close s of
        None \<Rightarrow> None
      | Some (w, []) \<Rightarrow> Some [w]
      | Some (w, c # t) \<Rightarrow> if c = CHR ''.'' then map_option ((#) w) (lex_dotted n open close t) else None)"

lemma lex_body_quote:
  assumes "rest = [] \<or> hd rest \<noteq> q"
  shows "lex_body q (replace_char q [q, q] w @ q # rest) = Some (w, rest)"
proof (induction w)
  case Nil
  then show ?case
    using assms by (cases rest) auto
next
  case (Cons c w)
  then show ?case
    by simp
qed

lemma Trim_Trim [simp]: "Trim (Trim s cs) cs = Trim s cs"
proof (rule Trim_id)
  let ?P = "\<lambda>c. c \<in> set cs"
  let ?d = "dropWhile ?P s"
  show "Trim s cs = [] \<or> last (Trim s cs) \<notin> set cs"
    using hd_dropWhile [of ?P "rev ?d"] by (auto simp: Trim_def last_rev)
  show "Trim s cs = [] \<or> hd (Trim s cs) \<notin> set cs"
  proof (cases "Trim s cs = []")
    case False
    then have d: "?d \<noteq> []"
      unfolding Trim_def by fastforce
    have "\<not> ?P (hd ?d)"
      using d by (rule hd_dropWhile)
    moreover obtain us where "?d = Trim s cs @ us"
      using takeWhile_dropWhile_id [of ?P "rev ?d"] unfolding Trim_def
      by (metis rev_append rev_rev_ident)
    ultimately show ?thesis
      using False by (cases "Trim s cs") auto
  qed simp
qed

lemma QuoteMSSQL_Trim [simp]: "QuoteMSSQL (Trim p [CHR ''['', CHR '']'']) = QuoteMSSQL p"
  by (simp add: QuoteMSSQL_def)

lemma QuotePostgres_Trim [simp]: "QuotePostgres (Trim p [CHR 0x22]) = QuotePostgres p"
  by (simp add: QuotePostgres_def)

lemma lex_QuoteMSSQL:
  assumes "rest = [] \<or> hd rest \<noteq> CHR '']''"
  shows "lex_delim CHR ''['' CHR '']'' (QuoteMSSQL name @ rest) = Some (Trim name [CHR ''['', CHR '']''], rest)"
  using lex_body_quote [OF assms, of "Trim name [CHR ''['', CHR '']'']"]
  by (simp add: lex_delim_def QuoteMSSQL_def Let_def)

lemma lex_QuotePostgres:
  assumes "rest = [] \<or> hd rest \<noteq> CHR 0x22"
  shows "lex_delim (CHR 0x22) (CHR 0x22) (QuotePostgres name @ rest) = Some (Trim name [CHR 0x22], rest)"
  using lex_body_quote [OF assms, of "Trim name [CHR 0x22]"]
  by (simp add: lex_delim_def QuotePostgres_def Let_def)

text \<open>A quoting function and the lexer that reads it back give back a whole dotted name.\<close>

lemma lex_dotted_Join:
  assumes quote: "\<And>p rest. rest = [] \<or> hd rest = CHR ''.'' \<Longrightarrow>
                   lex_delim open close (quote p @ rest) = Some (strip p, rest)"
    and "ps \<noteq> []" and "length ps \<le> n"
  shows "lex_dotted n open close (Join (map quote ps) ''.'') = Some (map strip ps)"
  using assms(2,3)
proof (induction ps arbitrary: n)
  case Nil
  then show ?case by simp
next
  case (Cons p ps)
  then obtain m where n: "n = Suc m" and "length ps \<le> m"
    by (cases n) auto
  show ?case
  proof (cases ps)
    case Nil
    then show ?thesis
      using quote [of "[]" p] n by simp
  next
    case (Cons r rs)
    then have "lex_dotted m open close (Join (map quote ps) ''.'') = Some (map strip ps)"
      using Cons.IH \<open>length ps \<le> m\<close> by simp
    moreover have "lex_delim open close (quote p @ ''.'' @ Join (map quote ps) ''.'')
                   = Some (strip p, ''.'' @ Join (map quote ps) ''.'')"
      by (rule quote) simp
    ultimately show ?thesis
      using n Cons by simp
  qed
qed

section \<open>What a validated name holds\<close>

lemma Validate_OkD:
  assumes "Validate U name = Inr u"
  shows "name \<noteq> []" "length name \<le> 128" "valid_utf8 name" "identRE U name"
  using assms by (auto simp: Validate_def MaxIdentLen_def split: if_splits)

lemma Validate_ascii:
  assumes "Validate U name = Inr u" and "c \<in> set name" and "(of_char c :: nat) < 128"
  shows "ident_rest U (of_char c)"
proof -
  obtain r bs where r: "(r, bs) \<in> set (runes name)" "c \<in> set bs"
    using byte_in_runes [OF assms(2)] by blast
  then have "r = of_char c"
    using ascii_byte_rune assms(3) by blast
  moreover have "ident_start U r \<or> ident_rest U r"
    using Validate_OkD(4) [OF assms(1)] r(1) by (auto simp: identRE_def list_all_iff split: list.splits)
  ultimately show ?thesis
    by (auto simp: ident_start_def ident_rest_def)
qed

lemma Validate_no_delims:
  assumes "Validate U name = Inr u"
  shows "CHR ''['' \<notin> set name" "CHR '']'' \<notin> set name" "CHR 0x22 \<notin> set name"
    "CHR '';'' \<notin> set name" "CHR 0x27 \<notin> set name"
  using Validate_ascii [OF assms]
  by (fastforce simp: ident_rest_def is_letter_def is_number_def)+

lemma Validate_Trim:
  assumes "Validate U name = Inr u"
  shows "Trim name [CHR ''['', CHR '']''] = name" "Trim name [CHR 0x22] = name"
    "Trim name [CHR ''['', CHR '']'', CHR 0x22] = name"
  using Validate_no_delims [OF assms] by (auto intro!: Trim_noop)

lemma QuoteMSSQL_valid: "Validate U name = Inr u \<Longrightarrow> QuoteMSSQL name = ''['' @ name @ '']''"
  using Validate_no_delims [of U name u] Validate_Trim [of U name u]
  by (simp add: QuoteMSSQL_def replace_char_id)

lemma validate_parts_Inr: "validate_parts U ps = Inr () \<longleftrightarrow>
    (\<forall>p \<in> set ps. Validate U (Trim p [CHR ''['', CHR '']'', CHR 0x22]) = Inr ())"
  by (induction ps) (auto split: sum.splits)

lemma ValidateQualified_Inr: "ValidateQualified U name = Inr () \<longleftrightarrow>
    name \<noteq> [] \<and> length (split_on CHR ''.'' name) \<le> 2 \<and>
    (\<forall>p \<in> set (split_on CHR ''.'' name). Validate U (Trim p [CHR ''['', CHR '']'', CHR 0x22]) = Inr ())"
  by (auto simp: ValidateQualified_def Let_def validate_parts_Inr)

section \<open>Properties\<close>

text \<open>
  (C23) Quoting for SQL Server round-trips: whenever a name is accepted and quoted, the T-SQL lexer
  reads the text back as one or two delimited identifiers, and these are the dot-separated parts of
  the name without their outer brackets. Nothing of the name is read as SQL.
\<close>

theorem lex_QuoteMSSQLQualified:
  assumes "QuoteMSSQLQualified U name = Inr q"
  shows "lex_dotted 2 CHR ''['' CHR '']'' q
         = Some (map (\<lambda>p. Trim p [CHR ''['', CHR '']'']) (split_on CHR ''.'' name))"
proof -
  have v: "ValidateQualified U name = Inr ()"
    and q: "q = Join (map QuoteMSSQL (split_on CHR ''.'' name)) ''.''"
    using assms by (auto simp: QuoteMSSQLQualified_def split: sum.splits)
  show ?thesis
    unfolding q using v
    by (intro lex_dotted_Join lex_QuoteMSSQL) (auto simp: ValidateQualified_Inr)
qed

theorem lex_QuoteMSSQLQualified_witness:
  "lex_dotted 2 CHR ''['' CHR '']'' ''[dbo].[x y]''
   = Some (map (\<lambda>p. Trim p [CHR ''['', CHR '']'']) (split_on CHR ''.'' ''dbo.[x y]''))"
  by (rule lex_QuoteMSSQLQualified [of ascii_tabs])
     (simp add: QuoteMSSQLQualified_def QuoteMSSQL_def ValidateQualified_def Validate_def Trim_def
       MaxIdentLen_def valid_utf8_def identRE_def ident_start_def ident_rest_def is_letter_def is_number_def)

text \<open>
  (C24) Quoting for PostgreSQL round-trips in the same way through its double-quote lexer.
\<close>

theorem lex_QuotePostgresQualified:
  assumes "QuotePostgresQualified U name = Inr q"
  shows "lex_dotted 2 (CHR 0x22) (CHR 0x22) q
         = Some (map (\<lambda>p. Trim p [CHR 0x22]) (split_on CHR ''.'' name))"
proof -
  have v: "ValidateQualified U name = Inr ()"
    and q: "q = Join (map QuotePostgres (split_on CHR ''.'' name)) ''.''"
    using assms by (auto simp: QuotePostgresQualified_def split: sum.splits)
  show ?thesis
    unfolding q using v
    by (intro lex_dotted_Join lex_QuotePostgres) (auto simp: ValidateQualified_Inr)
qed

theorem lex_QuotePostgresQualified_witness:
  "lex_dotted 2 (CHR 0x22) (CHR 0x22)
     [CHR 0x22, CHR ''s'', CHR 0x22, CHR ''.'', CHR 0x22, CHR ''['', CHR ''t'', CHR '']'', CHR 0x22]
   = Some (map (\<lambda>p. Trim p [CHR 0x22]) (split_on CHR ''.'' ''s.[t]''))"
  by (rule lex_QuotePostgresQualified [of ascii_tabs])
     (simp add: QuotePostgresQualified_def QuotePostgres_def ValidateQualified_def Validate_def Trim_def
       MaxIdentLen_def valid_utf8_def identRE_def ident_start_def ident_rest_def is_letter_def is_number_def)

text \<open>
  (C32) A name that passes \<^verbatim>\<open>Validate\<close> has between 1 and 128 bytes and no bracket, quote or semicolon,
  and both quoting functions only wrap it: no character of it is changed or dropped.
\<close>

theorem Validate_contents:
  assumes "Validate U name = Inr ()"
  shows "name \<noteq> [] \<and> length name \<le> 128
         \<and> set name \<inter> {CHR ''['', CHR '']'', CHR 0x22, CHR 0x27, CHR '';''} = {}
         \<and> QuoteMSSQL name = ''['' @ name @ '']''
         \<and> QuotePostgres name = [CHR 0x22] @ name @ [CHR 0x22]"
  using Validate_OkD [OF assms] Validate_no_delims [OF assms] Validate_Trim [OF assms]
    QuoteMSSQL_valid [OF assms]
  by (simp add: QuotePostgres_def replace_char_id)

theorem Validate_contents_witness:
  "QuoteMSSQL ''Order Lines'' = ''[Order Lines]''"
  using Validate_contents [of ascii_tabs "''Order Lines''"]
  by (simp add: Validate_def MaxIdentLen_def valid_utf8_def identRE_def ident_start_def
      ident_rest_def is_letter_def is_number_def)

end
