(* ===== verification/Float64.thy ===== *)
theory Float64
  imports Prelude "HOL-Library.Word"
begin

text \<open>
  Go's \<^verbatim>\<open>float64\<close> (IEEE 754 binary64), as far as the loader computes with it: conversion from an
  integer, from the bits of a float32 and of a float64, multiplication and addition, each rounded
  to nearest with ties to even. The products \<^verbatim>\<open>raw*scale + offset\<close> are two rounded operations, as
  on amd64; Go may fuse them on other processors.

  A finite value is \<open>(-1)^s * m * 2^e\<close> with \<open>m < 2^53\<close> and \<open>e \<ge> -1074\<close>; \<open>m\<close> has 53 bits unless
  \<open>e = -1074\<close> (the subnormal numbers and the zeros).
\<close>

datatype f64 = NaN | Inf bool | Fin bool nat int

fun bitlen :: "nat \<Rightarrow> nat" where
  "bitlen n = (if n = 0 then 0 else Suc (bitlen (n div 2)))"

declare bitlen.simps [simp del]

text \<open>Rounding of \<open>(-1)^s * m * 2^e\<close>, for any \<open>m\<close> and \<open>e\<close>.\<close>

definition overflow :: "bool \<Rightarrow> nat \<Rightarrow> int \<Rightarrow> f64" where
  "overflow s m e = (if 971 < e then Inf s else Fin s m e)"

definition round_quot :: "nat \<Rightarrow> nat \<Rightarrow> nat" where
  "round_quot m d =
     (let q = m div d; r = m mod d in if d < 2 * r \<or> 2 * r = d \<and> odd q then q + 1 else q)"

definition fround :: "bool \<Rightarrow> nat \<Rightarrow> int \<Rightarrow> f64" where
  "fround s m e =
     (if m = 0 then Fin s 0 (-1074)
      else let k = max (int (bitlen m) - 53) (-1074 - e) in
        if k \<le> 0 then overflow s (m * 2 ^ nat (- k)) (e + k)
        else let q = round_quot m (2 ^ nat k) in
          if q = 2 ^ 53 then overflow s (2 ^ 52) (e + k + 1) else overflow s q (e + k))"

definition f64_of_int :: "int \<Rightarrow> f64" where
  "f64_of_int i = fround (i < 0) (nat \<bar>i\<bar>) 0"

text \<open>\<^verbatim>\<open>math.Float64frombits\<close>, and \<^verbatim>\<open>math.Float32frombits\<close> widened to float64.\<close>

definition f64_of_bits :: "64 word \<Rightarrow> f64" where
  "f64_of_bits w =
     (let b = unat w; s = (2 ^ 63 \<le> b); E = (b div 2 ^ 52) mod 2 ^ 11; F = b mod 2 ^ 52 in
      if E = 2047 then (if F = 0 then Inf s else NaN)
      else if E = 0 then Fin s F (-1074)
      else Fin s (2 ^ 52 + F) (int E - 1075))"

definition f64_of_f32bits :: "32 word \<Rightarrow> f64" where
  "f64_of_f32bits w =
     (let b = unat w; s = (2 ^ 31 \<le> b); E = (b div 2 ^ 23) mod 2 ^ 8; F = b mod 2 ^ 23 in
      if E = 255 then (if F = 0 then Inf s else NaN)
      else if E = 0 then fround s F (-149)
      else fround s (2 ^ 23 + F) (int E - 150))"

fun f64_mul :: "f64 \<Rightarrow> f64 \<Rightarrow> f64" where
  "f64_mul NaN y = NaN"
| "f64_mul x NaN = NaN"
| "f64_mul (Inf s) (Inf t) = Inf (s \<noteq> t)"
| "f64_mul (Inf s) (Fin t m e) = (if m = 0 then NaN else Inf (s \<noteq> t))"
| "f64_mul (Fin s m e) (Inf t) = (if m = 0 then NaN else Inf (s \<noteq> t))"
| "f64_mul (Fin s m e) (Fin t n f) = fround (s \<noteq> t) (m * n) (e + f)"

definition signed_mant :: "bool \<Rightarrow> nat \<Rightarrow> int \<Rightarrow> int" where
  "signed_mant s m k = (if s then - (int m * 2 ^ nat k) else int m * 2 ^ nat k)"

fun f64_add :: "f64 \<Rightarrow> f64 \<Rightarrow> f64" where
  "f64_add NaN y = NaN"
| "f64_add x NaN = NaN"
| "f64_add (Inf s) (Inf t) = (if s = t then Inf s else NaN)"
| "f64_add (Inf s) (Fin t m e) = Inf s"
| "f64_add (Fin s m e) (Inf t) = Inf t"
| "f64_add (Fin s m e) (Fin t n f) =
     (let g = min e f; v = signed_mant s m (e - g) + signed_mant t n (f - g) in
      if v = 0 then Fin (s \<and> t) 0 (-1074)
      else fround (v < 0) (nat \<bar>v\<bar>) g)"

definition IsNaN :: "f64 \<Rightarrow> bool" where
  "IsNaN x \<longleftrightarrow> x = NaN"

definition IsInf :: "f64 \<Rightarrow> bool" where
  "IsInf x \<longleftrightarrow> (\<exists>s. x = Inf s)"

lemma IsInf_code [code]: "IsInf x = (case x of Inf s \<Rightarrow> True | _ \<Rightarrow> False)"
  by (cases x) (simp_all add: IsInf_def)

definition f64_one :: f64 where
  "f64_one = f64_of_int 1"

definition f64_zero :: f64 where
  "f64_zero = f64_of_int 0"

section \<open>Exactness\<close>

lemma bitlen_bounds: "0 < n \<Longrightarrow> 2 ^ (bitlen n - 1) \<le> n \<and> n < 2 ^ bitlen n"
proof (induction n rule: bitlen.induct)
  case (1 n)
  show ?case
  proof (cases "n div 2 = 0")
    case True
    with "1.prems" have "n = 1" by simp
    then show ?thesis by (simp add: bitlen.simps)
  next
    case False
    then have IH: "2 ^ (bitlen (n div 2) - 1) \<le> n div 2 \<and> n div 2 < 2 ^ bitlen (n div 2)"
      using "1" by simp
    obtain k where k: "bitlen (n div 2) = Suc k"
      using False by (metis bitlen.simps)
    then have b: "bitlen n = Suc (Suc k)"
      using "1.prems" by (simp add: bitlen.simps [of n])
    from IH k have "2 ^ k \<le> n div 2" "n div 2 < 2 ^ Suc k" by simp_all
    then have "2 ^ Suc k \<le> n" "n < 2 ^ Suc (Suc k)" by simp_all
    then show ?thesis using b by simp
  qed
qed

lemma bitlen_le: "0 < n \<Longrightarrow> n < 2 ^ k \<Longrightarrow> bitlen n \<le> k"
proof -
  assume "0 < n" "n < 2 ^ k"
  then have "(2::nat) ^ (bitlen n - 1) < 2 ^ k"
    using bitlen_bounds [of n] by linarith
  then have "bitlen n - 1 < k" by simp
  then show ?thesis by simp
qed

text \<open>A value that fits 53 bits and the exponent range is not rounded.\<close>

lemma fround_exact:
  assumes "0 < m" and "m < 2 ^ 53" and "-1074 \<le> e" and "e \<le> 0"
  shows "\<exists>j. fround s m e = Fin s (m * 2 ^ j) (e - int j)"
proof -
  let ?k = "max (int (bitlen m) - 53) (-1074 - e)"
  have k: "?k \<le> 0"
    using bitlen_le [OF assms(1,2)] assms(3) by simp
  then have "fround s m e = overflow s (m * 2 ^ nat (- ?k)) (e + ?k)"
    using assms(1) by (simp add: fround_def Let_def)
  also have "\<dots> = Fin s (m * 2 ^ nat (- ?k)) (e + ?k)"
  proof -
    have "\<not> 971 < e + ?k" using k assms(4) by linarith
    then show ?thesis by (simp only: overflow_def if_False)
  qed
  also have "e + ?k = e - int (nat (- ?k))"
    using k by linarith
  finally show ?thesis by blast
qed

section \<open>Computing with numerals\<close>

lemma bitlen_0 [simp]: "bitlen 0 = 0"
  by (simp add: bitlen.simps)

lemma bitlen_1 [simp]: "bitlen (Suc 0) = 1"
  by (simp add: bitlen.simps)

lemma bitlen_numeral: "bitlen (numeral k) = Suc (bitlen (numeral k div 2))"
  by (subst bitlen.simps) simp

lemmas float_simps = f64_one_def f64_zero_def f64_of_int_def fround_def bitlen_numeral overflow_def round_quot_def
  signed_mant_def Let_def

end
