(* ===== verification/Contracts.thy ===== *)
theory Contracts
  imports SqlIdent Float64
begin

text \<open>
  \<^verbatim>\<open>pkg/contracts\<close>: the data the components exchange and the ports between them. A struct is a
  record; a Go interface is a record of its methods, so that a component that is handed an
  interface value takes such a record as an argument. The contracts of the ports are locales,
  stated next to the records, with the lemmas a client needs proved once inside them.

  A \<^verbatim>\<open>context.Context\<close> argument is not modelled: cancelling it makes a call of an external
  system return an error, and every such call may return one.
\<close>

section \<open>Types (types.go)\<close>

text \<open>An instant, in nanoseconds since the Unix epoch; the zero \<^verbatim>\<open>time.Time\<close> is 0001-01-01.\<close>

type_synonym gtime = int

definition zero_time :: gtime where
  "zero_time = - 62135596800000000000"

text \<open>The watermark types and load modes are strings in the source; these are its constants.\<close>

definition WatermarkNone :: string where "WatermarkNone = ''none''"
definition WatermarkDatetime :: string where "WatermarkDatetime = ''datetime''"
definition WatermarkNumeric :: string where "WatermarkNumeric = ''numeric''"

definition LoadModeDelta :: string where "LoadModeDelta = ''delta''"
definition LoadModeAppend :: string where "LoadModeAppend = ''append''"
definition LoadModeReplace :: string where "LoadModeReplace = ''replace''"

lemmas mode_defs = LoadModeDelta_def LoadModeAppend_def LoadModeReplace_def
lemmas wmtype_defs = WatermarkNone_def WatermarkDatetime_def WatermarkNumeric_def

record Watermark =
  wm_Type :: string
  wm_Value :: string

record Column =
  c_Name :: string
  c_DataType :: string
  c_Nullable :: bool

text \<open>
  A value of type \<^verbatim>\<open>any\<close> by its dynamic type; \<open>VOther\<close> is any other type, by its name and the text that
  \<^verbatim>\<open>%v\<close> prints.
\<close>

datatype ikind = I8 | I16 | I32 | I64 | U8 | U16 | U32 | U64

datatype gval = VNil | VBool bool | VString string | VBytes string | VInt ikind int
  | VFloat32 "32 word" | VFloat64 f64 | VTime gtime | VGuid string | VArr16 string | VOther string string

type_synonym Row = "string \<rightharpoonup> gval"

definition row_get :: "Row \<Rightarrow> string \<Rightarrow> gval" where
  "row_get r k = (case r k of None \<Rightarrow> VNil | Some v \<Rightarrow> v)"

record Batch =
  b_Columns :: "Column list"
  b_Rows :: "Row list"

record ReadResult =
  rr_RowsRead :: int
  rr_NewWatermark :: Watermark
  rr_WatermarkInit :: bool
  rr_StartedAt :: gtime
  rr_FinishedAt :: gtime

definition no_watermark :: Watermark where
  "no_watermark = \<lparr> wm_Type = [], wm_Value = [] \<rparr>"

definition new_ReadResult :: "gtime \<Rightarrow> ReadResult" where
  "new_ReadResult t = \<lparr> rr_RowsRead = 0, rr_NewWatermark = no_watermark, rr_WatermarkInit = False,
                        rr_StartedAt = t, rr_FinishedAt = zero_time \<rparr>"

section \<open>Telemetry points (telemetry.go)\<close>

record ModbusPoint =
  mp_CorrelationID :: string
  mp_TagName :: string
  mp_UnitID :: "8 word"
  mp_RegisterType :: string
  mp_Address :: "16 word"
  mp_Quantity :: "16 word"
  mp_DataType :: string
  mp_ByteOrder :: string
  mp_WordOrder :: string
  mp_Scale :: f64
  mp_Offset :: f64

record OPCUAPoint =
  op_TagName :: string
  op_NodeID :: string
  op_Scale :: f64
  op_Offset :: f64

record TelemetryCatalog =
  tc_ListModbusTags :: "int \<Rightarrow> ModbusPoint list res"
  tc_ListOPCUANodes :: "int \<Rightarrow> OPCUAPoint list res"

section \<open>Sources (source.go)\<close>

record SourceConfig =
  sc_SourceID :: int
  sc_SourceType :: string
  sc_Name :: string
  sc_Params :: strmap
  sc_Telemetry :: "TelemetryCatalog option"

record LoadConfig =
  lc_LoadID :: int
  lc_Name :: string
  lc_ObjectName :: string
  lc_Mode :: string
  lc_WatermarkColumn :: string
  lc_WatermarkType :: string
  lc_LastWatermark :: Watermark
  lc_BatchSize :: int

text \<open>A batch handler works on the state of its caller, of type \<open>'x\<close>.\<close>

type_synonym 'x BatchHandler = "Batch \<Rightarrow> ('x, unit) act"

text \<open>
  What \<^verbatim>\<open>Read\<close> returns: the result and the error, both (Go returns the result also when there is
  an error), the state of the source's connections and the handler's state.
\<close>

type_synonym ('w, 'x) ReadFn =
  "LoadConfig \<Rightarrow> 'x BatchHandler \<Rightarrow> 'w \<Rightarrow> 'x \<Rightarrow> (ReadResult \<times> gerr option) \<times> 'w \<times> 'x"

text \<open>A source: the object behind the interface value, by a number, and its methods.\<close>

record ('w, 'x) Source =
  src_obj :: nat
  src_Kind :: string
  src_Open :: "('w, unit) act"
  src_Ping :: "('w, unit) act"
  src_Read :: "('w, 'x) ReadFn"
  src_Close :: "('w, unit) act"

text \<open>A factory makes a new object, so it is an action too.\<close>

type_synonym ('w, 'x) SourceFactory = "SourceConfig \<Rightarrow> ('w, ('w, 'x) Source) act"

subsection \<open>The contract of Read\<close>

text \<open>
  The handler applied to a list of batches, stopping at the first error: what a source may do
  with the handler it is given.
\<close>

fun feed :: "'x BatchHandler \<Rightarrow> Batch list \<Rightarrow> ('x, unit) act" where
  "feed h [] x = (Inr (), x)"
| "feed h (b # bs) x =
     (case h b x of (Inl e, x') \<Rightarrow> (Inl e, x') | (Inr _, x') \<Rightarrow> feed h bs x')"

lemma feed_append: "feed h (as @ bs) = bindA (feed h as) (\<lambda>_. feed h bs)"
proof
  fix x
  show "feed h (as @ bs) x = bindA (feed h as) (\<lambda>_. feed h bs) x"
    by (induction as arbitrary: x) (auto simp: bindA_def split: prod.splits sum.splits)
qed

lemma feed_invariant:
  assumes "feed h bs x = (r, x')" and "I x"
    and "\<And>b x r x'. b \<in> set bs \<Longrightarrow> I x \<Longrightarrow> h b x = (r, x') \<Longrightarrow> I x'"
  shows "I x'"
  using assms
proof (induction bs arbitrary: x)
  case (Cons b bs)
  obtain r1 x1 where h: "h b x = (r1, x1)" by fastforce
  then have I1: "I x1"
    using Cons.prems(2,3) by auto
  show ?case
  proof (cases r1)
    case Inl
    then show ?thesis
      using Cons.prems(1) h I1 by simp
  next
    case Inr
    then have "feed h bs x1 = (r, x')"
      using Cons.prems(1) h by simp
    then show ?thesis
      using I1 by (rule Cons.IH) (use Cons.prems(3) in auto)
  qed
qed simp

text \<open>
  The contract of \<^verbatim>\<open>Source.Read\<close>: it hands the batches that the source \<open>offers\<close> to the handler, one after
  the other; when the handler fails it stops and returns the handler's error. So a read that returns
  no error has had every offered batch accepted. The client lemmas: whatever the handler keeps, \<^verbatim>\<open>Read\<close>
  keeps, and what a run of the handler establishes holds after a read without error.
\<close>

locale source_reader =
  fixes Read :: "('w, 'x) ReadFn"
    and offers :: "LoadConfig \<Rightarrow> 'w \<Rightarrow> Batch list"
  assumes feeds: "Read L h w x = ((rr, err), w', x') \<Longrightarrow>
    \<exists>r. feed h (offers L w) x = (r, x') \<and> (\<forall>e. r = Inl e \<longrightarrow> err = Some e)"
begin

lemma read_invariant:
  assumes "Read L h w x = ((rr, err), w', x')" and "I x"
    and "\<And>b x r x'. I x \<Longrightarrow> h b x = (r, x') \<Longrightarrow> I x'"
  shows "I x'"
  using feeds [OF assms(1)] feed_invariant [of h _ x _ x' I] assms(2,3) by blast

lemma read_success:
  assumes "Read L h w x = ((rr, None), w', x')"
  shows "feed h (offers L w) x = (Inr (), x')"
proof -
  obtain r where r: "feed h (offers L w) x = (r, x')" "\<forall>e. r = Inl e \<longrightarrow> None = Some e"
    using feeds [OF assms] by blast
  then have "r = Inr ()"
    by (cases r) auto
  with r(1) show ?thesis by simp
qed

end

text \<open>A property of the list of batches handled so far, carried through a run of the handler.\<close>

lemma feed_accumulates:
  assumes "feed h bs x = (Inr (), x')" and "J done x"
    and "\<And>done b x x'. J done x \<Longrightarrow> h b x = (Inr (), x') \<Longrightarrow> J (done @ [b]) x'"
  shows "J (done @ bs) x'"
  using assms(1,2)
proof (induction bs arbitrary: x "done")
  case (Cons b bs)
  then obtain x1 where "h b x = (Inr (), x1)" and "feed h bs x1 = (Inr (), x')"
    by (auto split: prod.splits sum.splits)
  then show ?case
    using Cons.IH [of x1 "done @ [b]"] Cons.prems(2) assms(3) by simp
qed simp

lemma feed_prefix:
  assumes "feed h bs x = (r, x')" and "J done x"
    and "\<And>done b x x'. J done x \<Longrightarrow> h b x = (Inr (), x') \<Longrightarrow> J (done @ [b]) x'"
    and "\<And>done b x e x'. J done x \<Longrightarrow> h b x = (Inl e, x') \<Longrightarrow> J done x'"
  shows "\<exists>n. J (done @ take n bs) x' \<and> (r = Inr () \<longrightarrow> n = length bs)"
  using assms(1,2)
proof (induction bs arbitrary: x "done")
  case (Cons b bs)
  show ?case
  proof (cases "h b x")
    case (Pair q x1)
    show ?thesis
    proof (cases q)
      case (Inl e)
      then have "r \<noteq> Inr ()" "x' = x1"
        using Cons.prems(1) Pair by auto
      then show ?thesis
        using assms(4) [OF Cons.prems(2), of b e x1] Pair Inl by (intro exI [of _ 0]) simp
    next
      case (Inr u)
      then obtain n where "J ((done @ [b]) @ take n bs) x'" "r = Inr () \<longrightarrow> n = length bs"
        using Cons.IH [of x1 "done @ [b]"] Cons.prems assms(3) [OF Cons.prems(2), of b x1] Pair by auto
      then show ?thesis
        by (intro exI [of _ "Suc n"]) simp
    qed
  qed
qed auto

section \<open>Sinks (sink.go)\<close>

record TargetTable =
  tt_Schema :: string
  tt_Name :: string

lemma target_eta [simp]: "\<lparr> tt_Schema = tt_Schema t, tt_Name = tt_Name t \<rparr> = t"
  by (cases t) simp

record 'k AtomicReplacer =
  ar_BeginReplace :: "TargetTable \<Rightarrow> Column list \<Rightarrow> ('k, TargetTable) act"
  ar_CommitReplace :: "TargetTable \<Rightarrow> TargetTable \<Rightarrow> ('k, unit) act"
  ar_AbortReplace :: "TargetTable \<Rightarrow> ('k, unit) act"

text \<open>\<open>sk_Atomic\<close> is the outcome of the type assertion \<^verbatim>\<open>sink.(contracts.AtomicReplacer)\<close>.\<close>

record 'k Sink =
  sk_TableExists :: "TargetTable \<Rightarrow> ('k, bool) act"
  sk_EnsureTable :: "TargetTable \<Rightarrow> Column list \<Rightarrow> ('k, unit) act"
  sk_Truncate :: "TargetTable \<Rightarrow> ('k, unit) act"
  sk_WriteBatch :: "TargetTable \<Rightarrow> Batch \<Rightarrow> gtime \<Rightarrow> ('k, int) act"
  sk_Atomic :: "'k AtomicReplacer option"

text \<open>A stored row: the names and values of its columns, in the order they were written.\<close>

type_synonym srow = "(string \<times> gval) list"

subsection \<open>The contract of a sink with atomic replace\<close>

text \<open>
  What the pipeline relies on, stated on a view \<open>tables\<close> of the sink's state. \<open>stage t\<close> and \<open>aside t\<close>
  are the tables a replace of \<open>t\<close> uses beside it, and \<open>swappable\<close> holds of the targets a commit can
  swap. A failed call leaves the target as it was; a call touches no table but the three.
\<close>

locale atomic_sink =
  fixes K :: "'k Sink"
    and AR :: "'k AtomicReplacer"
    and tables :: "'k \<Rightarrow> TargetTable \<rightharpoonup> srow list"
    and batch_rows :: "Batch \<Rightarrow> gtime \<Rightarrow> srow list"
    and stage :: "TargetTable \<Rightarrow> TargetTable"
    and aside :: "TargetTable \<Rightarrow> TargetTable"
    and swappable :: "TargetTable \<Rightarrow> bool"
  assumes atomic: "sk_Atomic K = Some AR"
    and stage_neq: "stage t \<noteq> t"
    and exists_keeps: "sk_TableExists K t k = (re, k') \<Longrightarrow> tables k' = tables k"
    and exists_ok: "sk_TableExists K t k = (Inr ex, k') \<Longrightarrow> ex \<longleftrightarrow> tables k t \<noteq> None"
    and ensure_err: "sk_EnsureTable K t cs k = (Inl e, k') \<Longrightarrow> tables k' = tables k"
    and ensure_ok: "sk_EnsureTable K t cs k = (Inr v, k') \<Longrightarrow>
      tables k' = (if tables k t = None then (tables k)(t \<mapsto> []) else tables k)"
    and write_err: "sk_WriteBatch K t b ts k = (Inl e, k') \<Longrightarrow> tables k' = tables k"
    and write_ok: "sk_WriteBatch K t b ts k = (Inr n, k') \<Longrightarrow>
      n = int (length (b_Rows b)) \<and> (b_Rows b = [] \<longrightarrow> tables k' = tables k) \<and>
      (b_Rows b \<noteq> [] \<longrightarrow> (\<exists>rs. tables k t = Some rs \<and>
         tables k' = (tables k)(t \<mapsto> rs @ batch_rows b ts)))"
    and batch_rows_Nil: "b_Rows b = [] \<Longrightarrow> batch_rows b ts = []"
    and begin_ok: "ar_BeginReplace AR t cs k = (Inr stg, k') \<Longrightarrow>
      stg = stage t \<and> tables k' = (tables k)(stage t \<mapsto> [])"
    and begin_err: "ar_BeginReplace AR t cs k = (Inl e, k') \<Longrightarrow> u \<noteq> stage t \<Longrightarrow> tables k' u = tables k u"
    and commit_ok: "swappable t \<Longrightarrow> ar_CommitReplace AR t (stage t) k = (Inr v, k') \<Longrightarrow>
      tables k (stage t) \<noteq> None \<and> tables k' t = tables k (stage t)"
    and commit_err: "ar_CommitReplace AR t (stage t) k = (Inl e, k') \<Longrightarrow>
      tables k' t = tables k t \<and> tables k' (stage t) = tables k (stage t)"
    and commit_frame: "swappable t \<Longrightarrow> ar_CommitReplace AR t (stage t) k = (r, k') \<Longrightarrow>
      u \<noteq> t \<Longrightarrow> u \<noteq> stage t \<Longrightarrow> u \<noteq> aside t \<Longrightarrow> tables k' u = tables k u"
    and abort_keeps: "ar_AbortReplace AR (stage t) k = (r, k') \<Longrightarrow> u \<noteq> stage t \<Longrightarrow> tables k' u = tables k u"
begin

text \<open>The rows of a list of batches, in order.\<close>

lemma write_appends:
  assumes "sk_WriteBatch K t b ts k = (Inr n, k')" and "tables k t = Some rs"
  shows "tables k' = (tables k)(t \<mapsto> rs @ batch_rows b ts)"
  using write_ok [OF assms(1)] assms(2)
  by (cases "b_Rows b = []") (auto simp: batch_rows_Nil fun_upd_idem)

lemma write_frame:
  assumes "sk_WriteBatch K t b ts k = (r, k')" and "u \<noteq> t"
  shows "tables k' u = tables k u"
  using assms write_err [of t b ts k] write_ok [of t b ts k]
  by (cases r) (cases "b_Rows b = []"; auto)+

lemma begin_frame:
  assumes "ar_BeginReplace AR t cs k = (r, k')" and "u \<noteq> stage t"
  shows "tables k' u = tables k u"
  using assms begin_ok [of t cs k] begin_err [of t cs k] by (cases r) auto

end

end
