(* ===== verification/Tsql.thy ===== *)
theory Tsql
  imports Contracts
begin

text \<open>
  The SQL Server database the sink talks to, and the \<^verbatim>\<open>database/sql\<close> calls it makes. The driver and
  the server are not part of the repository: they are the parameter \<open>D\<close> of the sink's operations,
  a record of the calls, and the documented behaviour the sink relies on is the locale
  \<open>mssql_server\<close>. Its laws speak of the text of a statement: \<open>parse_tsql\<close> reads the statements the
  sink sends with the T-SQL rule for bracketed names, and \<open>exec_tsql\<close> says what each does to the
  tables. Names are compared exactly, and no other session changes the tables meanwhile.
\<close>

section \<open>Statements\<close>

type_synonym tabs = "TargetTable \<rightharpoonup> srow list"

text \<open>Arguments of a statement: a name for \<^verbatim>\<open>sql.Named\<close>, the empty name for a positional one.\<close>

type_synonym sqlargs = "(string \<times> gval) list"

datatype tsql = DropTable bool TargetTable | TruncateTable TargetTable | CreateTable TargetTable
  | CloneInto TargetTable TargetTable | RenameObj string string

definition two_part :: "string \<Rightarrow> (TargetTable \<times> string) option" where
  "two_part s =
     (case lex_delim CHR ''['' CHR '']'' s of
        Some (a, c # t) \<Rightarrow>
          if c = CHR ''.'' then
            map_option (\<lambda>(b, r). (\<lparr> tt_Schema = a, tt_Name = b \<rparr>, r)) (lex_delim CHR ''['' CHR '']'' t)
          else None
      | _ \<Rightarrow> None)"

definition whole_name :: "(TargetTable \<Rightarrow> tsql) \<Rightarrow> string \<Rightarrow> tsql option" where
  "whole_name f s = (case two_part s of Some (t, []) \<Rightarrow> Some (f t) | _ \<Rightarrow> None)"

definition parse_tsql :: "string \<Rightarrow> sqlargs \<Rightarrow> tsql option" where
  "parse_tsql s args =
     (if HasPrefix s ''DROP TABLE IF EXISTS '' then
        whole_name (DropTable True) (TrimPrefix s ''DROP TABLE IF EXISTS '')
      else if HasPrefix s ''DROP TABLE '' then
        whole_name (DropTable False) (TrimPrefix s ''DROP TABLE '')
      else if HasPrefix s ''TRUNCATE TABLE '' then
        whole_name TruncateTable (TrimPrefix s ''TRUNCATE TABLE '')
      else if HasPrefix s ''CREATE TABLE '' then
        (case two_part (TrimPrefix s ''CREATE TABLE '') of
           Some (t, r) \<Rightarrow> if HasPrefix r '' ('' then Some (CreateTable t) else None
         | None \<Rightarrow> None)
      else if HasPrefix s ''SELECT * INTO '' then
        (case two_part (TrimPrefix s ''SELECT * INTO '') of
           Some (t, r) \<Rightarrow>
             if HasPrefix r '' FROM '' then
               (case two_part (TrimPrefix r '' FROM '') of
                  Some (u, w) \<Rightarrow> if w = '' WHERE 1 = 0'' then Some (CloneInto t u) else None
                | None \<Rightarrow> None)
             else None
         | None \<Rightarrow> None)
      else if s = ''EXEC sp_rename @objname, @newname;'' then
        (case args of
           [(a, VString obj), (b, VString new)] \<Rightarrow>
             if a = ''objname'' \<and> b = ''newname'' then Some (RenameObj obj new) else None
         | _ \<Rightarrow> None)
      else None)"

text \<open>
  \<^verbatim>\<open>sp_rename\<close> reads its object name itself: a plain \<open>schema.name\<close> without further dots or brackets is
  the case that is specified here.
\<close>

definition plain_obj :: "string \<Rightarrow> bool" where
  "plain_obj obj \<longleftrightarrow> length (split_on CHR ''.'' obj) = 2 \<and>
     CHR ''['' \<notin> set obj \<and> CHR '']'' \<notin> set obj \<and> CHR 0x22 \<notin> set obj"

fun specified :: "tsql \<Rightarrow> bool" where
  "specified (RenameObj obj new) = plain_obj obj"
| "specified _ = True"

text \<open>What a statement that succeeds does to the tables; \<^term>\<open>None\<close> when it is refused.\<close>

fun exec_tsql :: "tsql \<Rightarrow> tabs \<Rightarrow> tabs option" where
  "exec_tsql (DropTable lax t) T = (if lax \<or> T t \<noteq> None then Some (T(t := None)) else None)"
| "exec_tsql (TruncateTable t) T = (if T t \<noteq> None then Some (T(t \<mapsto> [])) else None)"
| "exec_tsql (CreateTable t) T = (if T t = None then Some (T(t \<mapsto> [])) else None)"
| "exec_tsql (CloneInto t u) T = (if T t = None \<and> T u \<noteq> None then Some (T(t \<mapsto> [])) else None)"
| "exec_tsql (RenameObj obj new) T =
     (case split_on CHR ''.'' obj of
        [s, n] \<Rightarrow>
          let from = \<lparr> tt_Schema = s, tt_Name = n \<rparr>; to = \<lparr> tt_Schema = s, tt_Name = new \<rparr> in
          (case T from of
             Some rows \<Rightarrow> if T to = None then Some (T(from := None, to \<mapsto> rows)) else None
           | None \<Rightarrow> None)
      | _ \<Rightarrow> None)"

text \<open>A successful run of a statement text on the tables.\<close>

definition runs_as :: "string \<Rightarrow> sqlargs \<Rightarrow> tabs \<Rightarrow> tabs \<Rightarrow> bool" where
  "runs_as s args T T' =
     (case parse_tsql s args of
        Some st \<Rightarrow> specified st \<longrightarrow> exec_tsql st T = Some T'
      | None \<Rightarrow> True)"

lemma two_part_QuoteMSSQL:
  assumes "Validate U a = Inr x" and "Validate U b = Inr y" and "rest = [] \<or> hd rest \<noteq> CHR '']''"
  shows "two_part (QuoteMSSQL a @ ''.'' @ QuoteMSSQL b @ rest) = Some (\<lparr> tt_Schema = a, tt_Name = b \<rparr>, rest)"
  using lex_QuoteMSSQL [of "''.'' @ QuoteMSSQL b @ rest" a] lex_QuoteMSSQL [OF assms(3), of b]
    Validate_Trim [OF assms(1)] Validate_Trim [OF assms(2)]
  by (simp add: two_part_def)

section \<open>The driver\<close>

record 'd sql_db =
  db_Conn :: "('d, unit) act"
  db_ConnClose :: "'d \<Rightarrow> 'd"
  db_ExecContext :: "string \<Rightarrow> sqlargs \<Rightarrow> ('d, unit) act"
  db_QueryInt :: "string \<Rightarrow> sqlargs \<Rightarrow> ('d, int) act"
  db_BeginTx :: "('d, unit) act"
  tx_ExecContext :: "string \<Rightarrow> sqlargs \<Rightarrow> ('d, unit) act"
  tx_Commit :: "('d, unit) act"
  tx_Rollback :: "('d, unit) act"
  db_HasBulk :: bool
  db_CreateBulk :: "string \<Rightarrow> string list \<Rightarrow> 'd \<Rightarrow> 'd"
  bulk_AddRow :: "gval list \<Rightarrow> ('d, unit) act"
  bulk_Done :: "('d, unit) act"
  uid_Scan :: "string \<Rightarrow> string res"

definition table_count_query :: string where
  "table_count_query =
     [CHR 0x0A, CHR 0x09, CHR 0x09] @ ''SELECT COUNT(*) FROM INFORMATION_SCHEMA.TABLES'' @
     [CHR 0x0A, CHR 0x09, CHR 0x09] @ ''WHERE TABLE_SCHEMA = @p1 AND TABLE_NAME = @p2'' @
     [CHR 0x0A, CHR 0x09]"

text \<open>
  \<open>committed\<close> is what every session sees, \<open>intx\<close> what the open transaction sees, \<open>bulk\<close> the rows a bulk
  copy holds back until \<^verbatim>\<open>Done\<close>. A call that returns an error has changed nothing; an error from
  \<^verbatim>\<open>Commit\<close> means the transaction was not committed.
\<close>

locale mssql_server =
  fixes D :: "'d sql_db"
    and committed :: "'d \<Rightarrow> tabs"
    and intx :: "'d \<Rightarrow> tabs"
    and bulk :: "'d \<Rightarrow> string \<times> string list \<times> gval list list"
  assumes conn: "db_Conn D d = (r, d') \<Longrightarrow> committed d' = committed d"
    and conn_close: "committed (db_ConnClose D d) = committed d"
    and exec_err: "db_ExecContext D s a d = (Inl e, d') \<Longrightarrow> committed d' = committed d"
    and exec_ok: "db_ExecContext D s a d = (Inr (), d') \<Longrightarrow> runs_as s a (committed d) (committed d')"
    and query: "db_QueryInt D s a d = (ri, d') \<Longrightarrow> committed d' = committed d"
    and query_count: "db_QueryInt D table_count_query [([], VString sch), ([], VString n)] d = (Inr c, d') \<Longrightarrow>
      0 < c \<longleftrightarrow> committed d \<lparr> tt_Schema = sch, tt_Name = n \<rparr> \<noteq> None"
    and begin_tx: "db_BeginTx D d = (r, d') \<Longrightarrow> committed d' = committed d"
    and begin_tx_ok: "db_BeginTx D d = (Inr (), d') \<Longrightarrow> intx d' = committed d"
    and tx_exec: "tx_ExecContext D s a d = (r, d') \<Longrightarrow> committed d' = committed d"
    and tx_exec_ok: "tx_ExecContext D s a d = (Inr (), d') \<Longrightarrow> runs_as s a (intx d) (intx d')"
    and tx_commit_err: "tx_Commit D d = (Inl e, d') \<Longrightarrow> committed d' = committed d"
    and tx_commit_ok: "tx_Commit D d = (Inr (), d') \<Longrightarrow> committed d' = intx d"
    and tx_rollback: "tx_Rollback D d = (r, d') \<Longrightarrow> committed d' = committed d"
    and create_bulk: "committed (db_CreateBulk D t cs d) = committed d"
      "bulk (db_CreateBulk D t cs d) = (t, cs, [])"
    and add_row: "bulk_AddRow D vs d = (r, d') \<Longrightarrow> committed d' = committed d"
    and add_row_ok: "bulk_AddRow D vs d = (Inr (), d') \<Longrightarrow> bulk d = (t, cs, rows) \<Longrightarrow>
      bulk d' = (t, cs, rows @ [vs])"
    and bulk_done_err: "bulk_Done D d = (Inl e, d') \<Longrightarrow> committed d' = committed d"
    and bulk_done_ok: "bulk_Done D d = (Inr (), d') \<Longrightarrow> bulk d = (t, cs, rows) \<Longrightarrow>
      two_part t = Some (tbl, []) \<Longrightarrow>
      \<exists>rs. committed d tbl = Some rs \<and> committed d' = (committed d)(tbl \<mapsto> rs @ map (zip cs) rows)"

section \<open>A server in memory\<close>

text \<open>
  A server that runs exactly these statements on tables held in memory, with a script of faults: the
  next entry says whether the next call fails. It satisfies the contract.
\<close>

record memdb =
  md_tables :: tabs
  md_tx :: tabs
  md_bulk :: "string \<times> string list \<times> gval list list"
  md_faults :: "bool list"

definition mem_call :: "(memdb \<Rightarrow> 'a res \<times> memdb) \<Rightarrow> (memdb, 'a) act" where
  "mem_call f m =
     (case md_faults m of
        [] \<Rightarrow> f m
      | b # bs \<Rightarrow> if b then (Inl (ErrExt ''connection lost''), m\<lparr>md_faults := bs\<rparr>)
                  else f (m\<lparr>md_faults := bs\<rparr>))"

definition run_text :: "string \<Rightarrow> sqlargs \<Rightarrow> tabs \<Rightarrow> tabs res" where
  "run_text s a T =
     (case parse_tsql s a of
        None \<Rightarrow> Inl (ErrExt ''syntax'')
      | Some st \<Rightarrow> (case exec_tsql st T of None \<Rightarrow> Inl (ErrExt ''refused'') | Some T' \<Rightarrow> Inr T'))"

definition mem_exec :: "string \<Rightarrow> sqlargs \<Rightarrow> (memdb, unit) act" where
  "mem_exec s a = mem_call (\<lambda>m. case run_text s a (md_tables m) of
     Inl e \<Rightarrow> (Inl e, m) | Inr T \<Rightarrow> (Inr (), m\<lparr>md_tables := T\<rparr>))"

definition mem_tx_exec :: "string \<Rightarrow> sqlargs \<Rightarrow> (memdb, unit) act" where
  "mem_tx_exec s a = mem_call (\<lambda>m. case run_text s a (md_tx m) of
     Inl e \<Rightarrow> (Inl e, m) | Inr T \<Rightarrow> (Inr (), m\<lparr>md_tx := T\<rparr>))"

fun mem_count :: "sqlargs \<Rightarrow> tabs \<Rightarrow> int res" where
  "mem_count [(_, VString sch), (_, VString n)] T =
     Inr (if T \<lparr> tt_Schema = sch, tt_Name = n \<rparr> = None then 0 else 1)"
| "mem_count _ T = Inl (ErrExt ''arguments'')"

definition mem_query :: "string \<Rightarrow> sqlargs \<Rightarrow> (memdb, int) act" where
  "mem_query s a = mem_call (\<lambda>m. (if s = table_count_query then mem_count a (md_tables m)
                                  else Inl (ErrExt ''syntax''), m))"

definition mem_done :: "(memdb, unit) act" where
  "mem_done = mem_call (\<lambda>m. case md_bulk m of (t, cs, rows) \<Rightarrow>
     (case two_part t of
        Some (tbl, []) \<Rightarrow>
          (case md_tables m tbl of
             Some rs \<Rightarrow> (Inr (), m\<lparr>md_tables := (md_tables m)(tbl \<mapsto> rs @ map (zip cs) rows)\<rparr>)
           | None \<Rightarrow> (Inl (ErrExt ''no such table''), m))
      | _ \<Rightarrow> (Inl (ErrExt ''bad table name''), m)))"

definition MemDB :: "memdb sql_db" where
  "MemDB = \<lparr> db_Conn = mem_call (\<lambda>m. (Inr (), m)), db_ConnClose = (\<lambda>m. m),
     db_ExecContext = mem_exec, db_QueryInt = mem_query,
     db_BeginTx = mem_call (\<lambda>m. (Inr (), m\<lparr>md_tx := md_tables m\<rparr>)),
     tx_ExecContext = mem_tx_exec,
     tx_Commit = mem_call (\<lambda>m. (Inr (), m\<lparr>md_tables := md_tx m\<rparr>)),
     tx_Rollback = (\<lambda>m. (Inr (), m)),
     db_HasBulk = True,
     db_CreateBulk = (\<lambda>t cs m. m\<lparr>md_bulk := (t, cs, [])\<rparr>),
     bulk_AddRow = (\<lambda>vs. mem_call (\<lambda>m. case md_bulk m of (t, cs, rows) \<Rightarrow>
                       (Inr (), m\<lparr>md_bulk := (t, cs, rows @ [vs])\<rparr>))),
     bulk_Done = mem_done,
     uid_Scan = (\<lambda>s. if length s = 16 then Inr s else Inl (ErrExt ''bad guid'')) \<rparr>"

lemma run_text_runs_as: "run_text s a T = Inr T' \<Longrightarrow> runs_as s a T T'"
  by (auto simp: run_text_def runs_as_def split: option.splits)

lemmas mem_defs = MemDB_def mem_call_def mem_exec_def mem_tx_exec_def mem_query_def mem_done_def

interpretation memdb: mssql_server MemDB md_tables md_tx md_bulk
  by unfold_locales
     (auto simp: mem_defs dest: run_text_runs_as
       split: list.splits option.splits sum.splits prod.splits if_splits)

end
