(* ===== verification/Sink.thy ===== *)
theory Sink
  imports Tsql
begin

text \<open>
  \<^verbatim>\<open>internal/sink\<close>: the SQL Server sink, with the statements it sends as text, and its atomic replace
  through a staging table. The sublocale at the end shows that, on any server that behaves as
  \<open>mssql_server\<close> says, it is a sink in the sense of \<open>atomic_sink\<close>.
\<close>

section \<open>Tables and batches (mssql.go)\<close>

definition LoadTimestampColumn :: string where
  "LoadTimestampColumn = ''yb_load_timestamp''"

definition validateTarget :: "unicode_tabs \<Rightarrow> TargetTable \<Rightarrow> unit res" where
  "validateTarget U target =
     bind_res (wrap_res (wrapf ''target schema'') (Validate U (tt_Schema target))) (\<lambda>_.
     wrap_res (wrapf ''target table'') (Validate U (tt_Name target)))"

definition tableExists :: "'d sql_db \<Rightarrow> TargetTable \<Rightarrow> ('d, bool) act" where
  "tableExists D t =
     bindA (db_QueryInt D table_count_query [([], VString (tt_Schema t)), ([], VString (tt_Name t))]) (\<lambda>n.
     retA (n > 0))"

definition TableExists :: "unicode_tabs \<Rightarrow> 'd sql_db \<Rightarrow> TargetTable \<Rightarrow> ('d, bool) act" where
  "TableExists U D target = bindA (liftA (validateTarget U target)) (\<lambda>_. tableExists D target)"

definition mapToSQLType :: "string \<Rightarrow> string" where
  "mapToSQLType canonical =
     (let c = ToLower canonical in
      if c = ''string'' then ''nvarchar(max)'' else if c = ''int32'' then ''int''
      else if c = ''int64'' then ''bigint'' else if c = ''float32'' then ''real''
      else if c = ''float64'' then ''float'' else if c = ''bool'' then ''bit''
      else if c = ''datetime'' then ''datetime2'' else if c = ''bytes'' then ''varbinary(max)''
      else if c = ''decimal'' then ''decimal(38,10)'' else if c = ''guid'' then ''uniqueidentifier''
      else ''nvarchar(max)'')"

definition nullability :: "bool \<Rightarrow> string" where
  "nullability nullable = (if nullable then ''NULL'' else ''NOT NULL'')"

fun column_defs :: "unicode_tabs \<Rightarrow> Column list \<Rightarrow> string list res" where
  "column_defs U [] = Inr []"
| "column_defs U (c # cs) =
     bind_res (wrap_res (wrapf ''column name'') (Validate U (c_Name c))) (\<lambda>_.
     bind_res (column_defs U cs) (\<lambda>ds.
     Inr ((QuoteMSSQL (c_Name c) @ '' '' @ mapToSQLType (c_DataType c) @ '' '' @ nullability (c_Nullable c)) # ds)))"

definition quoted_target :: "TargetTable \<Rightarrow> string" where
  "quoted_target t = QuoteMSSQL (tt_Schema t) @ ''.'' @ QuoteMSSQL (tt_Name t)"

definition create_stmt :: "TargetTable \<Rightarrow> string list \<Rightarrow> string" where
  "create_stmt target cols =
     ''CREATE TABLE '' @ quoted_target target @ '' ('' @ [CHR 0x0A] @ ''  '' @
     Join cols ('','' @ [CHR 0x0A] @ ''  '') @ [CHR 0x0A] @ '');''"

definition EnsureTable :: "unicode_tabs \<Rightarrow> 'd sql_db \<Rightarrow> TargetTable \<Rightarrow> Column list \<Rightarrow> ('d, unit) act" where
  "EnsureTable U D target columns =
     bindA (liftA (validateTarget U target)) (\<lambda>_.
     bindA (tableExists D target) (\<lambda>exists.
     if exists then retA ()
     else
       bindA (liftA (column_defs U columns)) (\<lambda>cols.
       db_ExecContext D
         (create_stmt target (cols @ [QuoteMSSQL LoadTimestampColumn @ '' datetime2 NOT NULL''])) [])))"

definition Truncate :: "unicode_tabs \<Rightarrow> 'd sql_db \<Rightarrow> TargetTable \<Rightarrow> ('d, unit) act" where
  "Truncate U D target =
     bindA (liftA (validateTarget U target)) (\<lambda>_.
     db_ExecContext D (''TRUNCATE TABLE '' @ quoted_target target) [])"

text \<open>The name that \<^verbatim>\<open>%T\<close> prints.\<close>

fun type_name :: "gval \<Rightarrow> string" where
  "type_name VNil = ''<nil>''"
| "type_name (VBool _) = ''bool''"
| "type_name (VString _) = ''string''"
| "type_name (VBytes _) = ''[]uint8''"
| "type_name (VInt k _) = (case k of I8 \<Rightarrow> ''int8'' | I16 \<Rightarrow> ''int16'' | I32 \<Rightarrow> ''int32'' | I64 \<Rightarrow> ''int64''
                            | U8 \<Rightarrow> ''uint8'' | U16 \<Rightarrow> ''uint16'' | U32 \<Rightarrow> ''uint32'' | U64 \<Rightarrow> ''uint64'')"
| "type_name (VFloat32 _) = ''float32''"
| "type_name (VFloat64 _) = ''float64''"
| "type_name (VTime _) = ''time.Time''"
| "type_name (VGuid _) = ''mssql.UniqueIdentifier''"
| "type_name (VArr16 _) = ''[16]uint8''"
| "type_name (VOther ty _) = ty"

definition scan_guid :: "'d sql_db \<Rightarrow> string \<Rightarrow> gval res" where
  "scan_guid D x =
     bind_res (wrap_res (\<lambda>e. Errorf ''parse guid %q: %w'' [AStr x, AErr e]) (uid_Scan D x)) (\<lambda>g. Inr (VGuid g))"

fun toGUID :: "'d sql_db \<Rightarrow> gval \<Rightarrow> gval res" where
  "toGUID D VNil = Inr VNil"
| "toGUID D (VGuid x) = Inr (VGuid x)"
| "toGUID D (VArr16 x) = Inr (VGuid x)"
| "toGUID D (VString x) = scan_guid D x"
| "toGUID D (VBytes x) = (if length x = 16 then Inr (VGuid x) else scan_guid D x)"
| "toGUID D v = Inl (Errorf ''unsupported type %T for guid column'' [AStr (type_name v)])"

definition prepareValue :: "'d sql_db \<Rightarrow> Column \<Rightarrow> gval \<Rightarrow> gval res" where
  "prepareValue D c v = (if c_DataType c = ''guid'' then toGUID D v else Inr v)"

fun column_names :: "unicode_tabs \<Rightarrow> Column list \<Rightarrow> string list res" where
  "column_names U [] = Inr [LoadTimestampColumn]"
| "column_names U (c # cs) =
     bind_res (wrap_res (wrapf ''column name'') (Validate U (c_Name c))) (\<lambda>_.
     bind_res (column_names U cs) (\<lambda>ns. Inr (c_Name c # ns)))"

fun row_values :: "'d sql_db \<Rightarrow> Column list \<Rightarrow> Row \<Rightarrow> gtime \<Rightarrow> gval list res" where
  "row_values D [] row loadTS = Inr [VTime loadTS]"
| "row_values D (c # cs) row loadTS =
     bind_res (wrap_res (\<lambda>e. Errorf ''column %q: %w'' [AStr (c_Name c), AErr e])
                 (prepareValue D c (row_get row (c_Name c)))) (\<lambda>pv.
     bind_res (row_values D cs row loadTS) (\<lambda>vals. Inr (pv # vals)))"

fun add_rows :: "'d sql_db \<Rightarrow> Column list \<Rightarrow> gtime \<Rightarrow> Row list \<Rightarrow> int \<Rightarrow> ('d, int) act" where
  "add_rows D cs loadTS [] rowsWritten = retA rowsWritten"
| "add_rows D cs loadTS (row # rows) rowsWritten =
     bindA (liftA (row_values D cs row loadTS)) (\<lambda>vals.
     bindA (bulk_AddRow D vals) (\<lambda>_.
     add_rows D cs loadTS rows (rowsWritten + 1)))"

definition bulk_copy :: "'d sql_db \<Rightarrow> string \<Rightarrow> string list \<Rightarrow> Batch \<Rightarrow> gtime \<Rightarrow> ('d, int) act" where
  "bulk_copy D fullName colNames batch loadTS d =
     (if \<not> db_HasBulk D then failA (Errorf ''driver does not support bulk copy'' []) d
      else bindA (add_rows D (b_Columns batch) loadTS (b_Rows batch) 0) (\<lambda>rowsWritten.
           bindA (bulk_Done D) (\<lambda>_. retA rowsWritten)) (db_CreateBulk D fullName colNames d))"

definition WriteBatch :: "unicode_tabs \<Rightarrow> 'd sql_db \<Rightarrow> TargetTable \<Rightarrow> Batch \<Rightarrow> gtime \<Rightarrow> ('d, int) act" where
  "WriteBatch U D target batch loadTS =
     (if b_Rows batch = [] then retA 0
      else bindA (db_Conn D) (\<lambda>_ d.
        case bindA (liftA (validateTarget U target)) (\<lambda>_.
             bindA (liftA (column_names U (b_Columns batch))) (\<lambda>colNames.
             bulk_copy D (quoted_target target) colNames batch loadTS)) d of
          (r, d') \<Rightarrow> (r, db_ConnClose D d')))"

section \<open>Atomic replace (replace.go)\<close>

definition stagingSuffix :: string where "stagingSuffix = ''_stg''"
definition oldSuffix :: string where "oldSuffix = ''_old''"

definition stagingTarget :: "unicode_tabs \<Rightarrow> TargetTable \<Rightarrow> TargetTable res" where
  "stagingTarget U t =
     (let name = tt_Name t @ stagingSuffix in
      bind_res (wrap_res (wrapf ''staging table name'') (Validate U name)) (\<lambda>_.
      Inr \<lparr> tt_Schema = tt_Schema t, tt_Name = name \<rparr>))"

definition oldTarget :: "unicode_tabs \<Rightarrow> TargetTable \<Rightarrow> TargetTable res" where
  "oldTarget U t =
     (let name = tt_Name t @ oldSuffix in
      bind_res (wrap_res (wrapf ''old table name'') (Validate U name)) (\<lambda>_.
      Inr \<lparr> tt_Schema = tt_Schema t, tt_Name = name \<rparr>))"

definition dropTableIfExists :: "'d sql_db \<Rightarrow> TargetTable \<Rightarrow> ('d, unit) act" where
  "dropTableIfExists D t = db_ExecContext D (''DROP TABLE IF EXISTS '' @ quoted_target t) []"

definition renameInTx :: "unicode_tabs \<Rightarrow> 'd sql_db \<Rightarrow> TargetTable \<Rightarrow> string \<Rightarrow> ('d, unit) act" where
  "renameInTx U D from newName =
     bindA (liftA (wrap_res (wrapf ''rename target'') (Validate U newName))) (\<lambda>_.
     let obj = tt_Schema from @ ''.'' @ tt_Name from in
     wrapA (\<lambda>e. Errorf ''sp_rename %s -> %s: %w'' [AStr obj, AStr newName, AErr e])
       (tx_ExecContext D ''EXEC sp_rename @objname, @newname;''
          [(''objname'', VString obj), (''newname'', VString newName)]))"

text \<open>A transaction with \<^verbatim>\<open>defer tx.Rollback()\<close>: the rollback runs on every exit and its result is dropped.\<close>

definition in_tx :: "'d sql_db \<Rightarrow> ('d, unit) act \<Rightarrow> ('d, unit) act" where
  "in_tx D body =
     bindA (db_BeginTx D) (\<lambda>_ d.
       case bindA body (\<lambda>_. tx_Commit D) d of (r, d') \<Rightarrow> (r, snd (tx_Rollback D d')))"

definition renameTable :: "unicode_tabs \<Rightarrow> 'd sql_db \<Rightarrow> TargetTable \<Rightarrow> string \<Rightarrow> ('d, unit) act" where
  "renameTable U D from newName = in_tx D (renameInTx U D from newName)"

definition BeginReplace :: "unicode_tabs \<Rightarrow> 'd sql_db \<Rightarrow> TargetTable \<Rightarrow> Column list \<Rightarrow> ('d, TargetTable) act" where
  "BeginReplace U D target columns =
     bindA (liftA (validateTarget U target)) (\<lambda>_.
     bindA (liftA (stagingTarget U target)) (\<lambda>staging.
     bindA (wrapA (wrapf ''drop staging'') (dropTableIfExists D staging)) (\<lambda>_.
     bindA (tableExists D target) (\<lambda>liveExists.
     if liveExists then
       bindA (wrapA (wrapf ''clone staging schema'')
         (db_ExecContext D (''SELECT * INTO '' @ quoted_target staging @ '' FROM '' @ quoted_target target @
                            '' WHERE 1 = 0'') [])) (\<lambda>_.
       retA staging)
     else if columns = [] then
       failA (Errorf ''begin replace: columns required when target %s.%s does not exist''
                [AStr (tt_Schema target), AStr (tt_Name target)])
     else
       bindA (wrapA (wrapf ''create staging'') (EnsureTable U D staging columns)) (\<lambda>_.
       retA staging)))))"

text \<open>The statements of the swap, between \<^verbatim>\<open>BeginTx\<close> and \<^verbatim>\<open>Commit\<close>.\<close>

definition swap_tx :: "unicode_tabs \<Rightarrow> 'd sql_db \<Rightarrow> TargetTable \<Rightarrow> TargetTable \<Rightarrow> TargetTable \<Rightarrow> ('d, unit) act" where
  "swap_tx U D target staging old =
     bindA (renameInTx U D target (tt_Name old)) (\<lambda>_.
     bindA (renameInTx U D staging (tt_Name target)) (\<lambda>_.
     wrapA (wrapf ''drop old table'') (tx_ExecContext D (''DROP TABLE '' @ quoted_target old) [])))"

definition CommitReplace :: "unicode_tabs \<Rightarrow> 'd sql_db \<Rightarrow> TargetTable \<Rightarrow> TargetTable \<Rightarrow> ('d, unit) act" where
  "CommitReplace U D target staging =
     bindA (liftA (validateTarget U target)) (\<lambda>_.
     bindA (liftA (validateTarget U staging)) (\<lambda>_.
     bindA (tableExists D target) (\<lambda>liveExists.
     bindA (tableExists D staging) (\<lambda>stgExists.
     if \<not> stgExists then
       failA (Errorf ''commit replace: staging %s.%s does not exist''
                [AStr (tt_Schema staging), AStr (tt_Name staging)])
     else if \<not> liveExists then renameTable U D staging (tt_Name target)
     else
       bindA (liftA (oldTarget U target)) (\<lambda>old.
       bindA (wrapA (wrapf ''drop previous old table'') (dropTableIfExists D old)) (\<lambda>_.
       in_tx D (swap_tx U D target staging old)))))))"

definition AbortReplace :: "unicode_tabs \<Rightarrow> 'd sql_db \<Rightarrow> TargetTable \<Rightarrow> ('d, unit) act" where
  "AbortReplace U D staging =
     bindA (liftA (validateTarget U staging)) (\<lambda>_. dropTableIfExists D staging)"

text \<open>\<^verbatim>\<open>*MSSQLSink\<close> as a \<^verbatim>\<open>contracts.Sink\<close> that is a \<^verbatim>\<open>contracts.AtomicReplacer\<close>.\<close>

definition mssql_replacer :: "unicode_tabs \<Rightarrow> 'd sql_db \<Rightarrow> 'd AtomicReplacer" where
  "mssql_replacer U D = \<lparr> ar_BeginReplace = BeginReplace U D, ar_CommitReplace = CommitReplace U D,
                          ar_AbortReplace = AbortReplace U D \<rparr>"

definition MSSQLSink :: "unicode_tabs \<Rightarrow> 'd sql_db \<Rightarrow> 'd Sink" where
  "MSSQLSink U D = \<lparr> sk_TableExists = TableExists U D, sk_EnsureTable = EnsureTable U D,
                     sk_Truncate = Truncate U D, sk_WriteBatch = WriteBatch U D,
                     sk_Atomic = Some (mssql_replacer U D) \<rparr>"

section \<open>The statements read back\<close>

lemma validateTarget_Inr:
  "validateTarget U t = Inr u \<longleftrightarrow> Validate U (tt_Schema t) = Inr () \<and> Validate U (tt_Name t) = Inr ()"
  by (auto simp: validateTarget_def bind_res_Inr_iff)

lemma quoted_target_Cons: "\<exists>s. quoted_target t = CHR ''['' # s"
  by (simp add: quoted_target_def QuoteMSSQL_def Let_def)

lemma two_part_target:
  assumes "validateTarget U t = Inr u" and "rest = [] \<or> hd rest \<noteq> CHR '']''"
  shows "two_part (quoted_target t @ rest) = Some (t, rest)"
  using two_part_QuoteMSSQL [of U "tt_Schema t" "()" "tt_Name t" "()" rest] assms
  by (simp add: quoted_target_def validateTarget_Inr)

lemmas two_part_target0 = two_part_target [where rest = "[]", simplified]

lemma parse_drop_if:
  "validateTarget U t = Inr u \<Longrightarrow>
   parse_tsql (''DROP TABLE IF EXISTS '' @ quoted_target t) a = Some (DropTable True t)"
  using two_part_target0 [of U t]
  by (simp add: parse_tsql_def TrimPrefix_def whole_name_def)

lemma parse_drop:
  "validateTarget U t = Inr u \<Longrightarrow> parse_tsql (''DROP TABLE '' @ quoted_target t) a = Some (DropTable False t)"
  using two_part_target0 [of U t] quoted_target_Cons [of t]
  by (auto simp: parse_tsql_def TrimPrefix_def whole_name_def)

lemma parse_truncate:
  "validateTarget U t = Inr u \<Longrightarrow>
   parse_tsql (''TRUNCATE TABLE '' @ quoted_target t) a = Some (TruncateTable t)"
  using two_part_target0 [of U t]
  by (simp add: parse_tsql_def TrimPrefix_def whole_name_def)

lemma parse_create:
  "validateTarget U t = Inr u \<Longrightarrow> parse_tsql (create_stmt t cols) a = Some (CreateTable t)"
  using two_part_target [of U t u "'' ('' @ [CHR 0x0A] @ ''  '' @
     Join cols ('','' @ [CHR 0x0A] @ ''  '') @ [CHR 0x0A] @ '');''"]
  by (simp add: create_stmt_def parse_tsql_def TrimPrefix_def)

lemma parse_clone:
  assumes "validateTarget U t = Inr u" and "validateTarget U v = Inr w"
  shows "parse_tsql (''SELECT * INTO '' @ quoted_target t @ '' FROM '' @ quoted_target v @ '' WHERE 1 = 0'') a
         = Some (CloneInto t v)"
  using two_part_target [OF assms(1), of "'' FROM '' @ quoted_target v @ '' WHERE 1 = 0''"]
    two_part_target [OF assms(2), of "'' WHERE 1 = 0''"]
  by (simp add: parse_tsql_def TrimPrefix_def)

lemma parse_rename:
  "parse_tsql ''EXEC sp_rename @objname, @newname;'' [(''objname'', VString obj), (''newname'', VString new)]
   = Some (RenameObj obj new)"
  by (simp add: parse_tsql_def)

text \<open>The tables a replace uses beside its target, and the targets \<^verbatim>\<open>sp_rename\<close> can address.\<close>

definition stage_of :: "TargetTable \<Rightarrow> TargetTable" where
  "stage_of t = \<lparr> tt_Schema = tt_Schema t, tt_Name = tt_Name t @ stagingSuffix \<rparr>"

definition aside_of :: "TargetTable \<Rightarrow> TargetTable" where
  "aside_of t = \<lparr> tt_Schema = tt_Schema t, tt_Name = tt_Name t @ oldSuffix \<rparr>"

definition dotless :: "TargetTable \<Rightarrow> bool" where
  "dotless t \<longleftrightarrow> CHR ''.'' \<notin> set (tt_Schema t) \<and> CHR ''.'' \<notin> set (tt_Name t)"

lemma beside_neq [simp]:
  "stage_of t \<noteq> t" "aside_of t \<noteq> t" "aside_of t \<noteq> stage_of t"
  "t \<noteq> stage_of t" "t \<noteq> aside_of t" "stage_of t \<noteq> aside_of t"
  by (cases t; simp add: stage_of_def aside_of_def stagingSuffix_def oldSuffix_def)+

lemma dotless_stage [simp]: "dotless (stage_of t) = dotless t"
  by (simp add: dotless_def stage_of_def stagingSuffix_def)

lemma stagingTarget_Inr:
  "stagingTarget U t = Inr g \<longleftrightarrow> g = stage_of t \<and> Validate U (tt_Name t @ stagingSuffix) = Inr ()"
  by (auto simp: stagingTarget_def stage_of_def bind_res_Inr_iff Let_def)

lemma oldTarget_Inr:
  "oldTarget U t = Inr g \<longleftrightarrow> g = aside_of t \<and> Validate U (tt_Name t @ oldSuffix) = Inr ()"
  by (auto simp: oldTarget_def aside_of_def bind_res_Inr_iff Let_def)

lemma rename_specified:
  assumes "validateTarget U t = Inr u" and "dotless t"
  shows "split_on CHR ''.'' (tt_Schema t @ ''.'' @ tt_Name t) = [tt_Schema t, tt_Name t]"
    and "plain_obj (tt_Schema t @ ''.'' @ tt_Name t)"
proof -
  show *: "split_on CHR ''.'' (tt_Schema t @ ''.'' @ tt_Name t) = [tt_Schema t, tt_Name t]"
    using assms(2) by (simp add: dotless_def split_on_append split_on_id)
  show "plain_obj (tt_Schema t @ ''.'' @ tt_Name t)"
    unfolding plain_obj_def * using assms(1) Validate_no_delims [of U "tt_Schema t" "()"]
      Validate_no_delims [of U "tt_Name t" "()"]
    by (simp add: validateTarget_Inr)
qed

section \<open>What the operations do on the server\<close>

context mssql_server
begin

lemma keeps_query [frame, intro]: "keeps committed (db_QueryInt D s a)"
  unfolding keeps_def by (metis query prod.collapse)

lemma keeps_tableExists [frame, intro]: "keeps committed (tableExists D t)"
  by (auto simp: tableExists_def)

lemma tableExists_iff:
  "tableExists D t d = (Inr b, d') \<Longrightarrow> b \<longleftrightarrow> committed d t \<noteq> None"
  using query_count [of "tt_Schema t" "tt_Name t" d]
  by (auto simp: tableExists_def elim!: bindA_InrE)

lemma dropTableIfExists_ok:
  assumes "dropTableIfExists D t d = (Inr u, d')" and "validateTarget U t = Inr v"
  shows "committed d' = (committed d)(t := None)"
  using assms exec_ok [of "''DROP TABLE IF EXISTS '' @ quoted_target t" "[]" d d'] parse_drop_if [of U t]
  by (simp add: dropTableIfExists_def runs_as_def)

lemma dropTableIfExists_frame:
  assumes "dropTableIfExists D t d = (r, d')" and "validateTarget U t = Inr v" and "u \<noteq> t"
  shows "committed d' u = committed d u"
proof (cases r)
  case Inl
  then show ?thesis
    using assms(1) exec_err by (metis dropTableIfExists_def)
next
  case Inr
  then show ?thesis
    using assms dropTableIfExists_ok by simp
qed

lemma EnsureTable_err: "EnsureTable U D t cs d = (Inl e, d') \<Longrightarrow> committed d' = committed d"
  using exec_err by (auto simp: EnsureTable_def dest!: keepsD [OF keeps_tableExists]
      elim!: bindA_InlE split: if_splits)

lemma EnsureTable_ok:
  assumes "EnsureTable U D t cs d = (Inr u, d')"
  shows "committed d' = (if committed d t = None then (committed d)(t \<mapsto> []) else committed d)"
proof -
  obtain ex d1 where v: "validateTarget U t = Inr ()" and x: "tableExists D t d = (Inr ex, d1)"
    and rest: "(if ex then retA () else bindA (liftA (column_defs U cs)) (\<lambda>cols. db_ExecContext D
         (create_stmt t (cols @ [QuoteMSSQL LoadTimestampColumn @ '' datetime2 NOT NULL''])) [])) d1 = (Inr u, d')"
    using assms by (auto simp: EnsureTable_def elim!: bindA_InrE)
  have d1: "committed d1 = committed d" and ex: "ex \<longleftrightarrow> committed d t \<noteq> None"
    using keepsD [OF keeps_tableExists x] tableExists_iff [OF x] .
  show ?thesis
  proof (cases ex)
    case False
    then obtain cols where "db_ExecContext D (create_stmt t cols) [] d1 = (Inr (), d')"
      using rest by (auto elim!: bindA_InrE)
    then show ?thesis
      using exec_ok [of "create_stmt t cols" "[]" d1 d'] parse_create [OF v] d1 ex False
      by (auto simp: runs_as_def split: if_splits)
  qed (use rest d1 ex in auto)
qed

lemma Truncate_ok:
  assumes "Truncate U D t d = (Inr u, d')"
  shows "committed d t \<noteq> None \<and> committed d' = (committed d)(t \<mapsto> [])"
proof -
  have "validateTarget U t = Inr ()" "db_ExecContext D (''TRUNCATE TABLE '' @ quoted_target t) [] d = (Inr (), d')"
    using assms by (auto simp: Truncate_def elim!: bindA_InrE)
  then show ?thesis
    using exec_ok [of "''TRUNCATE TABLE '' @ quoted_target t" "[]" d d'] parse_truncate [of U t "()"]
    by (auto simp: runs_as_def split: if_splits)
qed

end

text \<open>The rows a batch adds: its prepared values and the load time, under the column names.\<close>

definition stored_rows :: "'d sql_db \<Rightarrow> Batch \<Rightarrow> gtime \<Rightarrow> srow list" where
  "stored_rows D b loadTS =
     map (\<lambda>row. case row_values D (b_Columns b) row loadTS of
            Inr vals \<Rightarrow> zip (map c_Name (b_Columns b) @ [LoadTimestampColumn]) vals
          | Inl _ \<Rightarrow> []) (b_Rows b)"

lemma column_names_Inr: "column_names U cs = Inr ns \<Longrightarrow> ns = map c_Name cs @ [LoadTimestampColumn]"
  by (induction cs arbitrary: ns) (auto simp: bind_res_Inr_iff)

context mssql_server
begin

lemma keeps_add_rows [frame, intro]: "keeps committed (add_rows D cs ts rows n)"
proof (induction rows arbitrary: n)
  case (Cons row rows)
  have "keeps committed (bulk_AddRow D vs)" for vs
    unfolding keeps_def by (metis add_row prod.collapse)
  then show ?case
    using Cons by auto
qed auto

lemma add_rows_ok:
  assumes "add_rows D cs ts rows n d = (Inr m, d')" and "bulk d = (t, ns, vss)"
  shows "m = n + int (length rows) \<and> (\<forall>row \<in> set rows. \<exists>vs. row_values D cs row ts = Inr vs) \<and>
    bulk d' = (t, ns, vss @ map (\<lambda>row. projr (row_values D cs row ts)) rows)"
  using assms
proof (induction rows arbitrary: n d vss)
  case (Cons row rows)
  then obtain vs d1 where v: "row_values D cs row ts = Inr vs" and a: "bulk_AddRow D vs d = (Inr (), d1)"
    and r: "add_rows D cs ts rows (n + 1) d1 = (Inr m, d')"
    by (auto elim!: bindA_InrE)
  show ?case
    using Cons.IH [OF r add_row_ok [OF a Cons.prems(2)]] v by auto
qed simp

lemma bulk_copy_err: "bulk_copy D f ns b ts d = (Inl e, d') \<Longrightarrow> committed d' = committed d"
  using bulk_done_err keepsD [OF keeps_add_rows] create_bulk(1)
  by (fastforce simp: bulk_copy_def split: if_splits elim!: bindA_InlE)

lemma bulk_copy_ok:
  assumes "bulk_copy D f ns b ts d = (Inr n, d')" and "two_part f = Some (t, [])"
    and "ns = map c_Name (b_Columns b) @ [LoadTimestampColumn]"
  shows "n = int (length (b_Rows b)) \<and> (\<exists>rs. committed d t = Some rs \<and>
         committed d' = (committed d)(t \<mapsto> rs @ stored_rows D b ts))"
proof -
  let ?d0 = "db_CreateBulk D f ns d"
  obtain d1 where a: "add_rows D (b_Columns b) ts (b_Rows b) 0 ?d0 = (Inr n, d1)"
    and dn: "bulk_Done D d1 = (Inr (), d')"
    using assms(1) by (auto simp: bulk_copy_def split: if_splits elim!: bindA_InrE)
  note ar = add_rows_ok [OF a create_bulk(2)]
  have c1: "committed d1 = committed d"
    using keepsD [OF keeps_add_rows a] create_bulk(1) by simp
  have img: "map (zip ns) (map (\<lambda>row. projr (row_values D (b_Columns b) row ts)) (b_Rows b)) = stored_rows D b ts"
    using ar assms(3) by (auto simp: stored_rows_def)
  show ?thesis
    using bulk_done_ok [OF dn _ assms(2)] ar c1 img by fastforce
qed

lemma WriteBatch_err: "WriteBatch U D t b ts d = (Inl e, d') \<Longrightarrow> committed d' = committed d"
  using conn bulk_copy_err conn_close
  by (fastforce simp: WriteBatch_def split: if_splits prod.splits elim!: bindA_InlE)

lemma WriteBatch_ok:
  assumes "WriteBatch U D t b ts d = (Inr n, d')"
  shows "n = int (length (b_Rows b)) \<and> (b_Rows b = [] \<longrightarrow> committed d' = committed d) \<and>
      (b_Rows b \<noteq> [] \<longrightarrow> (\<exists>rs. committed d t = Some rs \<and>
         committed d' = (committed d)(t \<mapsto> rs @ stored_rows D b ts)))"
proof (cases "b_Rows b = []")
  case False
  then obtain ns d1 d2 where v: "validateTarget U t = Inr ()" and c: "db_Conn D d = (Inr (), d1)"
    and ns: "column_names U (b_Columns b) = Inr ns"
    and b: "bulk_copy D (quoted_target t) ns b ts d1 = (Inr n, d2)" and d': "d' = db_ConnClose D d2"
    using assms by (auto simp: WriteBatch_def split: prod.splits elim!: bindA_InrE)
  show ?thesis
    using bulk_copy_ok [OF b two_part_target0 [OF v] column_names_Inr [OF ns]] conn [OF c] conn_close d' False
    by auto
qed (use assms in \<open>simp add: WriteBatch_def\<close>)

end

section \<open>The replace on the server\<close>

lemma validate_stage:
  "validateTarget U t = Inr u \<Longrightarrow> stagingTarget U t = Inr g \<Longrightarrow> g = stage_of t \<and> validateTarget U g = Inr ()"
  by (auto simp: validateTarget_Inr stagingTarget_Inr stage_of_def)

lemma validate_aside:
  "validateTarget U t = Inr u \<Longrightarrow> oldTarget U t = Inr g \<Longrightarrow> g = aside_of t \<and> validateTarget U g = Inr ()"
  by (auto simp: validateTarget_Inr oldTarget_Inr aside_of_def)

context mssql_server
begin

lemma keeps_tx_exec [frame, intro]: "keeps committed (tx_ExecContext D s a)"
  unfolding keeps_def by (metis tx_exec prod.collapse)

lemma keeps_renameInTx [frame, intro]: "keeps committed (renameInTx U D t n)"
  by (auto simp: renameInTx_def Let_def)

lemma in_tx_err:
  assumes "keeps committed body" and "in_tx D body d = (Inl e, d')"
  shows "committed d' = committed d"
proof -
  have rb: "committed (snd (tx_Rollback D s)) = committed s" for s
    using tx_rollback [of s "fst (tx_Rollback D s)" "snd (tx_Rollback D s)"] by simp
  have body: "committed s' = committed s" if "bindA body (\<lambda>_. tx_Commit D) s = (Inl e, s')" for s s'
    using that
  proof (cases rule: bindA_InlE)
    case first
    then show ?thesis by (rule keepsD [OF assms(1)])
  next
    case (second x s1)
    then show ?thesis
      using keepsD [OF assms(1) second(1)] tx_commit_err [OF second(2)] by simp
  qed
  from assms(2) show ?thesis
    unfolding in_tx_def
  proof (cases rule: bindA_InlE)
    case first
    then show ?thesis by (rule begin_tx)
  next
    case (second x s1)
    then obtain s2 where "bindA body (\<lambda>_. tx_Commit D) s1 = (Inl e, s2)" and "d' = snd (tx_Rollback D s2)"
      by (auto split: prod.splits)
    then show ?thesis
      using body rb begin_tx [OF second(1)] by simp
  qed
qed

lemma in_tx_ok:
  assumes "keeps committed body" and "in_tx D body d = (Inr u, d')"
  obtains d1 d2 where "intx d1 = committed d" and "body d1 = (Inr (), d2)" and "committed d' = intx d2"
proof -
  obtain d1 d2 d3 where b: "db_BeginTx D d = (Inr (), d1)" and 1: "body d1 = (Inr (), d2)"
    and c: "tx_Commit D d2 = (Inr (), d3)" and d': "d' = snd (tx_Rollback D d3)"
    using assms(2) by (auto simp: in_tx_def elim!: bindA_InrE split: prod.splits)
  have "committed d' = intx d2"
    using tx_commit_ok [OF c] tx_rollback [of d3 "fst (tx_Rollback D d3)" d'] d' by simp
  then show thesis
    using that [OF begin_tx_ok [OF b] 1] by blast
qed

lemma renameInTx_ok:
  assumes "renameInTx U D t n d = (Inr u, d')" and "validateTarget U t = Inr v" and "dotless t"
  shows "\<exists>rows. intx d t = Some rows \<and> intx d \<lparr> tt_Schema = tt_Schema t, tt_Name = n \<rparr> = None \<and>
         intx d' = (intx d)(t := None, \<lparr> tt_Schema = tt_Schema t, tt_Name = n \<rparr> \<mapsto> rows)"
proof -
  let ?obj = "tt_Schema t @ ''.'' @ tt_Name t"
  have "tx_ExecContext D ''EXEC sp_rename @objname, @newname;''
          [(''objname'', VString ?obj), (''newname'', VString n)] d = (Inr (), d')"
    using assms(1) by (auto simp: renameInTx_def Let_def elim!: bindA_InrE)
  then have "exec_tsql (RenameObj ?obj n) (intx d) = Some (intx d')"
    using tx_exec_ok [of "''EXEC sp_rename @objname, @newname;''" _ d d'] rename_specified(2) [OF assms(2,3)]
      parse_rename by (fastforce simp: runs_as_def)
  then show ?thesis
    unfolding exec_tsql.simps rename_specified(1) [OF assms(2,3)]
    by (auto simp: Let_def split: option.splits if_splits)
qed

lemma BeginReplace_ok:
  assumes "BeginReplace U D t cs d = (Inr stg, d')"
  shows "stg = stage_of t \<and> committed d' = (committed d)(stage_of t \<mapsto> [])"
proof -
  obtain ex d1 d2 where v: "validateTarget U t = Inr ()" and g: "stagingTarget U t = Inr stg"
    and dr: "dropTableIfExists D stg d = (Inr (), d1)" and x: "tableExists D t d1 = (Inr ex, d2)"
    and br: "ex \<and> db_ExecContext D (''SELECT * INTO '' @ quoted_target stg @ '' FROM '' @ quoted_target t @
                            '' WHERE 1 = 0'') [] d2 = (Inr (), d') \<or>
             \<not> ex \<and> EnsureTable U D stg cs d2 = (Inr (), d')"
    using assms by (auto simp: BeginReplace_def elim!: bindA_InrE split: if_splits)
  have gv: "stg = stage_of t" "validateTarget U stg = Inr ()"
    using validate_stage [OF v g] by auto
  have c2: "committed d2 = (committed d)(stg := None)"
    using dropTableIfExists_ok [OF dr gv(2)] keepsD [OF keeps_tableExists x] by simp
  from br have "committed d' = (committed d)(stg \<mapsto> [])"
  proof
    assume "ex \<and> db_ExecContext D (''SELECT * INTO '' @ quoted_target stg @ '' FROM '' @ quoted_target t @
                            '' WHERE 1 = 0'') [] d2 = (Inr (), d')"
    then have "runs_as (''SELECT * INTO '' @ quoted_target stg @ '' FROM '' @ quoted_target t @
                            '' WHERE 1 = 0'') [] (committed d2) (committed d')"
      by (intro exec_ok) (rule conjunct2)
    then show ?thesis
      unfolding runs_as_def parse_clone [OF gv(2) v] c2 by (simp split: if_splits)
  next
    assume "\<not> ex \<and> EnsureTable U D stg cs d2 = (Inr (), d')"
    then show ?thesis
      using EnsureTable_ok [of U stg cs d2 "()" d'] c2 by auto
  qed
  with gv(1) show ?thesis by simp
qed

lemma BeginReplace_err:
  assumes "BeginReplace U D t cs d = (Inl e, d')" and "u \<noteq> stage_of t"
  shows "committed d' u = committed d u"
proof (cases "validateTarget U t = Inr () \<and> stagingTarget U t = Inr (stage_of t)")
  case True
  then have v: "validateTarget U (stage_of t) = Inr ()"
    using validate_stage by blast
  have drop: "dropTableIfExists D (stage_of t) d = (r, d1) \<Longrightarrow> committed d1 u = committed d u" for r d1
    using dropTableIfExists_frame [OF _ v assms(2)] by blast
  have rest: "committed d2 = committed d1" if "tableExists D t d1 = (r, d2)" for r d1 d2
    using keepsD [OF keeps_tableExists that] .
  show ?thesis
    using assms(1) True
    by (auto simp: BeginReplace_def split: if_splits elim!: bindA_InlE
        dest!: drop rest exec_err EnsureTable_err)
next
  case False
  then show ?thesis
    using assms(1) by (auto simp: BeginReplace_def stagingTarget_Inr elim!: bindA_InlE bindA_InrE)
qed

lemma keeps_swap_tx [frame, intro]: "keeps committed (swap_tx U D t g w)"
  by (auto simp: swap_tx_def)

lemma swap_ok:
  assumes v: "validateTarget U t = Inr ()" and o: "oldTarget U t = Inr (aside_of t)"
    and g: "validateTarget U (stage_of t) = Inr ()" and dot: "dotless t"
    and run: "swap_tx U D t (stage_of t) (aside_of t) d = (Inr u, d')"
  shows "\<exists>rows. intx d (stage_of t) = Some rows \<and>
         intx d' = (intx d)(stage_of t := None, t \<mapsto> rows, aside_of t := None)"
proof -
  obtain d1 d2 where r1: "renameInTx U D t (tt_Name (aside_of t)) d = (Inr (), d1)"
    and r2: "renameInTx U D (stage_of t) (tt_Name t) d1 = (Inr (), d2)"
    and dr: "tx_ExecContext D (''DROP TABLE '' @ quoted_target (aside_of t)) [] d2 = (Inr (), d')"
    using run by (auto simp: swap_tx_def elim!: bindA_InrE)
  have eta: "\<lparr> tt_Schema = tt_Schema t, tt_Name = tt_Name (aside_of t) \<rparr> = aside_of t"
    "\<lparr> tt_Schema = tt_Schema (stage_of t), tt_Name = tt_Name t \<rparr> = t"
    by (simp_all add: aside_of_def stage_of_def)
  obtain rows where d1: "intx d1 = (intx d)(t := None, aside_of t \<mapsto> rows)"
    using renameInTx_ok [OF r1 v dot] unfolding eta by blast
  obtain rows' where g1: "intx d1 (stage_of t) = Some rows'"
    and d2: "intx d2 = (intx d1)(stage_of t := None, t \<mapsto> rows')"
    using renameInTx_ok [OF r2 g] dot unfolding eta dotless_stage by blast
  have "runs_as (''DROP TABLE '' @ quoted_target (aside_of t)) [] (intx d2) (intx d')"
    using dr by (rule tx_exec_ok)
  then have "intx d' = (intx d2)(aside_of t := None)"
    unfolding runs_as_def parse_drop [OF conjunct2 [OF validate_aside [OF v o]]]
    by (simp split: if_splits)
  moreover have "intx d (stage_of t) = Some rows'"
    using g1 unfolding d1 by simp
  ultimately show ?thesis
    unfolding d2 d1 by (auto simp: fun_eq_iff)
qed

lemma CommitReplace_ok:
  assumes "CommitReplace U D t (stage_of t) d = (Inr u, d')" and "dotless t"
  shows "\<exists>rows. committed d (stage_of t) = Some rows \<and>
     (committed d' = (committed d)(stage_of t := None, t \<mapsto> rows) \<and> committed d t = None \<or>
      committed d' = (committed d)(stage_of t := None, t \<mapsto> rows, aside_of t := None))"
proof -
  obtain live d1 d2 where v: "validateTarget U t = Inr ()" and g: "validateTarget U (stage_of t) = Inr ()"
    and x1: "tableExists D t d = (Inr live, d1)" and x2: "tableExists D (stage_of t) d1 = (Inr True, d2)"
    and br: "\<not> live \<and> renameTable U D (stage_of t) (tt_Name t) d2 = (Inr (), d') \<or>
      live \<and> bindA (liftA (oldTarget U t)) (\<lambda>old.
       bindA (wrapA (wrapf ''drop previous old table'') (dropTableIfExists D old)) (\<lambda>_.
       in_tx D (swap_tx U D t (stage_of t) old))) d2 = (Inr (), d')"
    using assms(1) unfolding CommitReplace_def by (auto elim!: bindA_InrE split: if_splits)
  have c2: "committed d2 = committed d"
    using keepsD [OF keeps_tableExists x1] keepsD [OF keeps_tableExists x2] by simp
  have live: "live \<longleftrightarrow> committed d t \<noteq> None"
    using tableExists_iff [OF x1] .
  from br show ?thesis
  proof (elim disjE conjE)
    assume nl: "\<not> live" and rn: "renameTable U D (stage_of t) (tt_Name t) d2 = (Inr (), d')"
    obtain e1 e2 where e: "intx e1 = committed d2"
      "renameInTx U D (stage_of t) (tt_Name t) e1 = (Inr (), e2)" "committed d' = intx e2"
      by (rule in_tx_ok [OF keeps_renameInTx rn [unfolded renameTable_def]])
    have eta: "\<lparr> tt_Schema = tt_Schema (stage_of t), tt_Name = tt_Name t \<rparr> = t"
      by (simp add: stage_of_def)
    show ?thesis
      using renameInTx_ok [OF e(2) g] assms(2) e(1,3) c2 nl live unfolding eta dotless_stage by auto
  next
    assume "bindA (liftA (oldTarget U t)) (\<lambda>old.
       bindA (wrapA (wrapf ''drop previous old table'') (dropTableIfExists D old)) (\<lambda>_.
       in_tx D (swap_tx U D t (stage_of t) old))) d2 = (Inr (), d')"
    then obtain d3 where o: "oldTarget U t = Inr (aside_of t)"
      and dr: "dropTableIfExists D (aside_of t) d2 = (Inr (), d3)"
      and tx: "in_tx D (swap_tx U D t (stage_of t) (aside_of t)) d3 = (Inr (), d')"
      by (auto simp: oldTarget_Inr elim!: bindA_InrE)
    obtain e1 e2 where e: "intx e1 = committed d3" "swap_tx U D t (stage_of t) (aside_of t) e1 = (Inr (), e2)"
      "committed d' = intx e2"
      by (rule in_tx_ok [OF keeps_swap_tx tx])
    have "committed d3 = (committed d)(aside_of t := None)"
      using dropTableIfExists_ok [OF dr conjunct2 [OF validate_aside [OF v o]]] c2 by simp
    then show ?thesis
      using swap_ok [OF v o g assms(2) e(2)] e(1,3) by (auto simp: fun_eq_iff)
  qed
qed

lemma CommitReplace_err:
  assumes "CommitReplace U D t g d = (Inl e, d')" and "u \<noteq> aside_of t"
  shows "committed d' u = committed d u"
proof -
  have ex: "committed s' = committed s" if "tableExists D x s = (r, s')" for x r s s'
    using keepsD [OF keeps_tableExists that] .
  have ren: "committed s' = committed s" if "renameTable U D g n s = (Inl e, s')" for n s s'
    using in_tx_err [OF keeps_renameInTx that [unfolded renameTable_def]] .
  have swap: "committed s' = committed s" if "in_tx D (swap_tx U D t g w) s = (Inl e, s')" for w s s'
    using in_tx_err [OF keeps_swap_tx that] .
  show ?thesis
  proof (cases "validateTarget U t = Inr () \<and> oldTarget U t = Inr (aside_of t)")
    case True
    then have "validateTarget U (aside_of t) = Inr ()"
      using validate_aside by blast
    then have drop: "committed s' u = committed s u" if "dropTableIfExists D (aside_of t) s = (r, s')" for r s s'
      using dropTableIfExists_frame [OF that _ assms(2)] by blast
    show ?thesis
      using assms(1) True unfolding CommitReplace_def
      by (auto split: if_splits elim!: bindA_InlE dest!: ex ren swap drop)
  next
    case False
    then show ?thesis
      using assms(1) unfolding CommitReplace_def
      by (auto simp: oldTarget_Inr split: if_splits elim!: bindA_InlE bindA_InrE dest!: ex ren)
  qed
qed

end

section \<open>The sink keeps the contract\<close>

locale mssql_target = mssql_server +
  fixes U :: unicode_tabs
begin

lemma TableExists_keeps: "TableExists U D t d = (r, d') \<Longrightarrow> committed d' = committed d"
  by (rule keepsD [where m = "TableExists U D t"]) (auto simp: TableExists_def)

lemma TableExists_iff: "TableExists U D t d = (Inr b, d') \<Longrightarrow> b \<longleftrightarrow> committed d t \<noteq> None"
  using tableExists_iff [of t d b d'] by (auto simp: TableExists_def elim!: bindA_InrE)

lemma AbortReplace_frame:
  assumes "AbortReplace U D g d = (r, d')" and "u \<noteq> g"
  shows "committed d' u = committed d u"
proof (cases "validateTarget U g")
  case Inl
  then show ?thesis
    using assms by (simp add: AbortReplace_def bindA_def)
next
  case Inr
  then show ?thesis
    using assms dropTableIfExists_frame [of g d r d' U] by (simp add: AbortReplace_def bindA_def)
qed

lemma stored_rows_Nil: "b_Rows b = [] \<Longrightarrow> stored_rows D b ts = []"
  by (simp add: stored_rows_def)

lemma CommitReplace_swaps:
  assumes "dotless t" and "CommitReplace U D t (stage_of t) d = (Inr u, d')"
  shows "committed d (stage_of t) \<noteq> None \<and> committed d' t = committed d (stage_of t)"
  using CommitReplace_ok [OF assms(2,1)] by auto

lemma CommitReplace_keeps:
  assumes "CommitReplace U D t g d = (Inl e, d')"
  shows "committed d' t = committed d t \<and> committed d' (stage_of t) = committed d (stage_of t)"
  using CommitReplace_err [OF assms] by simp

lemma CommitReplace_frame:
  assumes "dotless t" and "CommitReplace U D t (stage_of t) d = (r, d')"
    and "u \<noteq> t" and "u \<noteq> stage_of t" and "u \<noteq> aside_of t"
  shows "committed d' u = committed d u"
proof (cases r)
  case Inl
  then show ?thesis
    using CommitReplace_err assms by blast
next
  case Inr
  then show ?thesis
    using CommitReplace_ok [of U t d _ d'] assms by fastforce
qed

end

sublocale mssql_target \<subseteq> tgt: atomic_sink "MSSQLSink U D" "mssql_replacer U D" committed
  "stored_rows D" stage_of aside_of dotless
  by unfold_locales
     (auto simp: MSSQLSink_def mssql_replacer_def stored_rows_Nil
       dest: TableExists_keeps TableExists_iff EnsureTable_err EnsureTable_ok WriteBatch_err WriteBatch_ok
         BeginReplace_ok BeginReplace_err CommitReplace_swaps CommitReplace_frame AbortReplace_frame
         CommitReplace_keeps)

interpretation memtgt: mssql_target MemDB md_tables md_tx md_bulk U for U
  by unfold_locales

section \<open>Properties\<close>

text \<open>
  (C7) The swap of an atomic replace: on any server that keeps the contract, a \<^verbatim>\<open>CommitReplace\<close> that
  succeeds makes the staged rows the rows of the target and leaves no staging table; one that fails
  leaves the target and the staging table as they were. No table but the target, its staging table
  and its \<^verbatim>\<open>_old\<close> table is touched.
\<close>

theorem CommitReplace_atomic:
  assumes "mssql_server D committed intx bulk" and "dotless t"
    and "CommitReplace U D t (stage_of t) d = (r, d')"
  shows "(case r of
            Inr _ \<Rightarrow> committed d (stage_of t) \<noteq> None \<and> committed d' t = committed d (stage_of t)
                     \<and> committed d' (stage_of t) = None
          | Inl _ \<Rightarrow> committed d' t = committed d t \<and> committed d' (stage_of t) = committed d (stage_of t))
         \<and> (\<forall>u. u \<notin> {t, stage_of t, aside_of t} \<longrightarrow> committed d' u = committed d u)"
proof -
  have tgt: "mssql_target D committed intx bulk"
    using assms(1) by (simp add: mssql_target_def)
  have frame: "\<forall>u. u \<notin> {t, stage_of t, aside_of t} \<longrightarrow> committed d' u = committed d u"
    using mssql_target.CommitReplace_frame [OF tgt assms(2,3)] by blast
  show ?thesis
  proof (cases r)
    case (Inl e)
    then show ?thesis
      using mssql_target.CommitReplace_keeps [OF tgt] assms(3) frame by fastforce
  next
    case (Inr u)
    then show ?thesis
      using mssql_server.CommitReplace_ok [OF assms(1) _ assms(2), of U d u d'] assms(3) frame by auto
  qed
qed

text \<open>A database with a live table of one row and a staging table of another, and no faults.\<close>

definition demo_target :: TargetTable where
  "demo_target = \<lparr> tt_Schema = ''dbo'', tt_Name = ''orders'' \<rparr>"

definition demo_db :: memdb where
  "demo_db = \<lparr> md_tables = [demo_target \<mapsto> [[(''id'', VInt I64 1)]],
                            stage_of demo_target \<mapsto> [[(''id'', VInt I64 2)]]],
               md_tx = Map.empty, md_bulk = ([], [], []), md_faults = [] \<rparr>"

theorem CommitReplace_atomic_witness:
  "md_tables (snd (CommitReplace ascii_tabs MemDB demo_target (stage_of demo_target) demo_db)) demo_target
   = Some [[(''id'', VInt I64 2)]]"
proof -
  let ?run = "CommitReplace ascii_tabs MemDB demo_target (stage_of demo_target) demo_db"
  have ok: "fst ?run = Inr ()" and dot: "dotless demo_target"
    and "md_tables demo_db (stage_of demo_target) = Some [[(''id'', VInt I64 2)]]"
    by code_simp+
  moreover have "?run = (Inr (), snd ?run)"
    using ok by (simp add: prod_eq_iff)
  ultimately show ?thesis
    using CommitReplace_atomic [OF memdb.mssql_server_axioms dot] by fastforce
qed

text \<open>
  (C17) A batch is written as a whole or not at all: \<^verbatim>\<open>WriteBatch\<close> reports the number of rows of the
  batch and has appended exactly one stored row for each, in order, or it returns an error and the
  tables are as they were. A stored row holds the row's value for every column that is not a GUID
  column, and the load time in \<^verbatim>\<open>yb_load_timestamp\<close>.
\<close>

theorem WriteBatch_all_or_nothing:
  assumes "mssql_server D committed intx bulk" and "WriteBatch U D t b ts d = (r, d')"
  shows "(case r of
            Inl _ \<Rightarrow> committed d' = committed d
          | Inr n \<Rightarrow> n = int (length (b_Rows b)) \<and>
              (if b_Rows b = [] then committed d' = committed d
               else \<exists>old. committed d t = Some old \<and>
                          committed d' = (committed d)(t \<mapsto> old @ stored_rows D b ts)))
         \<and> ((\<forall>c \<in> set (b_Columns b). c_DataType c \<noteq> ''guid'') \<longrightarrow>
            stored_rows D b ts = map (\<lambda>row. map (\<lambda>c. (c_Name c, row_get row (c_Name c))) (b_Columns b)
                                            @ [(LoadTimestampColumn, VTime ts)]) (b_Rows b))"
proof
  have "row_values D cs row ts = Inr (map (\<lambda>c. row_get row (c_Name c)) cs @ [VTime ts])"
    if "\<forall>c \<in> set cs. c_DataType c \<noteq> ''guid''" for cs row
    using that by (induction cs) (auto simp: prepareValue_def)
  then show "(\<forall>c \<in> set (b_Columns b). c_DataType c \<noteq> ''guid'') \<longrightarrow>
            stored_rows D b ts = map (\<lambda>row. map (\<lambda>c. (c_Name c, row_get row (c_Name c))) (b_Columns b)
                                            @ [(LoadTimestampColumn, VTime ts)]) (b_Rows b)"
    by (simp add: stored_rows_def zip_map_map zip_same_conv_map)
qed (use assms mssql_server.WriteBatch_err [OF assms(1), of U t b ts d] mssql_server.WriteBatch_ok [OF assms(1), of U t b ts d]
     in \<open>auto split: sum.split\<close>)

definition demo_batch :: Batch where
  "demo_batch = \<lparr> b_Columns = [\<lparr> c_Name = ''id'', c_DataType = ''int64'', c_Nullable = False \<rparr>],
                  b_Rows = [[''id'' \<mapsto> VInt I64 7], [''id'' \<mapsto> VInt I64 8]] \<rparr>"

theorem WriteBatch_all_or_nothing_witness:
  "md_tables (snd (WriteBatch ascii_tabs MemDB demo_target demo_batch 5 demo_db)) demo_target
   = Some [[(''id'', VInt I64 1)],
           [(''id'', VInt I64 7), (''yb_load_timestamp'', VTime 5)],
           [(''id'', VInt I64 8), (''yb_load_timestamp'', VTime 5)]]"
proof -
  let ?run = "WriteBatch ascii_tabs MemDB demo_target demo_batch 5 demo_db"
  have ok: "fst ?run = Inr 2" and old: "md_tables demo_db demo_target = Some [[(''id'', VInt I64 1)]]"
    by code_simp+
  have run: "?run = (Inr 2, snd ?run)"
    using ok by (simp add: prod_eq_iff)
  show ?thesis
    using WriteBatch_all_or_nothing [OF memdb.mssql_server_axioms run] old
    by (simp add: demo_batch_def LoadTimestampColumn_def row_get_def)
qed

text \<open>
  (C18) \<^verbatim>\<open>BeginReplace\<close> never touches the live table: a successful one leaves an empty staging table
  \<open>name_stg\<close> in the same schema and every other table as it was, also when a staging table was left
  over by a run that died; a failing one changes at most the staging table.
\<close>

theorem BeginReplace_stages:
  assumes "mssql_server D committed intx bulk" and "BeginReplace U D t cs d = (r, d')"
  shows "case r of
           Inr stg \<Rightarrow> stg = \<lparr> tt_Schema = tt_Schema t, tt_Name = tt_Name t @ ''_stg'' \<rparr> \<and>
                      committed d' = (committed d)(stg \<mapsto> [])
         | Inl _ \<Rightarrow> (\<forall>u. u \<noteq> stage_of t \<longrightarrow> committed d' u = committed d u)"
  using assms mssql_server.BeginReplace_ok [OF assms(1), of U t cs d] mssql_server.BeginReplace_err [OF assms(1), of U t cs d]
  by (auto simp: stage_of_def stagingSuffix_def split: sum.split)

theorem BeginReplace_stages_witness:
  "md_tables (snd (BeginReplace ascii_tabs MemDB demo_target [] demo_db)) (stage_of demo_target) = Some []"
proof -
  let ?run = "BeginReplace ascii_tabs MemDB demo_target [] demo_db"
  have ok: "case fst ?run of Inr stg \<Rightarrow> stg = stage_of demo_target | Inl _ \<Rightarrow> False"
    by code_simp
  have run: "?run = (Inr (stage_of demo_target), snd ?run)"
    using ok by (auto simp: prod_eq_iff split: sum.splits)
  show ?thesis
    using BeginReplace_stages [OF memdb.mssql_server_axioms run] by simp
qed

text \<open>
  A target whose name leaves no room for the suffix cannot be replaced: \<^verbatim>\<open>BeginReplace\<close> returns an
  error before it sends a single statement, so nothing at all has changed.
\<close>

theorem BeginReplace_name_too_long:
  assumes "124 < length (tt_Name t)"
  shows "\<exists>e. BeginReplace U D t cs d = (Inl e, d)"
proof (cases "validateTarget U t")
  case (Inr u)
  have "Validate U (tt_Name t @ stagingSuffix) \<noteq> Inr ()"
    using assms Validate_OkD(2) [of U "tt_Name t @ stagingSuffix"] by (auto simp: stagingSuffix_def)
  then obtain e where "stagingTarget U t = Inl e"
    by (cases "Validate U (tt_Name t @ stagingSuffix)") (auto simp: stagingTarget_def Let_def)
  with Inr show ?thesis
    by (simp add: BeginReplace_def bindA_def)
qed (simp add: BeginReplace_def bindA_def)

theorem BeginReplace_name_too_long_witness:
  "\<exists>e. BeginReplace ascii_tabs MemDB \<lparr> tt_Schema = ''dbo'', tt_Name = replicate 125 CHR ''x'' \<rparr> [] demo_db
       = (Inl e, demo_db)"
  by (rule BeginReplace_name_too_long) simp

end
