(* ===== verification/SourceObjects.thy ===== *)
theory SourceObjects
  imports Contracts
begin

text \<open>
  The objects the factories of the four source kinds make, with the connection each holds, and the way a
  source that polls telemetry points hands its one batch on.
\<close>

section \<open>Source objects\<close>

text \<open>
  Every source is an object with an immutable configuration and one pointer, to its connection, which is
  nil until \<^verbatim>\<open>Open\<close> sets it. An object is a number, a connection a handle the driver gave out; \<open>so_ext\<close> is
  the state of the drivers and the systems behind them.
\<close>

record 'd objs =
  so_next :: nat
  so_conn :: "nat \<Rightarrow> nat option"
  so_ext :: 'd

definition new_object :: "('d objs, nat) act" where
  "new_object w = (Inr (so_next w), w\<lparr> so_next := so_next w + 1, so_conn := (so_conn w)(so_next w := None) \<rparr>)"

definition on_ext :: "('d, 'a) act \<Rightarrow> ('d objs, 'a) act" where
  "on_ext m w = (case m (so_ext w) of (r, d) \<Rightarrow> (r, w\<lparr> so_ext := d \<rparr>))"

definition set_conn :: "nat \<Rightarrow> nat \<Rightarrow> ('d objs, unit) act" where
  "set_conn obj c w = (Inr (), w\<lparr> so_conn := (so_conn w)(obj := Some c) \<rparr>)"

definition with_conn :: "gerr \<Rightarrow> nat \<Rightarrow> (nat \<Rightarrow> ('d, 'a) act) \<Rightarrow> ('d objs, 'a) act" where
  "with_conn nil obj f w = (case so_conn w obj of None \<Rightarrow> (Inl nil, w) | Some c \<Rightarrow> on_ext (f c) w)"

text \<open>\<^verbatim>\<open>if s.db != nil { return s.db.Close() }; return nil\<close>\<close>

definition close_conn :: "(nat \<Rightarrow> ('d, unit) act) \<Rightarrow> nat \<Rightarrow> ('d objs, unit) act" where
  "close_conn cl obj w = (case so_conn w obj of None \<Rightarrow> (Inr (), w) | Some c \<Rightarrow> on_ext (cl c) w)"

lemma with_conn_InrE:
  assumes "with_conn nil obj f w = (Inr v, w')"
  obtains c where "so_conn w obj = Some c" "f c (so_ext w) = (Inr v, so_ext w')" "so_conn w' = so_conn w"
  using assms by (auto simp: with_conn_def on_ext_def split: option.splits prod.splits)

section \<open>One batch for each poll\<close>

text \<open>
  The sources that poll points work out their rows before they call the handler once: \<open>poll\<close> gives the
  result so far and either an error, no batch at all, or the batch to hand on; \<open>now\<close> is the clock that is
  read after the handler.
\<close>

datatype polled = PollFails gerr | PollNothing gtime | PollBatch Batch

definition emit_batch :: "('w \<Rightarrow> gtime \<times> 'w) \<Rightarrow> ReadResult \<Rightarrow> 'x BatchHandler \<Rightarrow> Batch \<Rightarrow> 'w \<Rightarrow> 'x \<Rightarrow>
    (ReadResult \<times> gerr option) \<times> 'w \<times> 'x" where
  "emit_batch now result h b w x =
     (case h b x of
        (Inl e, x') \<Rightarrow> ((result, Some e), w, x')
      | (Inr _, x') \<Rightarrow> (case now w of (t, w') \<Rightarrow> ((result\<lparr> rr_FinishedAt := t \<rparr>, None), w', x')))"

definition poll_read :: "('w \<Rightarrow> gtime \<times> 'w) \<Rightarrow> (LoadConfig \<Rightarrow> 'w \<Rightarrow> (ReadResult \<times> polled) \<times> 'w) \<Rightarrow> ('w, 'x) ReadFn" where
  "poll_read now poll load h w x =
     (case poll load w of
        ((result, PollFails e), w1) \<Rightarrow> ((result, Some e), w1, x)
      | ((result, PollNothing t), w1) \<Rightarrow> ((result\<lparr> rr_FinishedAt := t \<rparr>, None), w1, x)
      | ((result, PollBatch b), w1) \<Rightarrow> emit_batch now result h b w1 x)"

definition poll_offers :: "(LoadConfig \<Rightarrow> 'w \<Rightarrow> (ReadResult \<times> polled) \<times> 'w) \<Rightarrow> LoadConfig \<Rightarrow> 'w \<Rightarrow> Batch list" where
  "poll_offers poll load w = (case snd (fst (poll load w)) of PollBatch b \<Rightarrow> [b] | _ \<Rightarrow> [])"

lemma poll_reader: "source_reader (poll_read now poll) (poll_offers poll)"
proof
  fix L h w x rr err w' x'
  assume "poll_read now poll L h w x = ((rr, err), w', x')"
  then show "\<exists>r. feed h (poll_offers poll L w) x = (r, x') \<and> (\<forall>e. r = Inl e \<longrightarrow> err = Some e)"
    by (auto simp: poll_read_def poll_offers_def emit_batch_def split: prod.splits polled.splits sum.splits)
qed

text \<open>The rows with bad quality, as both sources count them.\<close>

definition bad_rows :: "Row list \<Rightarrow> int" where
  "bad_rows rows = int (length (filter (\<lambda>row. row_get row ''quality'' = VString ''bad'') rows))"

end
