(* ===== verification/GoTime.thy ===== *)
theory GoTime
  imports Contracts
begin

text \<open>
  The part of the package \<^verbatim>\<open>time\<close> the watermarks go through: \<^verbatim>\<open>Format(time.RFC3339Nano)\<close> of a time in
  UTC and \<^verbatim>\<open>time.Parse(time.RFC3339Nano, s)\<close>, on the proleptic Gregorian calendar. An instant is its
  number of nanoseconds since the Unix epoch. The main lemma is that parsing reads back what
  formatting writes, for every instant of the years 1 to 9999.
\<close>

section \<open>The calendar\<close>

definition is_leap :: "int \<Rightarrow> bool" where
  "is_leap y \<longleftrightarrow> y mod 4 = 0 \<and> (y mod 100 \<noteq> 0 \<or> y mod 400 = 0)"

definition month_lengths :: "int \<Rightarrow> int list" where
  "month_lengths y = [31, if is_leap y then 29 else 28, 31, 30, 31, 30, 31, 31, 30, 31, 30, 31]"

text \<open>Days from 0001-01-01 to the first day of a year.\<close>

definition days_before_year :: "int \<Rightarrow> int" where
  "days_before_year y = (let k = y - 1 in 365 * k + k div 4 - k div 100 + k div 400)"

text \<open>The year of a day counted from 0001-01-01, and the day within the year.\<close>

definition year_day :: "int \<Rightarrow> int \<times> int" where
  "year_day d =
     (let n400 = d div 146097; d = d mod 146097;
          n100 = min 3 (d div 36524); d = d - 36524 * n100;
          n4 = d div 1461; d = d mod 1461;
          n1 = min 3 (d div 365); d = d - 365 * n1
      in (400 * n400 + 100 * n100 + 4 * n4 + n1 + 1, d))"

fun month_day :: "int list \<Rightarrow> int \<Rightarrow> int \<Rightarrow> int \<times> int" where
  "month_day [] m d = (m, d + 1)"
| "month_day [n] m d = (m, d + 1)"
| "month_day (n # n' # ns) m d = (if d < n then (m, d + 1) else month_day (n' # ns) (m + 1) (d - n))"

definition day_number :: "int \<Rightarrow> int \<Rightarrow> int \<Rightarrow> int" where
  "day_number y m d = days_before_year y + sum_list (take (nat (m - 1)) (month_lengths y)) + (d - 1)"

lemma year_day:
  assumes "year_day n = (y, d)"
  shows "days_before_year y + d = n" and "0 \<le> d" and "d < sum_list (month_lengths y)"
proof -
  define a r where "a = n div 146097" and "r = n mod 146097"
  define b r1 where "b = min 3 (r div 36524)" and "r1 = r - 36524 * b"
  define c r2 where "c = r1 div 1461" and "r2 = r1 mod 1461"
  define e where "e = min 3 (r2 div 365)"
  have n: "n = 146097 * a + 36524 * b + 1461 * c + r2"
    unfolding a_def r_def b_def r1_def c_def r2_def by (simp add: algebra_simps)
  have r: "0 \<le> r" "r < 146097"
    unfolding r_def by auto
  have b: "0 \<le> b" "b \<le> 3" "0 \<le> r1" "r1 \<le> 36524" "b = 3 \<or> r1 < 36524"
    using r unfolding b_def r1_def by linarith+
  have r1: "r1 = 1461 * c + r2"
    unfolding c_def r2_def by simp
  have c: "0 \<le> c" "c \<le> 24" and r2: "0 \<le> r2" "r2 < 1461"
    using b(3,4) unfolding c_def r2_def by linarith+
  have e: "0 \<le> e" "e \<le> 3"
    using r2 unfolding e_def by auto
  have y: "y = 400 * a + 100 * b + 4 * c + e + 1" and d: "d = r2 - 365 * e"
    using assms unfolding year_day_def Let_def a_def r_def b_def r1_def c_def r2_def e_def by auto
  have "(y - 1) div 4 = 100 * a + 25 * b + c" "(y - 1) div 100 = 4 * a + b" "(y - 1) div 400 = a"
    using b c e unfolding y by linarith+
  then show "days_before_year y + d = n"
    unfolding days_before_year_def Let_def d n by (simp add: y)
  show "0 \<le> d"
    using r2 unfolding d e_def by linarith
  have "d < 365 \<or> d = 365 \<and> r2 = 1460 \<and> e = 3"
    using r2 unfolding d e_def by linarith
  moreover have "is_leap y" if "r2 = 1460" "e = 3"
  proof -
    have *: "y = 4 * (100 * a + 25 * b + c + 1)"
      unfolding y that by simp
    show ?thesis
    proof (cases "c = 24")
      case True
      then have "b = 3"
        using b(5) r1 that(1) by linarith
      then have "y = 400 * (a + 1)"
        unfolding * True by simp
      then show ?thesis
        by (simp add: is_leap_def)
    next
      case False
      have "y = 4 * (c + 1) + 100 * (4 * a + b)"
        unfolding * by simp
      then have "y mod 100 = 4 * (c + 1) mod 100"
        by (simp only: mod_mult_self2)
      then have "y mod 100 \<noteq> 0"
        using c False by simp
      then show ?thesis
        unfolding is_leap_def * by simp
    qed
  qed
  moreover have "sum_list (month_lengths y) = 365 + (if is_leap y then 1 else 0)"
    by (simp add: month_lengths_def)
  ultimately show "d < sum_list (month_lengths y)"
    by auto
qed

lemma month_day:
  assumes "month_day ns m d = (m', d')" and "0 \<le> d" and "d < sum_list ns" and "ns \<noteq> []"
  shows "m \<le> m' \<and> m' < m + int (length ns) \<and> 1 \<le> d' \<and> d' \<le> ns ! nat (m' - m) \<and>
         sum_list (take (nat (m' - m)) ns) + (d' - 1) = d"
  using assms
proof (induction ns m d rule: month_day.induct)
  case (3 n n' ns m d)
  show ?case
  proof (cases "d < n")
    case False
    then have IH: "m + 1 \<le> m' \<and> m' < m + 1 + int (length (n' # ns)) \<and> 1 \<le> d' \<and> d' \<le> (n' # ns) ! nat (m' - (m + 1)) \<and>
         sum_list (take (nat (m' - (m + 1))) (n' # ns)) + (d' - 1) = d - n"
      using 3 by simp
    then have "nat (m' - m) = Suc (nat (m' - (m + 1)))"
      by linarith
    then show ?thesis
      using IH by simp
  qed (use 3 in auto)
qed auto

section \<open>Durations\<close>

text \<open>\<^verbatim>\<open>t.Sub(u)\<close>: a \<^verbatim>\<open>Duration\<close> is a 64-bit count of nanoseconds and saturates.\<close>

definition time_Sub :: "gtime \<Rightarrow> gtime \<Rightarrow> int" where
  "time_Sub t u = max (- (2 ^ 63)) (min (2 ^ 63 - 1) (t - u))"

text \<open>\<^verbatim>\<open>Milliseconds()\<close>: integer division, which truncates towards zero.\<close>

definition Milliseconds :: "int \<Rightarrow> int" where
  "Milliseconds d = (if d < 0 then - ((- d) div 1000000) else d div 1000000)"

section \<open>Formatting\<close>

definition second_ns :: int where "second_ns = 1000000000"
definition day_ns :: int where "day_ns = 86400 * second_ns"

text \<open>Days from 0001-01-01 to 1970-01-01.\<close>

definition epoch_day :: int where "epoch_day = 719162"

text \<open>A number with leading zeros to a given width.\<close>

fun pad :: "nat \<Rightarrow> int \<Rightarrow> string" where
  "pad 0 n = []"
| "pad (Suc w) n = pad w (n div 10) @ [char_of (48 + nat (n mod 10))]"

text \<open>The fraction of a second: nine digits without the trailing zeros, nothing when it is zero.\<close>

definition frac :: "int \<Rightarrow> string" where
  "frac ns = (if ns = 0 then [] else CHR ''.'' # rev (dropWhile (\<lambda>c. c = CHR ''0'') (rev (pad 9 ns))))"

definition format_rfc3339 :: "gtime \<Rightarrow> string" where
  "format_rfc3339 t =
     (let (y, yd) = year_day (t div day_ns + epoch_day);
          (m, d) = month_day (month_lengths y) 1 yd;
          ns = t mod day_ns; s = ns div second_ns
      in pad 4 y @ ''-'' @ pad 2 m @ ''-'' @ pad 2 d @ ''T'' @
         pad 2 (s div 3600) @ '':'' @ pad 2 (s div 60 mod 60) @ '':'' @ pad 2 (s mod 60) @
         frac (ns mod second_ns) @ ''Z'')"

section \<open>Parsing\<close>

text \<open>A field of exactly \<open>w\<close> digits (\<^verbatim>\<open>getnum\<close> with \<^verbatim>\<open>fixed\<close>), and the rest.\<close>

fun getnum :: "nat \<Rightarrow> int \<Rightarrow> string \<Rightarrow> (int \<times> string) option" where
  "getnum 0 acc s = Some (acc, s)"
| "getnum (Suc w) acc [] = None"
| "getnum (Suc w) acc (c # s) = (if is_digit c then getnum w (10 * acc + (of_char c - 48)) s else None)"

definition expect :: "char \<Rightarrow> string \<Rightarrow> string option" where
  "expect c s = (case s of [] \<Rightarrow> None | d # t \<Rightarrow> if d = c then Some t else None)"

text \<open>The hour is the one field that may have a single digit.\<close>

definition gethour :: "string \<Rightarrow> (int \<times> string) option" where
  "gethour s = (case getnum 2 0 s of Some r \<Rightarrow> Some r | None \<Rightarrow> getnum 1 0 s)"

text \<open>A fraction: a period or comma and digits, of which the first nine count.\<close>

definition getfrac :: "string \<Rightarrow> int \<times> string" where
  "getfrac s =
     (case s of
        c # d # t \<Rightarrow>
          if (c = CHR ''.'' \<or> c = CHR '','') \<and> is_digit d then
            (let ds = takeWhile is_digit (d # t)
             in (digits_val (take 9 ds) * 10 ^ (9 - length (take 9 ds)), dropWhile is_digit (d # t)))
          else (0, s)
      | _ \<Rightarrow> (0, s))"

text \<open>\<^verbatim>\<open>Z\<close> or an offset \<^verbatim>\<open>+hh:mm\<close>, in seconds.\<close>

definition getzone :: "string \<Rightarrow> (int \<times> string) option" where
  "getzone s =
     (case s of
        [] \<Rightarrow> None
      | c # t \<Rightarrow>
          if c = CHR ''Z'' then Some (0, t)
          else if c = CHR ''+'' \<or> c = CHR ''-'' then
            Option.bind (getnum 2 0 t) (\<lambda>(h, t).
            Option.bind (expect CHR '':'' t) (\<lambda>t.
            Option.bind (getnum 2 0 t) (\<lambda>(m, t).
            if h \<le> 24 \<and> m \<le> 60 then Some ((if c = CHR ''-'' then - 1 else 1) * (h * 3600 + m * 60), t) else None)))
          else None)"

definition parse_rfc3339 :: "string \<Rightarrow> gtime option" where
  "parse_rfc3339 s =
     Option.bind (getnum 4 0 s) (\<lambda>(y, s).
     Option.bind (expect CHR ''-'' s) (\<lambda>s.
     Option.bind (getnum 2 0 s) (\<lambda>(mo, s).
     Option.bind (expect CHR ''-'' s) (\<lambda>s.
     Option.bind (getnum 2 0 s) (\<lambda>(d, s).
     Option.bind (expect CHR ''T'' s) (\<lambda>s.
     Option.bind (gethour s) (\<lambda>(h, s).
     Option.bind (expect CHR '':'' s) (\<lambda>s.
     Option.bind (getnum 2 0 s) (\<lambda>(mi, s).
     Option.bind (expect CHR '':'' s) (\<lambda>s.
     Option.bind (getnum 2 0 s) (\<lambda>(sec, s).
     let (ns, s) = getfrac s in
     Option.bind (getzone s) (\<lambda>(off, s).
     if s = [] \<and> 1 \<le> mo \<and> mo \<le> 12 \<and> 1 \<le> d \<and> d \<le> month_lengths y ! nat (mo - 1) \<and>
        h < 24 \<and> mi < 60 \<and> sec < 60
     then Some ((day_number y mo d - epoch_day) * day_ns + (h * 3600 + mi * 60 + sec - off) * second_ns + ns)
     else None))))))))))))"

definition time_Parse :: "string \<Rightarrow> gtime res" where
  "time_Parse s = (case parse_rfc3339 s of Some t \<Rightarrow> Inr t
                   | None \<Rightarrow> Inl (Errorf ''parsing time %q'' [AStr s]))"

section \<open>Parsing what was formatted\<close>

lemma of_char_digit [simp]:
  fixes d :: int
  assumes "0 \<le> d" and "d < 10"
  shows "of_char (char_of (48 + nat d)) = 48 + d"
proof -
  have "(of_char (char_of (48 + nat d)) :: nat) = 48 + nat d"
    using assms by simp
  then have "int (of_char (char_of (48 + nat d))) = 48 + d"
    using assms by simp
  then show ?thesis
    by (simp only: of_nat_of_char)
qed

lemma is_digit_pad [simp]: "is_digit (char_of (48 + nat (n mod 10)))" for n :: int
proof -
  have "0 \<le> n mod 10" "n mod 10 < 10" by auto
  then show ?thesis
    by (auto simp: is_digit_def)
qed

lemma getnum_add: "getnum (w + v) acc s = Option.bind (getnum w acc s) (\<lambda>(a, t). getnum v a t)"
  by (induction w acc s rule: getnum.induct) auto

lemma getnum_pad: "0 \<le> n \<Longrightarrow> n < 10 ^ w \<Longrightarrow> getnum w acc (pad w n @ s) = Some (acc * 10 ^ w + n, s)"
proof (induction w arbitrary: n s)
  case (Suc w)
  then have "getnum w acc (pad w (n div 10) @ char_of (48 + nat (n mod 10)) # s)
             = Some (acc * 10 ^ w + n div 10, char_of (48 + nat (n mod 10)) # s)"
    by (simp add: int_div_less_self div_less_iff_less_mult)
  then show ?case
    using getnum_add [of w 1 acc "pad (Suc w) n @ s"] by (simp add: algebra_simps)
qed simp

lemmas getnum_pad0 = getnum_pad [where acc = 0, simplified]

lemma length_pad [simp]: "length (pad w n) = w"
  by (induction w arbitrary: n) auto

lemma pad_digits: "list_all is_digit (pad w n)"
  by (induction w arbitrary: n) auto

lemma digits_val_snoc: "digits_val (xs @ [c]) = 10 * digits_val xs + (of_char c - 48)"
  by (simp add: digits_val_def)

lemma digits_val_pad: "0 \<le> n \<Longrightarrow> n < 10 ^ w \<Longrightarrow> digits_val (pad w n) = n"
proof (induction w arbitrary: n)
  case (Suc w)
  then show ?case
    by (simp add: digits_val_snoc div_less_iff_less_mult)
qed (simp add: digits_val_def)

lemma digits_val_zeros: "digits_val (xs @ replicate k CHR ''0'') = digits_val xs * 10 ^ k"
proof (induction k)
  case (Suc k)
  have "replicate (Suc k) CHR ''0'' = replicate k CHR ''0'' @ [CHR ''0'']"
    by (simp add: replicate_append_same)
  then show ?case
    using Suc digits_val_snoc [of "xs @ replicate k CHR ''0''" "CHR ''0''"] by simp
qed simp

lemma takeWhile_eq_replicate: "takeWhile (\<lambda>c. c = x) xs = replicate (length (takeWhile (\<lambda>c. c = x) xs)) x"
  by (induction xs) auto

lemma getfrac_frac:
  assumes "0 \<le> ns" and "ns < 10 ^ 9"
  shows "getfrac (frac ns @ ''Z'') = (ns, ''Z'')"
proof (cases "ns = 0")
  case False
  define ds k where "ds = rev (dropWhile (\<lambda>c. c = CHR ''0'') (rev (pad 9 ns)))"
    and "k = length (takeWhile (\<lambda>c. c = CHR ''0'') (rev (pad 9 ns)))"
  have "takeWhile (\<lambda>c. c = CHR ''0'') (rev (pad 9 ns)) = replicate k CHR ''0''"
    unfolding k_def by (rule takeWhile_eq_replicate)
  then have "rev (pad 9 ns) = replicate k CHR ''0'' @ rev ds"
    using takeWhile_dropWhile_id [of "\<lambda>c. c = CHR ''0''" "rev (pad 9 ns)"] unfolding ds_def by simp
  then have "rev (rev (pad 9 ns)) = rev (replicate k CHR ''0'' @ rev ds)"
    by (rule arg_cong)
  then have pad: "pad 9 ns = ds @ replicate k CHR ''0''"
    by (simp only: rev_append rev_replicate rev_rev_ident)
  then have val: "digits_val ds * 10 ^ k = ns" and len: "length ds + k = 9" and dig: "list_all is_digit ds"
    using digits_val_pad [OF assms] digits_val_zeros [of ds k] length_pad [of 9 ns] pad_digits [of 9 ns]
    by (simp_all del: pad.simps)
  then obtain d t where ds: "ds = d # t"
    using False by (cases ds) (auto simp: digits_val_def)
  have "\<not> is_digit CHR ''Z''"
    by (simp add: is_digit_def)
  then have "takeWhile is_digit (ds @ ''Z'') = ds" "dropWhile is_digit (ds @ ''Z'') = ''Z''"
    using dig by (simp_all add: list_all_iff)
  moreover have "k = 9 - length ds" "take 9 ds = ds"
    using len by simp_all
  moreover have "frac ns = CHR ''.'' # ds"
    using False by (simp add: frac_def ds_def)
  ultimately show ?thesis
    using ds dig val by (simp add: getfrac_def Let_def)
qed (simp add: frac_def getfrac_def)

lemma day_ns_pos [simp]: "0 < day_ns" "0 < second_ns"
  by (simp_all add: day_ns_def second_ns_def)

definition min_time :: gtime where "min_time = - epoch_day * day_ns"
definition max_time :: gtime where "max_time = 2932897 * day_ns"

text \<open>From 0001-01-01 up to, and without, 10000-01-01.\<close>

lemma div_bounds:
  fixes q k :: int
  assumes "0 < q"
  shows "q * (k div q) \<le> k" and "k < q * (k div q) + q"
  using mult_div_mod_eq [of q k] pos_mod_sign [OF assms, of k] pos_mod_bound [OF assms, of k] by linarith+

lemma year_hi:
  fixes p q r k :: int
  assumes "k < 4 * p + 4" and "100 * q \<le> k" and "k < 400 * r + 400" and "365 * k + p - q + r < 3652059"
  shows "k < 10000"
proof (rule ccontr)
  assume "\<not> k < 10000"
  then have "400 * (365 * k + p - q + r) > 400 * 365 * k + 100 * (k - 4) - 4 * k + (k - 400)"
    using assms by linarith
  with \<open>\<not> k < 10000\<close> show False
    using assms by linarith
qed

lemma year_lo:
  fixes p q r k :: int
  assumes "4 * p \<le> k" and "k < 100 * q + 100" and "400 * r \<le> k" and "- 366 < 365 * k + p - q + r"
  shows "- 2 < k"
  using assms by linarith

lemma year_range:
  assumes "min_time \<le> t" and "t < max_time" and "year_day (t div day_ns + epoch_day) = (y, yd)"
  shows "1 \<le> y \<and> y \<le> 9999"
proof -
  have "t = 86400000000000 * (t div day_ns) + t mod day_ns" "0 \<le> t mod day_ns" "t mod day_ns < 86400000000000"
    by (simp_all add: day_ns_def second_ns_def)
  moreover have "- 62135596800000000000 \<le> t" "t < 253402300800000000000"
    using assms(1,2) by (simp_all add: min_time_def max_time_def epoch_day_def day_ns_def second_ns_def)
  ultimately have "t div day_ns + epoch_day < 3652059" "0 \<le> t div day_ns + epoch_day"
    unfolding epoch_day_def by linarith+
  moreover have "t div day_ns + epoch_day = days_before_year y + yd" "0 \<le> yd" "yd < 366"
    using year_day [OF assms(3)] by (auto simp: month_lengths_def split: if_splits)
  ultimately have "days_before_year y < 3652059" "- 366 < days_before_year y"
    by linarith+
  then have lo: "- 366 < 365 * (y - 1) + (y - 1) div 4 - (y - 1) div 100 + (y - 1) div 400"
    and hi: "365 * (y - 1) + (y - 1) div 4 - (y - 1) div 100 + (y - 1) div 400 < 3652059"
    unfolding days_before_year_def Let_def by simp_all
  have "y \<noteq> 10000" "y \<noteq> 0"
    using lo hi by auto
  moreover have "y - 1 < 10000" "- 2 < y - 1"
    using year_hi [OF div_bounds(2) div_bounds(1) div_bounds(2) hi] year_lo [OF div_bounds(1) div_bounds(2) div_bounds(1) lo]
    by simp_all
  ultimately show ?thesis
    by linarith
qed

lemma parse_format:
  assumes "min_time \<le> t" and "t < max_time"
  shows "parse_rfc3339 (format_rfc3339 t) = Some t"
proof -
  obtain y yd where yd: "year_day (t div day_ns + epoch_day) = (y, yd)" by fastforce
  obtain m d where md: "month_day (month_lengths y) 1 yd = (m, d)" by fastforce
  define ns s where "ns = t mod day_ns" and "s = ns div second_ns"
  have y: "0 \<le> y" "y < 10 ^ 4"
    using year_range [OF assms yd] by auto
  have "length (month_lengths y) = 12" "month_lengths y \<noteq> []"
    by (simp_all add: month_lengths_def)
  then have m: "1 \<le> m" "m \<le> 12" and d: "1 \<le> d" "d \<le> month_lengths y ! nat (m - 1)"
    and sum: "sum_list (take (nat (m - 1)) (month_lengths y)) + (d - 1) = yd"
    using month_day [OF md year_day(2,3) [OF yd]] by auto
  have "month_lengths y ! nat (m - 1) \<in> set (month_lengths y)"
    using m \<open>length (month_lengths y) = 12\<close> by (intro nth_mem) linarith
  then have "month_lengths y ! nat (m - 1) \<le> 31"
    by (auto simp: month_lengths_def split: if_splits)
  then have md2: "0 \<le> m" "m < 10 ^ 2" "0 \<le> d" "d < 10 ^ 2"
    using m d by simp_all
  have ns: "0 \<le> ns" "ns < 86400 * second_ns"
    unfolding ns_def by (simp_all add: day_ns_def)
  then have s: "0 \<le> s" "s < 86400"
    unfolding s_def second_ns_def by simp_all
  then have hms: "0 \<le> s div 3600" "s div 3600 < 24" "0 \<le> s div 60 mod 60" "s div 60 mod 60 < 60" "0 \<le> s mod 60" "s mod 60 < 60"
    by simp_all
  have fr: "0 \<le> ns mod second_ns" "ns mod second_ns < 10 ^ 9"
    by (simp_all add: second_ns_def)
  have ftext: "format_rfc3339 t = pad 4 y @ ''-'' @ pad 2 m @ ''-'' @ pad 2 d @ ''T'' @
         pad 2 (s div 3600) @ '':'' @ pad 2 (s div 60 mod 60) @ '':'' @ pad 2 (s mod 60) @
         frac (ns mod second_ns) @ ''Z''"
    unfolding format_rfc3339_def yd md Let_def case_prod_conv ns_def s_def by simp
  have "(10 :: int) ^ 2 = 100" by simp
  then have hms2: "s div 3600 < 10 ^ 2" "s div 60 mod 60 < 10 ^ 2" "s mod 60 < 10 ^ 2"
    using hms by linarith+
  note f = getnum_pad0 [OF y] getnum_pad0 [OF md2(1,2)] getnum_pad0 [OF md2(3,4)] getnum_pad0 [OF hms(1) hms2(1)]
    getnum_pad0 [OF hms(3) hms2(2)] getnum_pad0 [OF hms(5) hms2(3)]
  have e: "expect c (c # r) = Some r" for c r
    by (simp add: expect_def)
  have total: "(day_number y m d - epoch_day) * day_ns + (s div 3600 * 3600 + s div 60 mod 60 * 60 + s mod 60 - 0) * second_ns
        + ns mod second_ns = t"
  proof -
    have "day_number y m d - epoch_day = t div day_ns"
      using year_day(1) [OF yd] sum by (simp add: day_number_def)
    moreover have "s div 3600 * 3600 + s div 60 mod 60 * 60 + s mod 60 = s"
    proof -
      have "s div 3600 = s div 60 div 60"
        using zdiv_zmult2_eq [of 60 s 60] by simp
      then show ?thesis
        using div_mult_mod_eq [of "s div 60" 60] div_mult_mod_eq [of s 60] by linarith
    qed
    moreover have "s * second_ns + ns mod second_ns = ns"
      by (simp add: s_def)
    ultimately show ?thesis
      unfolding ns_def by (simp add: add.assoc)
  qed
  show ?thesis
    unfolding ftext parse_rfc3339_def gethour_def
    using m d hms(2,4,6) total
    by (simp add: f e getfrac_frac [OF fr] getzone_def del: getnum.simps pad.simps)
qed

end
