(* ===== verification/Url.thy ===== *)
theory Url
  imports Prelude
begin

text \<open>
  The part of \<^verbatim>\<open>net/url\<close> the sources build their connection strings with: percent-encoding by component,
  user information, query values and the text of a URL that has a scheme, a host and a path; and the
  reading of such a text by percent-decoding, with the round trip between the two.
\<close>

section \<open>Percent-encoding\<close>

datatype encoding = encodePath | encodeUserPassword | encodeHost | encodeQueryComponent

definition unreserved :: "char \<Rightarrow> bool" where
  "unreserved c \<longleftrightarrow> (let n = of_char c :: nat in 97 \<le> n \<and> n \<le> 122 \<or> 65 \<le> n \<and> n \<le> 90 \<or> 48 \<le> n \<and> n \<le> 57) \<or>
     c \<in> set ''-_.~''"

definition shouldEscape :: "encoding \<Rightarrow> char \<Rightarrow> bool" where
  "shouldEscape mode c =
     (if unreserved c then False
      else if mode = encodeHost \<and> c \<in> set [CHR ''!'', CHR ''$'', CHR ''&'', CHR 0x27, CHR ''('', CHR '')'', CHR ''*'',
           CHR ''+'', CHR '','', CHR '';'', CHR ''='', CHR '':'', CHR ''['', CHR '']'', CHR ''<'', CHR ''>'', CHR 0x22] then False
      else if c \<in> set ''$&+,/:;=?@'' then
        (case mode of
           encodePath \<Rightarrow> c = CHR ''?''
         | encodeUserPassword \<Rightarrow> c \<in> set ''@/?:''
         | encodeQueryComponent \<Rightarrow> True
         | encodeHost \<Rightarrow> True)
      else True)"

definition upper_hex :: "nat \<Rightarrow> char" where
  "upper_hex n = (if n < 10 then char_of (48 + n) else char_of (55 + n))"

definition escape_char :: "encoding \<Rightarrow> char \<Rightarrow> string" where
  "escape_char mode c =
     (if \<not> shouldEscape mode c then [c]
      else if c = CHR '' '' \<and> mode = encodeQueryComponent then ''+''
      else let n = of_char c :: nat in [CHR ''%'', upper_hex (n div 16), upper_hex (n mod 16)])"

definition escape :: "encoding \<Rightarrow> string \<Rightarrow> string" where
  "escape mode s = concat (map (escape_char mode) s)"

section \<open>URLs\<close>

text \<open>\<open>Userinfo\<close>: the user name and, if one was set, the password.\<close>

record URL =
  u_Scheme :: string
  u_User :: "(string \<times> string option) option"
  u_Host :: string
  u_Path :: string
  u_RawQuery :: string

definition Userinfo_String :: "string \<times> string option \<Rightarrow> string" where
  "Userinfo_String = (\<lambda>(user, pw). escape encodeUserPassword user @
     (case pw of None \<Rightarrow> [] | Some p \<Rightarrow> CHR '':'' # escape encodeUserPassword p))"

text \<open>\<^verbatim>\<open>URL.String\<close> of a URL with a scheme and a host, and a path that is empty or starts with a slash.\<close>

definition URL_String :: "URL \<Rightarrow> string" where
  "URL_String u = u_Scheme u @ ''://'' @
     (case u_User u of None \<Rightarrow> [] | Some ui \<Rightarrow> Userinfo_String ui @ ''@'') @
     escape encodeHost (u_Host u) @ escape encodePath (u_Path u) @
     (if u_RawQuery u = [] then [] else CHR ''?'' # u_RawQuery u)"

text \<open>\<^verbatim>\<open>url.Values\<close> with one value for each key.\<close>

definition Values_Set :: "string \<Rightarrow> string \<Rightarrow> strmap \<Rightarrow> strmap" where
  "Values_Set k v q = filter (\<lambda>(a, _). a \<noteq> k) q @ [(k, v)]"

definition Values_Encode :: "strmap \<Rightarrow> string" where
  "Values_Encode q = Join (map (\<lambda>k. escape encodeQueryComponent k @ ''='' @ escape encodeQueryComponent (get_str q k))
                             (sorted_keys q)) ''&''"

section \<open>Reading a URL\<close>

definition unhex :: "char \<Rightarrow> nat" where
  "unhex c = (let n = of_char c in if n \<le> 57 then n - 48 else n - 55)"

fun unescape :: "bool \<Rightarrow> string \<Rightarrow> string" where
  "unescape q [] = []"
| "unescape q (c # s) =
     (if c = CHR ''%'' then
        (case s of a # b # r \<Rightarrow> char_of (unhex a * 16 + unhex b) # unescape q r | _ \<Rightarrow> c # unescape q s)
      else if q \<and> c = CHR ''+'' then CHR '' '' # unescape q s
      else c # unescape q s)"

definition cut :: "char \<Rightarrow> string \<Rightarrow> string \<times> string" where
  "cut c s = (takeWhile (\<lambda>x. x \<noteq> c) s, tl (dropWhile (\<lambda>x. x \<noteq> c) s))"

definition read_pair :: "string \<Rightarrow> string \<times> string" where
  "read_pair s = (case cut (CHR ''='') s of (k, v) \<Rightarrow> (unescape True k, unescape True v))"

definition read_query :: "string \<Rightarrow> strmap" where
  "read_query s = (if s = [] then [] else map read_pair (split_on (CHR ''&'') s))"

definition read_user :: "string \<Rightarrow> string \<times> string option" where
  "read_user s = (case cut (CHR '':'') s of (u, p) \<Rightarrow>
     (unescape False u, if CHR '':'' \<in> set s then Some (unescape False p) else None))"

text \<open>The scheme, the user, the host, the path and the query of a URL.\<close>

definition read_url :: "string \<Rightarrow> string \<times> (string \<times> string option) option \<times> string \<times> string \<times> strmap" where
  "read_url s =
     (let (scheme, r) = cut (CHR '':'') s;
          (hier, query) = cut (CHR ''?'') (drop 2 r);
          auth = takeWhile (\<lambda>x. x \<noteq> CHR ''/'') hier;
          path = dropWhile (\<lambda>x. x \<noteq> CHR ''/'') hier;
          (user, host) = (if CHR ''@'' \<in> set auth
                          then (let (u, h) = cut (CHR ''@'') auth in (Some (read_user u), h))
                          else (None, auth))
      in (scheme, user, unescape False host, unescape False path, read_query query))"

section \<open>The round trip\<close>

lemma byte_div: "(of_char c :: nat) div 16 < 16"
  using nat_of_char_less_256 [of c] by (simp add: less_mult_imp_div_less)

lemma unhex_upper_hex: "n < 16 \<Longrightarrow> unhex (upper_hex n) = n"
  by (auto simp: unhex_def upper_hex_def Let_def)

lemma upper_hex_unreserved: "n < 16 \<Longrightarrow> unreserved (upper_hex n)"
  by (auto simp: unreserved_def upper_hex_def Let_def)

lemma escaped_percent [simp]: "shouldEscape mode (CHR ''%'')"
  by (cases mode) (simp_all add: shouldEscape_def unreserved_def)

lemma unescape_escape_char:
  "unescape (mode = encodeQueryComponent) (escape_char mode c @ s) = c # unescape (mode = encodeQueryComponent) s"
proof (cases "shouldEscape mode c")
  case False
  then have "c \<noteq> CHR ''%''" by auto
  moreover have "c \<noteq> CHR ''+''" if "mode = encodeQueryComponent"
    using False that by (auto simp: shouldEscape_def unreserved_def)
  ultimately show ?thesis
    using False by (auto simp: escape_char_def)
next
  case True
  have "unhex (upper_hex (of_char c div 16)) * 16 + unhex (upper_hex (of_char c mod 16)) = of_char c"
    using unhex_upper_hex [OF byte_div] unhex_upper_hex [of "of_char c mod 16"] by simp
  then show ?thesis
    using True by (simp add: escape_char_def Let_def)
qed

lemma unescape_escape: "unescape (mode = encodeQueryComponent) (escape mode s) = s"
  by (induction s) (simp_all add: escape_def unescape_escape_char)

lemma unescape_escape_query [simp]: "unescape True (escape encodeQueryComponent s) = s"
  using unescape_escape [of encodeQueryComponent s] by simp

lemma unescape_escape_plain [simp]: "mode \<noteq> encodeQueryComponent \<Longrightarrow> unescape False (escape mode s) = s"
  using unescape_escape [of mode s] by simp

text \<open>An encoded text has no character its component must not have.\<close>

lemma escape_no:
  assumes "shouldEscape mode x" and "\<not> unreserved x" and "x \<noteq> CHR ''%''" and "x \<noteq> CHR ''+''"
  shows "x \<notin> set (escape mode s)"
proof -
  have "x \<notin> set (escape_char mode c)" for c
    using assms upper_hex_unreserved [OF byte_div] upper_hex_unreserved [of "of_char c mod 16"]
    by (auto simp: escape_char_def Let_def)
  then show ?thesis
    by (auto simp: escape_def)
qed

lemma escape_clean [simp]:
  "CHR ''@'' \<notin> set (escape encodeUserPassword s)" "CHR ''/'' \<notin> set (escape encodeUserPassword s)"
  "CHR ''?'' \<notin> set (escape encodeUserPassword s)" "CHR '':'' \<notin> set (escape encodeUserPassword s)"
  "CHR ''@'' \<notin> set (escape encodeHost s)" "CHR ''/'' \<notin> set (escape encodeHost s)" "CHR ''?'' \<notin> set (escape encodeHost s)"
  "CHR ''?'' \<notin> set (escape encodePath s)"
  "CHR ''='' \<notin> set (escape encodeQueryComponent s)" "CHR ''&'' \<notin> set (escape encodeQueryComponent s)"
  by (rule escape_no; simp add: shouldEscape_def unreserved_def)+

lemma cut_append [simp]: "c \<notin> set s \<Longrightarrow> cut c (s @ c # t) = (s, t)"
  by (auto simp: cut_def takeWhile_append dropWhile_append)

lemma cut_none [simp]: "c \<notin> set s \<Longrightarrow> cut c s = (s, [])"
proof -
  assume "c \<notin> set s"
  then have w: "takeWhile (\<lambda>x. x \<noteq> c) s = s" "dropWhile (\<lambda>x. x \<noteq> c) s = []"
    by (auto simp: takeWhile_eq_all_conv dropWhile_eq_Nil_conv)
  show ?thesis
    unfolding cut_def w by simp
qed

lemma read_pair_encoded [simp]:
  "read_pair (escape encodeQueryComponent k @ CHR ''='' # escape encodeQueryComponent v) = (k, v)"
  by (simp add: read_pair_def)

lemma split_on_Join:
  "ws \<noteq> [] \<Longrightarrow> (\<And>w. w \<in> set ws \<Longrightarrow> c \<notin> set w) \<Longrightarrow> split_on c (Join ws [c]) = ws"
  by (induction ws "[c]" rule: Join.induct) (simp_all add: split_on_id split_on_append)

lemma read_query_encode: "read_query (Values_Encode q) = map (\<lambda>k. (k, get_str q k)) (sorted_keys q)"
proof (cases "sorted_keys q = []")
  case False
  let ?enc = "\<lambda>k. escape encodeQueryComponent k @ ''='' @ escape encodeQueryComponent (get_str q k)"
  have "Values_Encode q \<noteq> []"
    using False by (cases "sorted_keys q" rule: list.exhaust; cases "tl (sorted_keys q)") (auto simp: Values_Encode_def)
  moreover have "split_on (CHR ''&'') (Values_Encode q) = map ?enc (sorted_keys q)"
    unfolding Values_Encode_def using False by (intro split_on_Join) auto
  ultimately show ?thesis
    by (simp add: read_query_def)
qed (simp add: Values_Encode_def read_query_def)

lemma read_user_String: "read_user (Userinfo_String ui) = ui"
  by (cases ui) (auto simp: read_user_def Userinfo_String_def split: option.splits)

lemma userinfo_clean: "c \<in> set (Userinfo_String ui) \<Longrightarrow> c \<notin> {CHR ''@'', CHR ''/'', CHR ''?''}"
  by (cases ui) (auto simp: Userinfo_String_def split: option.splits)

lemma escape_path_slash: "escape encodePath (CHR ''/'' # p) = CHR ''/'' # escape encodePath p"
  by (simp add: escape_def escape_char_def shouldEscape_def unreserved_def)

lemma takeWhile_break: "c \<notin> set s \<Longrightarrow> (t = [] \<or> (\<exists>t'. t = c # t')) \<Longrightarrow>
    takeWhile (\<lambda>x. x \<noteq> c) (s @ t) = s \<and> dropWhile (\<lambda>x. x \<noteq> c) (s @ t) = t"
  by (auto simp: takeWhile_append dropWhile_append)

text \<open>
  Reading the text of a URL gives back its parts, whatever bytes the user, the password, the host, the
  path and the query values contain.
\<close>

lemma read_url_String:
  assumes "CHR '':'' \<notin> set (u_Scheme u)" and "u_Path u = [] \<or> (\<exists>p. u_Path u = CHR ''/'' # p)"
    and "u_RawQuery u = Values_Encode q"
  shows "read_url (URL_String u) =
    (u_Scheme u, u_User u, u_Host u, u_Path u, map (\<lambda>k. (k, get_str q k)) (sorted_keys q))"
proof -
  define ui where "ui = (case u_User u of None \<Rightarrow> [] | Some x \<Rightarrow> Userinfo_String x @ ''@'')"
  define host path rq where "host = escape encodeHost (u_Host u)" and "path = escape encodePath (u_Path u)"
    and "rq = (if u_RawQuery u = [] then [] else CHR ''?'' # u_RawQuery u)"
  have ui: "c \<in> set ui \<Longrightarrow> c \<notin> {CHR ''/'', CHR ''?''}" for c
    using userinfo_clean by (auto simp: ui_def split: option.splits)
  have path: "path = [] \<or> (\<exists>t'. path = CHR ''/'' # t')"
    using assms(2) escape_path_slash by (auto simp: path_def escape_def)
  have hier: "CHR ''?'' \<notin> set (ui @ host @ path)" "CHR ''/'' \<notin> set (ui @ host)"
    using ui by (auto simp: host_def path_def)
  have s: "URL_String u = u_Scheme u @ CHR '':'' # CHR ''/'' # CHR ''/'' # ui @ host @ path @ rq"
    by (simp add: URL_String_def ui_def host_def path_def rq_def)
  have 1: "cut (CHR '':'') (URL_String u) = (u_Scheme u, CHR ''/'' # CHR ''/'' # ui @ host @ path @ rq)"
    unfolding s by (rule cut_append) (rule assms(1))
  have 2: "cut (CHR ''?'') (ui @ host @ path @ rq) = (ui @ host @ path, u_RawQuery u)"
    using cut_append [OF hier(1), of "u_RawQuery u"] cut_none [OF hier(1)] by (auto simp: rq_def)
  have 3: "takeWhile (\<lambda>x. x \<noteq> CHR ''/'') (ui @ host @ path) = ui @ host"
    "dropWhile (\<lambda>x. x \<noteq> CHR ''/'') (ui @ host @ path) = path"
    using takeWhile_break [OF hier(2) path] by simp_all
  have 4: "(if CHR ''@'' \<in> set (ui @ host) then (let (a, h) = cut (CHR ''@'') (ui @ host) in (Some (read_user a), h))
            else (None, ui @ host)) = (u_User u, host)"
  proof (cases "u_User u")
    case None
    then show ?thesis by (simp add: ui_def host_def)
  next
    case (Some x)
    have "CHR ''@'' \<notin> set (Userinfo_String x)"
      using userinfo_clean [of "CHR ''@''" x] by auto
    then show ?thesis
      using Some by (simp add: ui_def read_user_String)
  qed
  show ?thesis
    unfolding read_url_def Let_def 1
    using 2 3 4 assms(3) by (auto simp: host_def path_def read_query_encode split: prod.splits if_splits)
qed

lemma get_str_Values_Set [simp]: "get_str (Values_Set k v q) j = (if j = k then v else get_str q j)"
proof -
  have "map_of (filter (\<lambda>(a, _). a \<noteq> k) q) j = (if j = k then None else map_of q j)"
    by (induction q) auto
  then show ?thesis
    by (auto simp: get_str_def Values_Set_def map_add_def split: option.splits)
qed

lemma keys_Values_Set [simp]: "fst ` set (Values_Set k v q) = insert k (fst ` set q)"
  by (force simp: Values_Set_def)

text \<open>The value of a key in the query that is read back.\<close>

lemma read_query_value:
  assumes "k \<in> fst ` set q"
  shows "map_of (map (\<lambda>k. (k, get_str q k)) (sorted_keys q)) k = Some (get_str q k)"
  using assms by (simp add: map_of_map_restrict)

end
