(* ===== verification/SqlSource.thy ===== *)
theory SqlSource
  imports SourceObjects GoTime Url "HOL-Library.Multiset"
begin

text \<open>
  What the SQL sources share: the part of \<^verbatim>\<open>database/sql\<close> they call, as a record of the driver's operations; \<^verbatim>\<open>strconv.FormatFloat\<close>; and the loop that
  cuts a result set into batches, with its reference definition.
\<close>

section \<open>The driver\<close>

text \<open>
  A result set: the columns (name, type name, nullable), what \<^verbatim>\<open>Scan\<close> gives for each row that \<^verbatim>\<open>Next\<close> reaches,
  and \<^verbatim>\<open>Err\<close> after the last. It is fixed when the query returns, and it is finite.
\<close>

record sql_rows =
  rws_cols :: "(string \<times> string \<times> bool) list res"
  rws_scans :: "gval list res list"
  rws_err :: "gerr option"

text \<open>
  \<open>sd_QueryTime\<close> and \<open>sd_QueryString\<close> are \<^verbatim>\<open>QueryRowContext(...).Scan\<close> into a \<^verbatim>\<open>sql.NullTime\<close> and a
  \<^verbatim>\<open>sql.NullString\<close>. The limits set by \<^verbatim>\<open>SetMaxOpenConns\<close> and \<^verbatim>\<open>SetConnMaxLifetime\<close> do not change a result and
  are left out.
\<close>

record 'd sql_driver =
  sd_Open :: "string \<Rightarrow> ('d, nat) act"
  sd_Ping :: "nat \<Rightarrow> ('d, unit) act"
  sd_Close :: "nat \<Rightarrow> ('d, unit) act"
  sd_QueryTime :: "nat \<Rightarrow> string \<Rightarrow> ('d, gtime option) act"
  sd_QueryString :: "nat \<Rightarrow> string \<Rightarrow> ('d, string option) act"
  sd_Query :: "nat \<Rightarrow> string \<Rightarrow> gval list \<Rightarrow> ('d, sql_rows) act"
  sd_CloseRows :: "nat \<Rightarrow> 'd \<Rightarrow> 'd"
  sd_Now :: "'d \<Rightarrow> gtime \<times> 'd"

definition now_ext :: "'d sql_driver \<Rightarrow> 'd objs \<Rightarrow> gtime \<times> 'd objs" where
  "now_ext D w = (case sd_Now D (so_ext w) of (t, d) \<Rightarrow> (t, w\<lparr> so_ext := d \<rparr>))"

definition close_rows :: "'d sql_driver \<Rightarrow> nat \<Rightarrow> 'd objs \<Rightarrow> 'd objs" where
  "close_rows D obj w = (case so_conn w obj of None \<Rightarrow> w | Some c \<Rightarrow> w\<lparr> so_ext := sd_CloseRows D c (so_ext w) \<rparr>)"

text \<open>The condition of a first run: the watermark is initialised and no row is read.\<close>

definition first_run :: "LoadConfig \<Rightarrow> bool" where
  "first_run load \<longleftrightarrow> lc_Mode load = LoadModeDelta \<and> lc_WatermarkColumn load \<noteq> [] \<and>
     lc_WatermarkType load \<noteq> WatermarkNone \<and> wm_Value (lc_LastWatermark load) = []"

section \<open>strconv.FormatFloat(x, 'f', -1, 64)\<close>

text \<open>
  The shortest decimal that is read back as \<open>x\<close>, and of those the closest to \<open>x\<close> (the even one of two), without
  an exponent.
  \<open>dec_le d q m e\<close> compares \<open>d * 10^q\<close> with \<open>m * 2^e\<close>. A decimal is read back as \<open>m * 2^e\<close> when it is within
  half a unit in the last place, the unit below a power of two being half as large.
\<close>

definition dec_le :: "nat \<Rightarrow> int \<Rightarrow> nat \<Rightarrow> int \<Rightarrow> bool" where
  "dec_le d q m e \<longleftrightarrow> d * 10 ^ nat q * 2 ^ nat (- e) \<le> m * 2 ^ nat e * 10 ^ nat (- q)"

definition dec_lt :: "nat \<Rightarrow> int \<Rightarrow> nat \<Rightarrow> int \<Rightarrow> bool" where
  "dec_lt d q m e \<longleftrightarrow> d * 10 ^ nat q * 2 ^ nat (- e) < m * 2 ^ nat e * 10 ^ nat (- q)"

definition reads_as :: "nat \<Rightarrow> int \<Rightarrow> nat \<Rightarrow> int \<Rightarrow> bool" where
  "reads_as m e d q =
     (let lo = (if m = 2 ^ 52 \<and> -1074 < e then (4 * m - 1, e - 2) else (2 * m - 1, e - 1));
          hi = (2 * m + 1, e - 1) in
      if even m then \<not> dec_lt d q (fst lo) (snd lo) \<and> dec_le d q (fst hi) (snd hi)
      else \<not> dec_le d q (fst lo) (snd lo) \<and> dec_lt d q (fst hi) (snd hi))"

definition dec_floor :: "nat \<Rightarrow> int \<Rightarrow> int \<Rightarrow> nat" where
  "dec_floor m e q = (m * 2 ^ nat e * 10 ^ nat (- q)) div (2 ^ nat (- e) * 10 ^ nat q)"

text \<open>\<open>m * 2^e < 10^k\<close>, for the least \<open>k\<close>; the largest double is below \<open>10^309\<close>, the least positive one above \<open>10^-324\<close>.\<close>

definition dec_exp :: "nat \<Rightarrow> int \<Rightarrow> int" where
  "dec_exp m e = (case List.find (\<lambda>k. \<not> dec_le 1 k m e) [-323..309] of Some k \<Rightarrow> k | None \<Rightarrow> 310)"

definition candidate :: "nat \<Rightarrow> int \<Rightarrow> int \<Rightarrow> nat option" where
  "candidate m e q =
     (let d = dec_floor m e q in
      if reads_as m e d q \<and> reads_as m e (d + 1) q
      then Some (if dec_lt (2 * d + 1) q (2 * m) e \<or> dec_le (2 * d + 1) q (2 * m) e \<and> odd d then d + 1 else d)
      else if reads_as m e d q then Some d
      else if reads_as m e (d + 1) q then Some (d + 1)
      else None)"

fun shortest :: "nat \<Rightarrow> int \<Rightarrow> int \<Rightarrow> nat list \<Rightarrow> nat \<times> int" where
  "shortest m e k [] = (dec_floor m e (k - 17), k - 17)"
| "shortest m e k (p # ps) =
     (case candidate m e (k - int p) of Some d \<Rightarrow> (d, k - int p) | None \<Rightarrow> shortest m e k ps)"

definition fixed_point :: "nat \<Rightarrow> int \<Rightarrow> string" where
  "fixed_point d q =
     (if 0 \<le> q then nat_digits d @ replicate (nat q) (CHR ''0'')
      else let n = nat (- q); ds = nat_digits d;
               full = replicate (Suc n - length ds) (CHR ''0'') @ ds in
           take (length full - n) full @ ''.'' @ drop (length full - n) full)"

fun FormatFloat :: "f64 \<Rightarrow> string" where
  "FormatFloat NaN = ''NaN''"
| "FormatFloat (Inf s) = (if s then ''-Inf'' else ''+Inf'')"
| "FormatFloat (Fin s m e) =
     (if s then ''-'' else []) @
     (if m = 0 then ''0'' else case shortest m e (dec_exp m e) [1..<18] of (d, q) \<Rightarrow> fixed_point d q)"

section \<open>Cutting a result set into batches\<close>

text \<open>The row of the scanned values, normalised by the canonical type of their columns.\<close>

definition scan_row :: "(gval \<Rightarrow> string \<Rightarrow> gval) \<Rightarrow> Column list \<Rightarrow> gval list \<Rightarrow> Row" where
  "scan_row norm cs vals = foldl (\<lambda>row (c, v). row(c_Name c \<mapsto> norm v (c_DataType c))) Map.empty (zip cs vals)"

definition batch_size :: "LoadConfig \<Rightarrow> int" where
  "batch_size load = (if lc_BatchSize load \<le> 0 then 1000 else lc_BatchSize load)"

text \<open>
  The loop \<^verbatim>\<open>for rows.Next()\<close>: \<open>acc\<close> are the rows of the batch so far, \<open>cnt\<close> the rows read. \<open>wr\<close> is what the source
  makes of an error of \<^verbatim>\<open>Scan\<close>. The handler is done with a batch when it returns, so that the source may
  reuse its slice is not visible.
\<close>

fun scan_loop :: "(gval list \<Rightarrow> Row) \<Rightarrow> (gerr \<Rightarrow> gerr) \<Rightarrow> Column list \<Rightarrow> int \<Rightarrow> 'x BatchHandler \<Rightarrow> gval list res list \<Rightarrow>
    Row list \<Rightarrow> int \<Rightarrow> 'x \<Rightarrow> (gerr option \<times> Row list \<times> int) \<times> 'x" where
  "scan_loop mk wr cs n h [] acc cnt x = ((None, acc, cnt), x)"
| "scan_loop mk wr cs n h (Inl e # ss) acc cnt x = ((Some (wr e), acc, cnt), x)"
| "scan_loop mk wr cs n h (Inr vals # ss) acc cnt x =
     (let acc' = acc @ [mk vals] in
      if n \<le> int (length acc') then
        (case h \<lparr> b_Columns = cs, b_Rows = acc' \<rparr> x of
           (Inl e, x') \<Rightarrow> ((Some e, acc', cnt + 1), x')
         | (Inr _, x') \<Rightarrow> scan_loop mk wr cs n h ss [] (cnt + 1) x')
      else scan_loop mk wr cs n h ss acc' (cnt + 1) x)"

text \<open>The loop, \<^verbatim>\<open>rows.Err\<close> and the last batch: the number of rows read, or the error.\<close>

definition read_rows :: "(gval list \<Rightarrow> Row) \<Rightarrow> (gerr \<Rightarrow> gerr) \<Rightarrow> (gerr \<Rightarrow> gerr) \<Rightarrow> Column list \<Rightarrow> int \<Rightarrow> 'x BatchHandler \<Rightarrow>
    sql_rows \<Rightarrow> ('x, int) act" where
  "read_rows mk wr we cs n h rws x =
     (case scan_loop mk wr cs n h (rws_scans rws) [] 0 x of
        ((Some e, acc, cnt), x1) \<Rightarrow> (Inl e, x1)
      | ((None, acc, cnt), x1) \<Rightarrow>
          (case rws_err rws of
             Some e \<Rightarrow> (Inl (we e), x1)
           | None \<Rightarrow>
               if acc = [] then (Inr cnt, x1)
               else (case h \<lparr> b_Columns = cs, b_Rows = acc \<rparr> x1 of
                       (Inl e, x2) \<Rightarrow> (Inl e, x2)
                     | (Inr _, x2) \<Rightarrow> (Inr cnt, x2))))"

subsection \<open>The reference\<close>

text \<open>The list in pieces of \<open>n\<close>, the last one shorter; \<open>whole\<close> leaves out a shorter last one.\<close>

fun chunks :: "nat \<Rightarrow> 'a list \<Rightarrow> 'a list list" where
  "chunks n [] = []"
| "chunks n (x # xs) = (x # take (n - 1) xs) # chunks n (drop (n - 1) xs)"

definition whole :: "nat \<Rightarrow> 'a list list \<Rightarrow> 'a list list" where
  "whole n = filter (\<lambda>c. length c = n)"

fun good_rows :: "gval list res list \<Rightarrow> gval list list" where
  "good_rows [] = []"
| "good_rows (Inl e # ss) = []"
| "good_rows (Inr v # ss) = v # good_rows ss"

text \<open>The whole result set could be read.\<close>

definition complete :: "sql_rows \<Rightarrow> bool" where
  "complete rws \<longleftrightarrow> (\<forall>s \<in> set (rws_scans rws). \<not> isl s) \<and> rws_err rws = None"

definition row_batches :: "(gval list \<Rightarrow> Row) \<Rightarrow> Column list \<Rightarrow> int \<Rightarrow> sql_rows \<Rightarrow> Batch list" where
  "row_batches mk cs n rws =
     (let cks = chunks (nat n) (map mk (good_rows (rws_scans rws))) in
      map (\<lambda>rs. \<lparr> b_Columns = cs, b_Rows = rs \<rparr>) (if complete rws then cks else whole (nat n) cks))"

lemma whole_simps [simp]: "whole n [] = []" "whole n (xs @ ys) = whole n xs @ whole n ys"
  by (simp_all add: whole_def)

lemma chunks_take: "0 < n \<Longrightarrow> xs \<noteq> [] \<Longrightarrow> chunks n xs = take n xs # chunks n (drop n xs)"
  by (cases xs; cases n) auto

lemma chunks_short: "length xs < n \<Longrightarrow> chunks n xs = (if xs = [] then [] else [xs])"
  by (cases xs) auto

lemma chunks_append: "length xs = n \<Longrightarrow> 0 < n \<Longrightarrow> chunks n (xs @ ys) = xs # chunks n ys"
  by (subst chunks_take) auto

lemma chunks_concat: "concat (chunks n xs) = xs"
  by (induction n xs rule: chunks.induct) auto

lemma chunks_length: "0 < n \<Longrightarrow> c \<in> set (chunks n xs) \<Longrightarrow> 0 < length c \<and> length c \<le> n"
  by (induction n xs rule: chunks.induct) auto

lemma scan_loop_feed:
  assumes "0 < n" and "int (length acc) < n" and "scan_loop mk wr cs n h ss acc cnt x = ((e, acc', cnt'), x')"
  shows "case e of
      None \<Rightarrow> (\<forall>s \<in> set ss. \<not> isl s) \<and> cnt' = cnt + int (length ss) \<and> int (length acc') < n \<and>
        (\<exists>cks. chunks (nat n) (acc @ map mk (good_rows ss)) = cks @ (if acc' = [] then [] else [acc']) \<and>
               whole (nat n) cks = cks \<and> feed h (map (\<lambda>rs. \<lparr> b_Columns = cs, b_Rows = rs \<rparr>) cks) x = (Inr (), x'))
    | Some err \<Rightarrow>
        (\<exists>cks q more. chunks (nat n) (acc @ map mk (good_rows ss)) = cks @ more \<and> whole (nat n) cks = cks \<and>
           feed h (map (\<lambda>rs. \<lparr> b_Columns = cs, b_Rows = rs \<rparr>) cks) x = (q, x') \<and>
           (q = Inl err \<or> q = Inr () \<and> whole (nat n) more = [] \<and> (\<exists>s \<in> set ss. isl s)))"
  using assms
proof (induction mk wr cs n h ss acc cnt x rule: scan_loop.induct)
  case (1 mk wr cs n h acc cnt x)
  then show ?case
    by (auto simp: chunks_short whole_def)
next
  case (2 mk wr cs n h err ss acc cnt x)
  then have "e = Some (wr err)" "x' = x" "whole (nat n) (chunks (nat n) acc) = []"
    by (auto simp: chunks_short whole_def split: if_splits)
  then show ?case
    by (auto intro!: exI [of _ "[]"])
next
  case (3 mk wr cs n h vals ss acc cnt x)
  let ?acc = "acc @ [mk vals]" and ?B = "map (\<lambda>rs. \<lparr> b_Columns = cs, b_Rows = rs \<rparr>)"
  show ?case
  proof (cases "n \<le> int (length ?acc)")
    case False
    then have "scan_loop mk wr cs n h ss ?acc (cnt + 1) x = ((e, acc', cnt'), x')"
      using 3(5) by (auto simp: Let_def)
    from 3(2) [OF refl False 3(3) _ this] False show ?thesis
      by (auto split: option.splits)
  next
    case True
    with 3(3,4) have len: "length ?acc = nat n" "0 < nat n"
      by auto
    have ck: "chunks (nat n) (acc @ map mk (good_rows (Inr vals # ss))) = ?acc # chunks (nat n) (map mk (good_rows ss))"
      using chunks_append [OF len] by simp
    obtain r x1 where h: "h \<lparr> b_Columns = cs, b_Rows = ?acc \<rparr> x = (r, x1)"
      by fastforce
    show ?thesis
    proof (cases r)
      case (Inl err)
      then have "e = Some err" "x' = x1"
        using 3(5) True h by (auto simp: Let_def)
      moreover have "feed h (?B [?acc]) x = (Inl err, x1)" "whole (nat n) [?acc] = [?acc]"
        using h Inl len by (simp_all add: whole_def)
      ultimately show ?thesis
        unfolding ck by (auto intro!: exI [of _ "[?acc]"])
    next
      case (Inr u)
      then have "scan_loop mk wr cs n h ss [] (cnt + 1) x1 = ((e, acc', cnt'), x')"
        using 3(5) True h by (auto simp: Let_def)
      note IH = 3(1) [OF refl True h [symmetric] Inr 3(3) _ this]
      have fd: "feed h (?B (?acc # cks)) x = feed h (?B cks) x1" "whole (nat n) (?acc # cks) = ?acc # whole (nat n) cks" for cks
        using h Inr len by (simp_all add: whole_def)
      show ?thesis
      proof (cases e)
        case None
        then obtain cks where "chunks (nat n) (map mk (good_rows ss)) = cks @ (if acc' = [] then [] else [acc'])"
          "whole (nat n) cks = cks" "feed h (?B cks) x1 = (Inr (), x')"
          and *: "\<forall>s \<in> set ss. \<not> isl s" "cnt' = cnt + 1 + int (length ss)" "int (length acc') < n"
          using IH 3(3) by auto
        then show ?thesis
          unfolding ck using None fd by (auto intro!: exI [of _ "?acc # cks"])
      next
        case (Some err)
        then obtain cks q more where "chunks (nat n) (map mk (good_rows ss)) = cks @ more"
          "whole (nat n) cks = cks" "feed h (?B cks) x1 = (q, x')"
          and "q = Inl err \<or> q = Inr () \<and> whole (nat n) more = [] \<and> (\<exists>s \<in> set ss. isl s)"
          using IH 3(3) by auto
        then show ?thesis
          unfolding ck using Some fd by (auto intro!: exI [of _ "?acc # cks"])
      qed
    qed
  qed
qed

lemma feed_append_Inl: "feed h as x = (Inl e, x') \<Longrightarrow> feed h (as @ bs) x = (Inl e, x')"
  by (simp add: feed_append bindA_def)

lemma feed_append_Inr: "feed h as x = (Inr (), x') \<Longrightarrow> feed h (as @ bs) x = feed h bs x'"
  by (simp add: feed_append bindA_def)

text \<open>
  The loop hands the handler the reference's batches one after the other. It returns the handler's error
  if there is one; otherwise it returns the number of rows if the result set could be read, and an error
  if not.
\<close>

lemma read_rows_feed:
  assumes "0 < n" and "read_rows mk wr we cs n h rws x = (r, x')"
  shows "\<exists>q. feed h (row_batches mk cs n rws) x = (q, x') \<and>
    (case q of Inl e \<Rightarrow> r = Inl e
     | Inr _ \<Rightarrow> if complete rws then r = Inr (int (length (rws_scans rws))) else isl r)"
proof -
  let ?B = "map (\<lambda>rs. \<lparr> b_Columns = cs, b_Rows = rs \<rparr>)"
  let ?cks = "chunks (nat n) (map mk (good_rows (rws_scans rws)))"
  obtain e acc cnt x1 where l: "scan_loop mk wr cs n h (rws_scans rws) [] 0 x = ((e, acc, cnt), x1)"
    by (metis prod.exhaust)
  note L = scan_loop_feed [OF assms(1) _ l]
  show ?thesis
  proof (cases e)
    case (Some err)
    then have r: "r = Inl err" "x' = x1"
      using assms(2) l by (auto simp: read_rows_def)
    obtain cks q more where ck: "?cks = cks @ more" "whole (nat n) cks = cks" "feed h (?B cks) x = (q, x')"
      and q: "q = Inl err \<or> q = Inr () \<and> whole (nat n) more = [] \<and> (\<exists>s \<in> set (rws_scans rws). isl s)"
      using L Some r assms(1) by auto
    show ?thesis
    proof (cases "q = Inl err")
      case True
      then show ?thesis
        using ck r feed_append_Inl [of h "?B cks" x err x'] by (auto simp: row_batches_def)
    next
      case False
      then have "\<not> complete rws" "whole (nat n) more = []" "q = Inr ()"
        using q by (auto simp: complete_def)
      then show ?thesis
        using ck r by (auto simp: row_batches_def)
    qed
  next
    case None
    then obtain cks where ck: "?cks = cks @ (if acc = [] then [] else [acc])" "whole (nat n) cks = cks"
      "feed h (?B cks) x = (Inr (), x1)" and ok: "\<forall>s \<in> set (rws_scans rws). \<not> isl s"
      and cnt: "cnt = int (length (rws_scans rws))" and acc: "int (length acc) < n"
      using L assms(1) by auto
    show ?thesis
    proof (cases "rws_err rws")
      case (Some err)
      then have "r = Inl (we err)" "x' = x1" "\<not> complete rws"
        using assms(2) l None by (auto simp: read_rows_def complete_def)
      moreover have "whole (nat n) (if acc = [] then [] else [acc]) = []"
        using acc assms(1) by (auto simp: whole_def split: if_splits)
      ultimately show ?thesis
        using ck by (auto simp: row_batches_def)
    next
      case no: None
      then have co: "complete rws"
        using ok by (simp add: complete_def)
      show ?thesis
        using assms(2) l None no ck cnt co feed_append_Inr [OF ck(3), of "?B [acc]"]
        by (cases "acc = []"; cases "fst (h \<lparr> b_Columns = cs, b_Rows = acc \<rparr> x1)")
           (auto simp: read_rows_def row_batches_def split: prod.splits sum.splits)
    qed
  qed
qed

lemma batch_size_pos: "0 < batch_size load"
  by (simp add: batch_size_def)

lemma read_rows_reader:
  assumes "0 < n" and "read_rows mk wr we cs n h rws x = (r, x')"
  shows "\<exists>q. feed h (row_batches mk cs n rws) x = (q, x') \<and> (\<forall>e. q = Inl e \<longrightarrow> r = Inl e)"
proof -
  obtain q where "feed h (row_batches mk cs n rws) x = (q, x')"
    and "case q of Inl e \<Rightarrow> r = Inl e
     | Inr _ \<Rightarrow> if complete rws then r = Inr (int (length (rws_scans rws))) else isl r"
    using read_rows_feed [OF assms] by blast
  then show ?thesis
    by (intro exI [of _ q]) auto
qed

lemma good_rows_complete: "complete rws \<Longrightarrow> rws_scans rws = map Inr (good_rows (rws_scans rws))"
proof -
  have "\<forall>s \<in> set ss. \<not> isl s \<Longrightarrow> ss = map Inr (good_rows ss)" for ss
    by (induction ss rule: good_rows.induct) auto
  then show "complete rws \<Longrightarrow> ?thesis"
    by (simp add: complete_def)
qed

lemma read_rows_ok:
  assumes "0 < n" and "read_rows mk wr we cs n h rws x = (Inr m, x')"
  shows "complete rws \<and> m = int (length (good_rows (rws_scans rws))) \<and>
    feed h (row_batches mk cs n rws) x = (Inr (), x') \<and>
    concat (map b_Rows (row_batches mk cs n rws)) = map mk (good_rows (rws_scans rws))"
proof -
  obtain q where q: "feed h (row_batches mk cs n rws) x = (q, x')"
    and c: "case q of Inl e \<Rightarrow> Inr m = Inl e
     | Inr _ \<Rightarrow> if complete rws then Inr m = (Inr (int (length (rws_scans rws))) :: int res) else isl (Inr m :: int res)"
    using read_rows_feed [OF assms] by blast
  then have co: "complete rws" "m = int (length (rws_scans rws))" "q = Inr ()"
    by (auto split: sum.splits if_splits)
  then have "length (rws_scans rws) = length (good_rows (rws_scans rws))"
    using good_rows_complete by (metis length_map)
  with co q show ?thesis
    by (simp add: row_batches_def Let_def comp_def chunks_concat)
qed

text \<open>No batch is empty, and none has more rows than the batch size.\<close>

lemma row_batches_size:
  assumes "0 < n" and "b \<in> set (row_batches mk cs n rws)"
  shows "b_Rows b \<noteq> [] \<and> int (length (b_Rows b)) \<le> n \<and> b_Columns b = cs"
proof -
  obtain rs where "rs \<in> set (chunks (nat n) (map mk (good_rows (rws_scans rws))))" "b = \<lparr> b_Columns = cs, b_Rows = rs \<rparr>"
    using assms(2) by (auto simp: row_batches_def Let_def whole_def split: if_splits)
  then show ?thesis
    using chunks_length [of "nat n" rs] assms(1) by force
qed

section \<open>The shape of a read\<close>

text \<open>
  Both SQL sources read in the same way: a first run takes the greatest value and reads nothing, any other
  run sends its query and cuts the result set into batches. \<open>sql_read\<close> is that shape; \<open>sql_offers\<close> is what
  such a read has to offer.
\<close>

definition sql_read :: "'d sql_driver \<Rightarrow> nat \<Rightarrow> (LoadConfig \<Rightarrow> ('d objs, Watermark) act) \<Rightarrow>
    (LoadConfig \<Rightarrow> ('d objs, sql_rows \<times> Watermark) act) \<Rightarrow> (gerr \<Rightarrow> gerr) \<Rightarrow>
    ((string \<times> string \<times> bool) list \<Rightarrow> Column list) \<Rightarrow> (gval \<Rightarrow> string \<Rightarrow> gval) \<Rightarrow> (gerr \<Rightarrow> gerr) \<Rightarrow> (gerr \<Rightarrow> gerr) \<Rightarrow>
    ('d objs, 'x) ReadFn" where
  "sql_read D obj init query wc columns norm wr we load h w x =
     (case now_ext D w of (t0, w0) \<Rightarrow>
      let result = new_ReadResult t0 in
      if first_run load then
        (case init load w0 of
           (Inl e, w1) \<Rightarrow> ((result, Some e), w1, x)
         | (Inr upper, w1) \<Rightarrow>
             (case now_ext D w1 of (t, w2) \<Rightarrow>
                ((result\<lparr> rr_NewWatermark := upper, rr_WatermarkInit := True, rr_FinishedAt := t \<rparr>, None), w2, x)))
      else
        (case query load w0 of
           (Inl e, w1) \<Rightarrow> ((result, Some e), w1, x)
         | (Inr (rws, newWM), w1) \<Rightarrow>
             (case rws_cols rws of
                Inl e \<Rightarrow> ((result, Some (wc e)), close_rows D obj w1, x)
              | Inr cts \<Rightarrow>
                  let cs = columns cts in
                  (case read_rows (scan_row norm cs) wr we cs (batch_size load) h rws x of
                     (Inl e, x') \<Rightarrow> ((result, Some e), close_rows D obj w1, x')
                   | (Inr n, x') \<Rightarrow>
                       (case now_ext D w1 of (t, w2) \<Rightarrow>
                          ((result\<lparr> rr_RowsRead := n, rr_NewWatermark := newWM, rr_FinishedAt := t \<rparr>, None),
                           close_rows D obj w2, x'))))))"

definition sql_offers :: "'d sql_driver \<Rightarrow> (LoadConfig \<Rightarrow> ('d objs, sql_rows \<times> Watermark) act) \<Rightarrow>
    ((string \<times> string \<times> bool) list \<Rightarrow> Column list) \<Rightarrow> (gval \<Rightarrow> string \<Rightarrow> gval) \<Rightarrow> LoadConfig \<Rightarrow> 'd objs \<Rightarrow> Batch list" where
  "sql_offers D query columns norm load w =
     (if first_run load then []
      else case fst (query load (snd (now_ext D w))) of
        Inl _ \<Rightarrow> []
      | Inr (rws, _) \<Rightarrow>
          (case rws_cols rws of
             Inl _ \<Rightarrow> []
           | Inr cts \<Rightarrow> row_batches (scan_row norm (columns cts)) (columns cts) (batch_size load) rws))"

text \<open>The ways out of a read that is not a first run.\<close>

lemma sql_read_cases:
  assumes "sql_read D obj init query wc columns norm wr we load h w x = ((rr, err), w', x')" and "\<not> first_run load"
  obtains e where "err = Some e" "x' = x" "sql_offers D query columns norm load w = []" "rr_RowsRead rr = 0"
  | rws newWM w1 cts r where
      "query load (snd (now_ext D w)) = (Inr (rws, newWM), w1)" "rws_cols rws = Inr cts"
      "read_rows (scan_row norm (columns cts)) wr we (columns cts) (batch_size load) h rws x = (r, x')"
      "err = (case r of Inl e \<Rightarrow> Some e | Inr _ \<Rightarrow> None)"
      "\<And>n. r = Inr n \<Longrightarrow> rr_RowsRead rr = n \<and> rr_NewWatermark rr = newWM \<and> \<not> rr_WatermarkInit rr"
      "sql_offers D query columns norm load w =
         row_batches (scan_row norm (columns cts)) (columns cts) (batch_size load) rws"
proof (cases "query load (snd (now_ext D w))")
  case (Pair q w1)
  show thesis
  proof (cases q)
    case (Inl e)
    then show thesis
      using that(1) assms Pair
      by (auto simp: sql_read_def sql_offers_def Let_def new_ReadResult_def split: prod.splits)
  next
    case (Inr rn)
    obtain rws newWM where rn: "rn = (rws, newWM)" by fastforce
    show thesis
    proof (cases "rws_cols rws")
      case cI: (Inl e)
      then show thesis
        using that(1) assms Pair Inr rn
        by (auto simp: sql_read_def sql_offers_def Let_def new_ReadResult_def split: prod.splits)
    next
      case cr: (Inr cts)
      obtain r x1 where rd: "read_rows (scan_row norm (columns cts)) wr we (columns cts) (batch_size load) h rws x = (r, x1)"
        by fastforce
      have st: "x' = x1 \<and> err = (case r of Inl e \<Rightarrow> Some e | Inr _ \<Rightarrow> None) \<and>
          (\<forall>n. r = Inr n \<longrightarrow> rr_RowsRead rr = n \<and> rr_NewWatermark rr = newWM \<and> \<not> rr_WatermarkInit rr)"
        using assms Pair Inr rn cr rd
        by (cases r) (auto simp: sql_read_def Let_def new_ReadResult_def split: prod.splits)
      show thesis
        by (rule that(2) [of rws newWM w1 cts r])
           (use assms(2) Pair Inr rn cr rd st in \<open>auto simp: sql_offers_def\<close>)
    qed
  qed
qed

lemma sql_read_first_run:
  assumes "sql_read D obj init query wc columns norm wr we load h w x = ((rr, err), w', x')" and "first_run load"
  shows "x' = x \<and> rr_RowsRead rr = 0 \<and> sql_offers D query columns norm load w = [] \<and>
    (err = None \<longrightarrow> rr_WatermarkInit rr \<and> fst (init load (snd (now_ext D w))) = Inr (rr_NewWatermark rr))"
  using assms by (auto simp: sql_read_def sql_offers_def Let_def new_ReadResult_def split: prod.splits sum.splits)

lemma sql_reader: "source_reader (sql_read D obj init query wc columns norm wr we) (sql_offers D query columns norm)"
proof
  fix L h w x rr err w' x'
  assume rd: "sql_read D obj init query wc columns norm wr we L h w x = ((rr, err), w', x')"
  show "\<exists>r. feed h (sql_offers D query columns norm L w) x = (r, x') \<and> (\<forall>e. r = Inl e \<longrightarrow> err = Some e)"
  proof (cases "first_run L")
    case True
    then show ?thesis
      using sql_read_first_run [OF rd] by auto
  next
    case False
    from rd False show ?thesis
    proof (cases rule: sql_read_cases)
      case (2 rws newWM w1 cts r)
      then show ?thesis
        using read_rows_reader [OF batch_size_pos 2(3)] by auto
    qed auto
  qed
qed

section \<open>What a query reads\<close>

text \<open>
  The statements the sources send, read back by a lexer for delimited names: all rows of a table, its rows
  with a column above the first and not above the second argument, in order of the column, and the
  greatest value of a column, as the text \<open>pre\<close> and \<open>post\<close> put around it. A dialect is its delimiters, its
  two placeholders and what it writes after the order.
\<close>

record dialect =
  dl_open :: char
  dl_close :: char
  dl_p1 :: string
  dl_p2 :: string
  dl_tail :: string

definition strip_prefix :: "string \<Rightarrow> string \<Rightarrow> string option" where
  "strip_prefix p s = (if take (length p) s = p then Some (drop (length p) s) else None)"

fun lex_parts :: "nat \<Rightarrow> dialect \<Rightarrow> string \<Rightarrow> (string list \<times> string) option" where
  "lex_parts 0 dl s = None"
| "lex_parts (Suc n) dl s =
     (case lex_delim (dl_open dl) (dl_close dl) s of
        None \<Rightarrow> None
      | Some (w, c # t) \<Rightarrow> if c = CHR ''.'' then map_option (\<lambda>(ps, r). (w # ps, r)) (lex_parts n dl t) else Some ([w], c # t)
      | Some (w, []) \<Rightarrow> Some ([w], []))"

definition lex_column :: "dialect \<Rightarrow> string option \<Rightarrow> (string \<times> string) option" where
  "lex_column dl s = Option.bind s (lex_delim (dl_open dl) (dl_close dl))"

definition parse_where :: "dialect \<Rightarrow> string \<Rightarrow> string option" where
  "parse_where dl s =
     Option.bind (lex_column dl (strip_prefix '' WHERE '' s)) (\<lambda>(a, s1).
     Option.bind (lex_column dl (strip_prefix ('' > '' @ dl_p1 dl @ '' AND '') s1)) (\<lambda>(b, s2).
     Option.bind (lex_column dl (strip_prefix ('' <= '' @ dl_p2 dl @ '' ORDER BY '') s2)) (\<lambda>(c, s3).
     if a = b \<and> b = c \<and> s3 = dl_tail dl then Some a else None)))"

definition parse_select :: "dialect \<Rightarrow> string \<Rightarrow> (string list \<times> string option) option" where
  "parse_select dl s =
     Option.bind (Option.bind (strip_prefix ''SELECT * FROM '' s) (lex_parts 2 dl)) (\<lambda>(ps, r).
     if r = [] then Some (ps, None) else map_option (\<lambda>c. (ps, Some c)) (parse_where dl r))"

definition parse_max :: "dialect \<Rightarrow> string \<Rightarrow> string \<Rightarrow> string \<Rightarrow> (string list \<times> string) option" where
  "parse_max dl pre post s =
     Option.bind (lex_column dl (strip_prefix (''SELECT '' @ pre) s)) (\<lambda>(c, r).
     case Option.bind (strip_prefix (post @ '' FROM '') r) (lex_parts 2 dl) of
       Some (ps, []) \<Rightarrow> Some (ps, c)
     | _ \<Rightarrow> None)"

lemma strip_prefix_append [simp]: "strip_prefix p (p @ s) = Some s"
  by (simp add: strip_prefix_def)

lemma lex_parts_Join:
  assumes quote: "\<And>p rest. rest = [] \<or> hd rest \<noteq> dl_close dl \<Longrightarrow>
                   lex_delim (dl_open dl) (dl_close dl) (quote p @ rest) = Some (strip p, rest)"
    and "dl_close dl \<noteq> CHR ''.''" and "ps \<noteq> []" and "length ps \<le> n"
    and "rest = [] \<or> hd rest \<noteq> dl_close dl \<and> hd rest \<noteq> CHR ''.''"
  shows "lex_parts n dl (Join (map quote ps) ''.'' @ rest) = Some (map strip ps, rest)"
  using assms(3,4)
proof (induction ps arbitrary: n)
  case Nil
  then show ?case by simp
next
  case (Cons p ps)
  then obtain m where n: "n = Suc m" and "length ps \<le> m"
    by (cases n) auto
  show ?case
  proof (cases ps)
    case Nil
    then show ?thesis
      using quote [of rest p] n assms(5) by (cases rest) auto
  next
    case (Cons r rs)
    then have "lex_parts m dl (Join (map quote ps) ''.'' @ rest) = Some (map strip ps, rest)"
      using Cons.IH \<open>length ps \<le> m\<close> by simp
    moreover have "lex_delim (dl_open dl) (dl_close dl) (quote p @ ''.'' @ Join (map quote ps) ''.'' @ rest)
                   = Some (strip p, ''.'' @ Join (map quote ps) ''.'' @ rest)"
      by (rule quote) (simp add: assms(2) [symmetric])
    ultimately show ?thesis
      using n Cons by simp
  qed
qed

text \<open>The laws of a dialect: how its quoting function is read back.\<close>

locale quoting =
  fixes dl :: dialect and quote :: "string \<Rightarrow> string" and strip :: "string \<Rightarrow> string"
  assumes quote: "rest = [] \<or> hd rest \<noteq> dl_close dl \<Longrightarrow>
      lex_delim (dl_open dl) (dl_close dl) (quote p @ rest) = Some (strip p, rest)"
    and close: "dl_close dl \<notin> set '' .)''" "dl_tail dl = [] \<or> hd (dl_tail dl) \<noteq> dl_close dl"
begin

lemma parts:
  assumes "ps \<noteq> []" and "length ps \<le> 2" and "rest = [] \<or> hd rest \<in> set '' )''"
  shows "lex_parts 2 dl (Join (map quote ps) ''.'' @ rest) = Some (map strip ps, rest)"
  by (rule lex_parts_Join) (use assms quote close in auto)

lemma column:
  assumes "rest = [] \<or> hd rest \<in> set '' )'' \<or> rest = dl_tail dl"
  shows "lex_column dl (Some (quote c @ rest)) = Some (strip c, rest)"
  using assms close quote [of rest c] by (auto simp: lex_column_def)

lemma parse_full:
  assumes "ps \<noteq> []" and "length ps \<le> 2"
  shows "parse_select dl (''SELECT * FROM '' @ Join (map quote ps) ''.'') = Some (map strip ps, None)"
  using parts [OF assms, of "[]"] strip_prefix_append [of "''SELECT * FROM ''"] by (simp add: parse_select_def)

lemma parse_delta:
  assumes "ps \<noteq> []" and "length ps \<le> 2"
  shows "parse_select dl (''SELECT * FROM '' @ Join (map quote ps) ''.'' @ '' WHERE '' @ quote c @ '' > '' @ dl_p1 dl @ '' AND '' @
           quote c @ '' <= '' @ dl_p2 dl @ '' ORDER BY '' @ quote c @ dl_tail dl) = Some (map strip ps, Some (strip c))"
proof -
  let ?r3 = "quote c @ dl_tail dl"
  let ?r2 = "quote c @ ('' <= '' @ dl_p2 dl @ '' ORDER BY '') @ ?r3"
  let ?r1 = "quote c @ ('' > '' @ dl_p1 dl @ '' AND '') @ ?r2"
  have c1: "lex_column dl (Some ?r1) = Some (strip c, ('' > '' @ dl_p1 dl @ '' AND '') @ ?r2)"
    by (rule column) simp
  have c2: "lex_column dl (Some ?r2) = Some (strip c, ('' <= '' @ dl_p2 dl @ '' ORDER BY '') @ ?r3)"
    by (rule column) simp
  have c3: "lex_column dl (Some ?r3) = Some (strip c, dl_tail dl)"
    by (rule column) simp
  have w: "parse_where dl ('' WHERE '' @ ?r1) = Some (strip c)"
    unfolding parse_where_def strip_prefix_append c1 Option.bind.bind_lunit prod.case c2 c3 by simp
  have p: "lex_parts 2 dl (Join (map quote ps) ''.'' @ '' WHERE '' @ ?r1) = Some (map strip ps, '' WHERE '' @ ?r1)"
    by (rule parts [OF assms]) simp
  have "parse_select dl (''SELECT * FROM '' @ Join (map quote ps) ''.'' @ '' WHERE '' @ ?r1) = Some (map strip ps, Some (strip c))"
    unfolding parse_select_def strip_prefix_append Option.bind.bind_lunit p using w by simp
  then show ?thesis
    by simp
qed

lemma parse_max_text:
  assumes "ps \<noteq> []" and "length ps \<le> 2" and "hd post = CHR '')''"
  shows "parse_max dl pre post ((''SELECT '' @ pre) @ quote c @ (post @ '' FROM '') @ Join (map quote ps) ''.'')
    = Some (map strip ps, strip c)"
proof -
  have c: "lex_column dl (Some (quote c @ (post @ '' FROM '') @ Join (map quote ps) ''.'')) =
      Some (strip c, (post @ '' FROM '') @ Join (map quote ps) ''.'')"
    by (rule column) (use assms(3) in \<open>cases post; simp\<close>)
  show ?thesis
    unfolding parse_max_def strip_prefix_append c Option.bind.bind_lunit prod.case
    using parts [OF assms(1,2), of "[]"] by simp
qed

end

subsection \<open>The contract of the database\<close>

text \<open>
  \<open>tab\<close> are the rows of each table, by the parts of its name; \<open>val\<close> is the value of a column in a row; \<open>gt v a\<close>
  says that the value \<open>v\<close> is above the argument \<open>a\<close> of a query, which a NULL never is. \<open>time_arg\<close> is the argument
  the source makes of a greatest time, \<open>casts\<close> are the texts it puts around a maximum that is read as
  a string. Rows may be added at any time, also by the time a call returns; none disappears.
\<close>

locale sql_tables =
  fixes D :: "'d sql_driver"
    and dl :: dialect
    and casts :: "(string \<times> string) set"
    and time_arg :: "gtime \<Rightarrow> gval"
    and tab :: "'d \<Rightarrow> string list \<Rightarrow> gval list list"
    and val :: "string list \<Rightarrow> string \<Rightarrow> gval list \<Rightarrow> gval"
    and gt :: "gval \<Rightarrow> gval \<Rightarrow> bool"
  assumes gt_nil: "\<not> gt VNil a"
    and full: "sd_Query D c q [] d = (Inr rws, d') \<Longrightarrow> parse_select dl q = Some (ps, None) \<Longrightarrow> complete rws \<Longrightarrow>
      mset (good_rows (rws_scans rws)) = mset (tab d ps)"
    and delta: "sd_Query D c q [lo, hi] d = (Inr rws, d') \<Longrightarrow> parse_select dl q = Some (ps, Some col) \<Longrightarrow> complete rws \<Longrightarrow>
      mset (good_rows (rws_scans rws)) =
      mset (filter (\<lambda>r. gt (val ps col r) lo \<and> \<not> gt (val ps col r) hi) (tab d ps))"
    and max_time: "sd_QueryTime D c q d = (Inr t, d') \<Longrightarrow> parse_max dl ''MAX('' '')'' q = Some (ps, col) \<Longrightarrow>
      r \<in> set (tab d ps) \<Longrightarrow> (case t of None \<Rightarrow> val ps col r = VNil | Some u \<Rightarrow> \<not> gt (val ps col r) (time_arg u))"
    and max_text: "sd_QueryString D c q d = (Inr raw, d') \<Longrightarrow> parse_max dl pre post q = Some (ps, col) \<Longrightarrow>
      (pre, post) \<in> casts \<Longrightarrow> r \<in> set (tab d ps) \<Longrightarrow>
      (case raw of None \<Rightarrow> val ps col r = VNil
       | Some u \<Rightarrow> \<not> gt (val ps col r) (VString u) \<and> \<not> gt (val ps col r) (VString (TrimSpace u)))"
    and grows: "sd_Query D c q args d = (rq, d') \<Longrightarrow> mset (tab d ps) \<subseteq># mset (tab d' ps)"
      "sd_QueryTime D c q d = (rt, d') \<Longrightarrow> mset (tab d ps) \<subseteq># mset (tab d' ps)"
      "sd_QueryString D c q d = (rs, d') \<Longrightarrow> mset (tab d ps) \<subseteq># mset (tab d' ps)"
      "sd_Now D d = (u, d') \<Longrightarrow> mset (tab d ps) \<subseteq># mset (tab d' ps)"
begin

lemma now_grows: "mset (tab (so_ext w) ps) \<subseteq># mset (tab (so_ext (snd (now_ext D w))) ps)"
  using grows(4) [of "so_ext w"] by (simp add: now_ext_def split: prod.splits)

text \<open>
  A delta query reads no row outside its bounds; if its upper bound was the greatest value of an earlier
  state \<open>d1\<close>, it reads every row of that state above its lower bound, as often as it is there.
\<close>

lemma delta_rows:
  assumes q: "sd_Query D c q [lo, hi] d2 = (Inr rws, d3)" "parse_select dl q = Some (ps, Some col)" "complete rws"
    and "\<forall>r \<in> set (tab d1 ps). \<not> gt (val ps col r) hi" and "mset (tab d1 ps) \<subseteq># mset (tab d2 ps)"
  shows "let rows = good_rows (rws_scans rws) in
    (\<forall>r \<in> set rows. gt (val ps col r) lo \<and> \<not> gt (val ps col r) hi) \<and>
    filter_mset (\<lambda>r. gt (val ps col r) lo) (mset (tab d1 ps)) \<subseteq># mset rows"
proof -
  let ?P = "\<lambda>r. gt (val ps col r) lo \<and> \<not> gt (val ps col r) hi"
  note rows = delta [OF q]
  have "filter_mset (\<lambda>r. gt (val ps col r) lo) (mset (tab d1 ps)) = filter_mset ?P (mset (tab d1 ps))"
    using assms(4) by (intro filter_mset_cong) auto
  also have "\<dots> \<subseteq># filter_mset ?P (mset (tab d2 ps))"
    using assms(5) by (rule multiset_filter_mono)
  finally have "filter_mset (\<lambda>r. gt (val ps col r) lo) (mset (tab d1 ps)) \<subseteq># mset (good_rows (rws_scans rws))"
    using rows by (simp add: mset_filter)
  moreover have "set (good_rows (rws_scans rws)) = set (filter ?P (tab d2 ps))"
    using rows by (rule mset_eq_setD)
  ultimately show ?thesis
    by (simp add: Let_def)
qed

end

subsection \<open>A database in memory\<close>

text \<open>
  One table, with the columns \<open>cs\<close>, on a driver that keeps the contract: it gives out connection handles,
  fails on request, and refuses a maximum it cannot write as text.
\<close>

record memsrc =
  mr_table :: "string list"
  mr_rows :: "gval list list"
  mr_next :: nat
  mr_live :: "nat list"
  mr_clock :: gtime
  mr_faults :: "bool list"

fun mem_gt :: "gval \<Rightarrow> gval \<Rightarrow> bool" where
  "mem_gt (VInt k i) (VString s) = (case atoi s of Inr n \<Rightarrow> n < i | Inl _ \<Rightarrow> False)"
| "mem_gt (VTime t) (VString s) = (case parse_rfc3339 s of Some u \<Rightarrow> u < t | None \<Rightarrow> False)"
| "mem_gt (VTime t) (VTime u) = (u < t)"
| "mem_gt _ _ = False"

fun mem_val :: "(string \<times> string \<times> bool) list \<Rightarrow> string \<Rightarrow> gval list \<Rightarrow> gval" where
  "mem_val ((n, ty, nl) # cs) col (v # vs) = (if n = col then v else mem_val cs col vs)"
| "mem_val _ _ _ = VNil"

definition mem_tab :: "memsrc \<Rightarrow> string list \<Rightarrow> gval list list" where
  "mem_tab d ps = (if ps = mr_table d then mr_rows d else [])"

definition mcall_src :: "(memsrc \<Rightarrow> 'a res \<times> memsrc) \<Rightarrow> (memsrc, 'a) act" where
  "mcall_src f d = (case mr_faults d of
      True # fs \<Rightarrow> (Inl (ErrExt ''connection lost''), d\<lparr> mr_faults := fs \<rparr>)
    | False # fs \<Rightarrow> f (d\<lparr> mr_faults := fs \<rparr>)
    | [] \<Rightarrow> f d)"

definition mem_times :: "gval list \<Rightarrow> gtime list" where
  "mem_times vs = concat (map (\<lambda>v. case v of VTime t \<Rightarrow> [t] | _ \<Rightarrow> []) vs)"

definition mem_ints :: "gval list \<Rightarrow> int list" where
  "mem_ints vs = concat (map (\<lambda>v. case v of VInt k i \<Rightarrow> [i] | _ \<Rightarrow> []) vs)"

definition mem_max_time :: "(gtime \<Rightarrow> gval) \<Rightarrow> gval list \<Rightarrow> gtime option res" where
  "mem_max_time targ vs =
     (let m = (case mem_times vs of [] \<Rightarrow> None | t # ts \<Rightarrow> Some (fold max ts t)) in
      if list_all (\<lambda>v. case m of None \<Rightarrow> v = VNil | Some u \<Rightarrow> \<not> mem_gt v (targ u)) vs \<and>
         (case m of None \<Rightarrow> True | Some u \<Rightarrow> min_time \<le> u \<and> u < max_time) then Inr m
      else Inl (ErrExt ''no maximum''))"

definition mem_max_text :: "gval list \<Rightarrow> string option res" where
  "mem_max_text vs =
     (let m = (case mem_ints vs of [] \<Rightarrow> None | i # is \<Rightarrow> Some (itoa (fold max is i))) in
      if list_all (\<lambda>v. case m of None \<Rightarrow> v = VNil
                        | Some s \<Rightarrow> \<not> mem_gt v (VString s) \<and> \<not> mem_gt v (VString (TrimSpace s))) vs then Inr m
      else Inl (ErrExt ''no maximum''))"

definition mem_select :: "dialect \<Rightarrow> (string \<times> string \<times> bool) list \<Rightarrow> string \<Rightarrow> gval list \<Rightarrow> memsrc \<Rightarrow> gval list list res" where
  "mem_select dl cs q args d =
     (case (parse_select dl q, args) of
        (Some (ps, None), []) \<Rightarrow> Inr (mem_tab d ps)
      | (Some (ps, Some col), [lo, hi]) \<Rightarrow>
          Inr (filter (\<lambda>r. mem_gt (mem_val cs col r) lo \<and> \<not> mem_gt (mem_val cs col r) hi) (mem_tab d ps))
      | _ \<Rightarrow> Inl (ErrExt ''syntax error''))"

fun first_parse :: "dialect \<Rightarrow> (string \<times> string) list \<Rightarrow> string \<Rightarrow> (string list \<times> string) option" where
  "first_parse dl [] q = None"
| "first_parse dl ((pre, post) # xs) q =
     (case parse_max dl pre post q of Some r \<Rightarrow> Some r | None \<Rightarrow> first_parse dl xs q)"

definition mem_query_time :: "dialect \<Rightarrow> (gtime \<Rightarrow> gval) \<Rightarrow> (string \<times> string \<times> bool) list \<Rightarrow> string \<Rightarrow> memsrc \<Rightarrow> gtime option res" where
  "mem_query_time dl targ cs q d =
     (case parse_max dl ''MAX('' '')'' q of
        Some (ps, col) \<Rightarrow> mem_max_time targ (map (mem_val cs col) (mem_tab d ps))
      | None \<Rightarrow> Inl (ErrExt ''syntax error''))"

definition mem_query_text :: "dialect \<Rightarrow> (string \<times> string) list \<Rightarrow> (string \<times> string \<times> bool) list \<Rightarrow> string \<Rightarrow> memsrc \<Rightarrow> string option res" where
  "mem_query_text dl casts cs q d =
     (case first_parse dl casts q of
        None \<Rightarrow> Inl (ErrExt ''syntax error'')
      | Some (ps, col) \<Rightarrow>
          if list_all (\<lambda>(pre, post). parse_max dl pre post q \<in> {None, Some (ps, col)}) casts
          then mem_max_text (map (mem_val cs col) (mem_tab d ps))
          else Inl (ErrExt ''ambiguous''))"

definition mem_query_rows :: "dialect \<Rightarrow> (string \<times> string \<times> bool) list \<Rightarrow> string \<Rightarrow> gval list \<Rightarrow> memsrc \<Rightarrow> sql_rows res" where
  "mem_query_rows dl cs q args d =
     (case mem_select dl cs q args d of
        Inl e \<Rightarrow> Inl e
      | Inr rows \<Rightarrow> Inr \<lparr> rws_cols = Inr cs, rws_scans = map Inr rows, rws_err = None \<rparr>)"

definition mem_connect :: "memsrc \<Rightarrow> nat res \<times> memsrc" where
  "mem_connect d = (Inr (mr_next d), d\<lparr> mr_next := mr_next d + 1, mr_live := mr_next d # mr_live d \<rparr>)"

definition mem_driver :: "dialect \<Rightarrow> (string \<times> string) list \<Rightarrow> (gtime \<Rightarrow> gval) \<Rightarrow> (string \<times> string \<times> bool) list \<Rightarrow> memsrc sql_driver" where
  "mem_driver dl casts targ cs =
     \<lparr> sd_Open = (\<lambda>dsn. mcall_src mem_connect),
       sd_Ping = (\<lambda>c. mcall_src (\<lambda>d. (Inr (), d))),
       sd_Close = (\<lambda>c d. (Inr (), d\<lparr> mr_live := filter (\<lambda>x. x \<noteq> c) (mr_live d) \<rparr>)),
       sd_QueryTime = (\<lambda>c q. mcall_src (\<lambda>d. (mem_query_time dl targ cs q d, d))),
       sd_QueryString = (\<lambda>c q. mcall_src (\<lambda>d. (mem_query_text dl casts cs q d, d))),
       sd_Query = (\<lambda>c q args. mcall_src (\<lambda>d. (mem_query_rows dl cs q args d, d))),
       sd_CloseRows = (\<lambda>c d. d),
       sd_Now = (\<lambda>d. (mr_clock d, d\<lparr> mr_clock := mr_clock d + 1 \<rparr>)) \<rparr>"

lemma mem_tab_faults [simp]: "mem_tab (d\<lparr> mr_faults := fs \<rparr>) = mem_tab d"
  by (simp add: mem_tab_def fun_eq_iff)

lemma mcall_read:
  assumes "mcall_src (\<lambda>d. (g d, d)) d = (r, d')"
  shows "mem_tab d' = mem_tab d \<and> (\<forall>v. r = Inr v \<longrightarrow> (\<exists>fs. g (d\<lparr> mr_faults := fs \<rparr>) = Inr v))"
proof (cases "mr_faults d")
  case Nil
  then have d: "r = g d" "d' = d" "d\<lparr> mr_faults := [] \<rparr> = d"
    using assms by (auto simp: mcall_src_def)
  then have "g (d\<lparr> mr_faults := [] \<rparr>) = r"
    by simp
  with d(2) show ?thesis
    by blast
next
  case (Cons b fs)
  then show ?thesis
    using assms by (cases b) (auto simp: mcall_src_def)
qed

lemma first_parse_in:
  assumes "first_parse dl casts q = Some r" and "list_all (\<lambda>(pre, post). parse_max dl pre post q \<in> {None, Some r}) casts"
    and "(pre, post) \<in> set casts" and "parse_max dl pre post q = Some x"
  shows "x = r"
  using assms(2-4) by (auto simp: list_all_iff)

lemma good_rows_map [simp]: "good_rows (map Inr xs) = xs"
  by (induction xs) auto

interpretation memsrc: sql_tables "mem_driver dl casts targ cs" dl "set casts" targ mem_tab "\<lambda>ps. mem_val cs" mem_gt
  for dl casts targ cs
proof
  fix c q d rws d' ps col lo hi t r raw pre post args rq rt rs u a
  let ?D = "mem_driver dl casts targ cs"
  show "\<not> mem_gt VNil a" by simp
  show "mset (good_rows (rws_scans rws)) = mset (mem_tab d ps)"
    if q: "sd_Query ?D c q [] d = (Inr rws, d')" and p: "parse_select dl q = Some (ps, None)"
  proof -
    obtain fs where "mem_query_rows dl cs q [] (d\<lparr> mr_faults := fs \<rparr>) = Inr rws"
      using q mcall_read [of "mem_query_rows dl cs q []" d] by (auto simp: mem_driver_def)
    then show ?thesis
      using p by (auto simp: mem_query_rows_def mem_select_def)
  qed
  show "mset (good_rows (rws_scans rws)) =
      mset (filter (\<lambda>r. mem_gt (mem_val cs col r) lo \<and> \<not> mem_gt (mem_val cs col r) hi) (mem_tab d ps))"
    if q: "sd_Query ?D c q [lo, hi] d = (Inr rws, d')" and p: "parse_select dl q = Some (ps, Some col)"
  proof -
    obtain fs where "mem_query_rows dl cs q [lo, hi] (d\<lparr> mr_faults := fs \<rparr>) = Inr rws"
      using q mcall_read [of "mem_query_rows dl cs q [lo, hi]" d] by (auto simp: mem_driver_def)
    then show ?thesis
      using p by (auto simp: mem_query_rows_def mem_select_def)
  qed
  show "case t of None \<Rightarrow> mem_val cs col r = VNil | Some u \<Rightarrow> \<not> mem_gt (mem_val cs col r) (targ u)"
    if q: "sd_QueryTime ?D c q d = (Inr t, d')" and p: "parse_max dl ''MAX('' '')'' q = Some (ps, col)" and r: "r \<in> set (mem_tab d ps)"
  proof -
    obtain fs where "mem_query_time dl targ cs q (d\<lparr> mr_faults := fs \<rparr>) = Inr t"
      using q mcall_read [of "mem_query_time dl targ cs q" d] by (auto simp: mem_driver_def)
    then have "mem_max_time targ (map (mem_val cs col) (mem_tab d ps)) = Inr t"
      using p by (simp add: mem_query_time_def)
    then show ?thesis
      using r by (auto simp: mem_max_time_def Let_def list_all_iff split: if_splits)
  qed
  show "case raw of None \<Rightarrow> mem_val cs col r = VNil
      | Some u \<Rightarrow> \<not> mem_gt (mem_val cs col r) (VString u) \<and> \<not> mem_gt (mem_val cs col r) (VString (TrimSpace u))"
    if q: "sd_QueryString ?D c q d = (Inr raw, d')" and p: "parse_max dl pre post q = Some (ps, col)" and m: "(pre, post) \<in> set casts"
      and r: "r \<in> set (mem_tab d ps)"
  proof -
    obtain fs where "mem_query_text dl casts cs q (d\<lparr> mr_faults := fs \<rparr>) = Inr raw"
      using q mcall_read [of "mem_query_text dl casts cs q" d] by (auto simp: mem_driver_def)
    then obtain ps' col' where fp: "first_parse dl casts q = Some (ps', col')"
      "list_all (\<lambda>(pre, post). parse_max dl pre post q \<in> {None, Some (ps', col')}) casts"
      and mx: "mem_max_text (map (mem_val cs col') (mem_tab d ps')) = Inr raw"
      by (auto simp: mem_query_text_def split: option.splits if_splits)
    have "(ps, col) = (ps', col')"
      by (rule first_parse_in [OF fp m p])
    then show ?thesis
      using mx r by (auto simp: mem_max_text_def Let_def list_all_iff split: if_splits)
  qed
  show "mset (mem_tab d ps) \<subseteq># mset (mem_tab d' ps)" if "sd_Query ?D c q args d = (rq, d')"
    using that mcall_read [of "mem_query_rows dl cs q args" d rq d'] by (simp add: mem_driver_def)
  show "mset (mem_tab d ps) \<subseteq># mset (mem_tab d' ps)" if "sd_QueryTime ?D c q d = (rt, d')"
    using that mcall_read [of "mem_query_time dl targ cs q" d rt d'] by (simp add: mem_driver_def)
  show "mset (mem_tab d ps) \<subseteq># mset (mem_tab d' ps)" if "sd_QueryString ?D c q d = (rs, d')"
    using that mcall_read [of "mem_query_text dl casts cs q" d rs d'] by (simp add: mem_driver_def)
  show "mset (mem_tab d ps) \<subseteq># mset (mem_tab d' ps)" if "sd_Now ?D d = (u, d')"
    using that by (auto simp: mem_driver_def mem_tab_def)
qed

end
