(* ===== verification/SinkConn.thy ===== *)
theory SinkConn
  imports SqlSource Sink
begin

text \<open>
  The connection of the SQL Server sink (internal/sink/mssql.go): \<^verbatim>\<open>NewMSSQLSink\<close>, \<^verbatim>\<open>Open\<close>, \<^verbatim>\<open>Ping\<close>, \<^verbatim>\<open>Close\<close> and
  \<^verbatim>\<open>DB\<close>. A sink is an object with a connection string and a pointer to its database handle, as the sources are;
  the settings of the pool of \<^verbatim>\<open>database/sql\<close> have no effect that the model observes.
\<close>

section \<open>Operations\<close>

record mssql_sink =
  ks_dsn :: string
  ks_obj :: nat

definition NewMSSQLSink :: "string \<Rightarrow> ('d objs, mssql_sink) act" where
  "NewMSSQLSink dsn = bindA new_object (\<lambda>obj. retA \<lparr> ks_dsn = dsn, ks_obj = obj \<rparr>)"

definition sink_Open :: "'d sql_driver \<Rightarrow> mssql_sink \<Rightarrow> ('d objs, unit) act" where
  "sink_Open D k =
     bindA (wrapA (wrapf ''open sink'') (on_ext (sd_Open D (ks_dsn k)))) (\<lambda>c.
     bindA (wrapA (wrapf ''ping sink'') (on_ext (sd_Ping D c))) (\<lambda>_.
     set_conn (ks_obj k) c))"

definition sink_Ping :: "'d sql_driver \<Rightarrow> mssql_sink \<Rightarrow> ('d objs, unit) act" where
  "sink_Ping D k = with_conn nil_deref (ks_obj k) (sd_Ping D)"

definition sink_Close :: "'d sql_driver \<Rightarrow> mssql_sink \<Rightarrow> ('d objs, unit) act" where
  "sink_Close D k = close_conn (sd_Close D) (ks_obj k)"

definition sink_DB :: "mssql_sink \<Rightarrow> 'd objs \<Rightarrow> nat option" where
  "sink_DB k w = so_conn w (ks_obj k)"

section \<open>What opening and closing do\<close>

text \<open>An open that succeeds has pinged the handle it stores; one that fails stores none.\<close>

lemma sink_Open_cases:
  "sink_Open D k w =
     (case sd_Open D (ks_dsn k) (so_ext w) of
        (Inl e, d) \<Rightarrow> (Inl (wrapf ''open sink'' e), w\<lparr> so_ext := d \<rparr>)
      | (Inr c, d) \<Rightarrow> (case sd_Ping D c d of
          (Inl e, d') \<Rightarrow> (Inl (wrapf ''ping sink'' e), w\<lparr> so_ext := d' \<rparr>)
        | (Inr _, d') \<Rightarrow> (Inr (), w\<lparr> so_ext := d', so_conn := (so_conn w)(ks_obj k := Some c) \<rparr>)))"
  by (simp add: sink_Open_def bindA_def wrapA_def on_ext_def set_conn_def split: prod.split sum.split)

lemma sink_Open_ok:
  assumes "sink_Open D k w = (Inr u, w')"
  obtains c d where "sd_Open D (ks_dsn k) (so_ext w) = (Inr c, d)" "sd_Ping D c d = (Inr (), so_ext w')" "sink_DB k w' = Some c"
  using assms unfolding sink_Open_cases sink_DB_def
  by (simp split: prod.splits sum.splits) (auto simp: that)

lemma sink_Open_err:
  assumes "sink_Open D k w = (Inl e, w')"
  shows "so_conn w' = so_conn w"
  using assms unfolding sink_Open_cases by (simp split: prod.splits sum.splits) auto

text \<open>
  The handle of an open whose ping fails is never closed: the sink has no pointer to it, so the \<^verbatim>\<open>Close\<close> that
  follows makes no call.
\<close>

lemma sink_failed_ping_leaks:
  assumes "sink_DB k w = None" and "sd_Open D (ks_dsn k) (so_ext w) = (Inr c, e1)" and "sd_Ping D c e1 = (Inl err, e2)"
  shows "sink_Open D k w = (Inl (wrapf ''ping sink'' err), w\<lparr> so_ext := e2 \<rparr>) \<and>
    sink_Close D k (snd (sink_Open D k w)) = (Inr (), w\<lparr> so_ext := e2 \<rparr>)"
  using assms by (simp add: sink_Open_cases sink_Close_def close_conn_def sink_DB_def)

lemma sink_Open_Close:
  assumes "sink_Open D k w = (Inr u, w')"
  obtains c where "sink_DB k w' = Some c" "sink_Close D k w' = on_ext (sd_Close D c) w'"
    "sink_Ping D k w' = on_ext (sd_Ping D c) w'"
proof (rule sink_Open_ok [OF assms])
  fix c d
  assume c: "sink_DB k w' = Some c"
  then show thesis
    by (intro that) (simp_all add: sink_Close_def close_conn_def sink_Ping_def with_conn_def sink_DB_def)
qed

end
