(* ===== verification/Json.thy ===== *)
theory Json
  imports Prelude "HOL-Library.AList"
begin

text \<open>
  The part of \<^verbatim>\<open>encoding/json\<close> the loader uses for source parameters: \<^verbatim>\<open>Marshal\<close> and \<^verbatim>\<open>Unmarshal\<close>
  of a \<^verbatim>\<open>map[string]string\<close>. \<open>json_Unmarshal\<close> accepts exactly the texts that Go decodes without an
  error into such a map: an object whose values are strings or \<^verbatim>\<open>null\<close>, or the text \<^verbatim>\<open>null\<close>; any other
  value, valid JSON or not, is an error, of which only the fact is kept.
\<close>

section \<open>Strings\<close>

definition hex_val :: "char \<Rightarrow> nat option" where
  "hex_val c =
     (let n = of_char c :: nat in
      if 48 \<le> n \<and> n \<le> 57 then Some (n - 48)
      else if 97 \<le> n \<and> n \<le> 102 then Some (n - 87)
      else if 65 \<le> n \<and> n \<le> 70 then Some (n - 55)
      else None)"

text \<open>Four hexadecimal digits, after \<^verbatim>\<open>\u\<close>.\<close>

fun hex4 :: "string \<Rightarrow> (nat \<times> string) option" where
  "hex4 (a # b # c # d # s) =
     (case (hex_val a, hex_val b, hex_val c, hex_val d) of
        (Some w, Some x, Some y, Some z) \<Rightarrow> Some (((w * 16 + x) * 16 + y) * 16 + z, s)
      | _ \<Rightarrow> None)"
| "hex4 _ = None"

text \<open>\<^verbatim>\<open>utf8.AppendRune\<close>; a surrogate is written as U+FFFD.\<close>

definition append_rune :: "nat \<Rightarrow> string" where
  "append_rune r =
     (if r < 128 then [char_of r]
      else if r < 2048 then [char_of (192 + r div 64), char_of (128 + r mod 64)]
      else if 55296 \<le> r \<and> r \<le> 57343 then [CHR 0xEF, CHR 0xBF, CHR 0xBD]
      else if r < 65536 then [char_of (224 + r div 4096), char_of (128 + r div 64 mod 64), char_of (128 + r mod 64)]
      else [char_of (240 + r div 262144), char_of (128 + r div 4096 mod 64), char_of (128 + r div 64 mod 64),
            char_of (128 + r mod 64)])"

text \<open>The low half of a surrogate pair, when the text goes on with one.\<close>

definition low_half :: "string \<Rightarrow> (nat \<times> string) option" where
  "low_half s =
     (case s of
        a # b # t \<Rightarrow>
          if a = CHR 0x5C \<and> b = CHR ''u'' then
            (case hex4 t of
               Some (lo, t') \<Rightarrow> if 56320 \<le> lo \<and> lo \<le> 57343 then Some (lo, t') else None
             | None \<Rightarrow> None)
          else None
      | _ \<Rightarrow> None)"

definition esc_char :: "char \<Rightarrow> char option" where
  "esc_char c =
     (if c = CHR 0x22 \<or> c = CHR 0x5C \<or> c = CHR ''/'' then Some c
      else if c = CHR ''b'' then Some (CHR 8) else if c = CHR ''f'' then Some (CHR 12)
      else if c = CHR ''n'' then Some (CHR 10) else if c = CHR ''r'' then Some (CHR 13)
      else if c = CHR ''t'' then Some (CHR 9) else None)"

lemma hex4_length: "hex4 s = Some (r, t) \<Longrightarrow> length t < length s"
  by (induction s rule: hex4.induct) (auto split: option.splits)

lemma low_half_length: "low_half s = Some (r, t) \<Longrightarrow> length t < length s"
  by (auto simp: low_half_def split: list.splits if_splits option.splits dest!: hex4_length)

text \<open>The contents of a string after its opening quote, up to its closing quote, and what follows.\<close>

function str_body :: "string \<Rightarrow> (string \<times> string) option" where
  "str_body s =
     (case s of
        [] \<Rightarrow> None
      | c # t \<Rightarrow>
          if c = CHR 0x22 then Some ([], t)
          else if c = CHR 0x5C then
            (case t of
               [] \<Rightarrow> None
             | e # u \<Rightarrow>
                 if e = CHR ''u'' then
                   (case hex4 u of
                      None \<Rightarrow> None
                    | Some (r, v) \<Rightarrow>
                        (case (if 55296 \<le> r \<and> r \<le> 56319 then low_half v else None) of
                           Some (lo, v') \<Rightarrow>
                             map_option (\<lambda>(w, rest). (append_rune (65536 + (r - 55296) * 1024 + (lo - 56320)) @ w, rest))
                               (str_body v')
                         | None \<Rightarrow> map_option (\<lambda>(w, rest). (append_rune r @ w, rest)) (str_body v)))
                 else
                   (case esc_char e of
                      None \<Rightarrow> None
                    | Some x \<Rightarrow> map_option (\<lambda>(w, rest). (x # w, rest)) (str_body u)))
          else if (of_char c :: nat) < 32 then None
          else map_option (\<lambda>(w, rest). (c # w, rest)) (str_body t))"
  by pat_completeness auto
termination
  by (relation "measure length") (auto dest!: hex4_length low_half_length split: if_splits)

declare str_body.simps [simp del]

text \<open>An invalid byte of the text is read as U+FFFD.\<close>

definition coerce_utf8 :: "string \<Rightarrow> string" where
  "coerce_utf8 s =
     concat (map (\<lambda>(r, bs). if length bs = 1 \<and> 128 \<le> (of_char (hd bs) :: nat)
                            then [CHR 0xEF, CHR 0xBF, CHR 0xBD] else bs) (runes s))"

definition json_string :: "string \<Rightarrow> (string \<times> string) option" where
  "json_string s =
     (case s of
        [] \<Rightarrow> None
      | c # t \<Rightarrow> if c = CHR 0x22 then map_option (\<lambda>(w, r). (coerce_utf8 w, r)) (str_body t) else None)"

section \<open>Objects of strings\<close>

definition skip_ws :: "string \<Rightarrow> string" where
  "skip_ws s = dropWhile (\<lambda>c. c \<in> {CHR 0x20, CHR 0x09, CHR 0x0A, CHR 0x0D}) s"

definition json_value :: "string \<Rightarrow> (string \<times> string) option" where
  "json_value s = (if HasPrefix s ''null'' then Some ([], drop 4 s) else json_string s)"

text \<open>One \<open>"key" : value\<close>, with white space around its parts.\<close>

definition json_member :: "string \<Rightarrow> ((string \<times> string) \<times> string) option" where
  "json_member s =
     (case json_string (skip_ws s) of
        None \<Rightarrow> None
      | Some (k, r) \<Rightarrow>
          (case skip_ws r of
             [] \<Rightarrow> None
           | c # t \<Rightarrow>
               if c = CHR '':'' then
                 map_option (\<lambda>(v, r'). ((k, v), skip_ws r')) (json_value (skip_ws t))
               else None))"

fun json_members :: "nat \<Rightarrow> string \<Rightarrow> (strmap \<times> string) option" where
  "json_members 0 s = None"
| "json_members (Suc n) s =
     (case json_member s of
        None \<Rightarrow> None
      | Some (kv, []) \<Rightarrow> None
      | Some (kv, c # t) \<Rightarrow>
          if c = CHR ''}'' then Some ([kv], t)
          else if c = CHR '','' then map_option (\<lambda>(m, r). (kv # m, r)) (json_members n t)
          else None)"

text \<open>The map of a list of members: a later member replaces an earlier one with its key.\<close>

definition members_map :: "strmap \<Rightarrow> strmap" where
  "members_map ms = foldl (\<lambda>m (k, v). AList.update k v m) [] ms"

definition json_object :: "string \<Rightarrow> (strmap \<times> string) option" where
  "json_object s =
     (case skip_ws s of
        [] \<Rightarrow> None
      | c # t \<Rightarrow>
          if c = CHR ''}'' then Some ([], t)
          else map_option (\<lambda>(ms, r). (members_map ms, r)) (json_members (length s) s))"

definition json_Unmarshal :: "string \<Rightarrow> strmap res" where
  "json_Unmarshal s =
     (let t = skip_ws s; err = Inl (ErrExt ''json: cannot decode into map[string]string'') in
      case t of
        [] \<Rightarrow> err
      | c # u \<Rightarrow>
          if c = CHR ''{'' then
            (case json_object u of Some (m, r) \<Rightarrow> if skip_ws r = [] then Inr m else err | None \<Rightarrow> err)
          else if HasPrefix t ''null'' \<and> skip_ws (drop 4 t) = [] then Inr []
          else err)"

text \<open>
  \<^verbatim>\<open>Marshal\<close>: keys in sorted order; the characters that HTML gives a meaning, the control characters
  and U+2028, U+2029 are escaped, an invalid byte becomes the escape of U+FFFD.
\<close>

definition enc_rune :: "nat \<times> string \<Rightarrow> string" where
  "enc_rune = (\<lambda>(r, bs).
     if bs = [CHR 0x22] \<or> bs = [CHR 0x5C] then CHR 0x5C # bs
     else if bs = [CHR 8] then [CHR 0x5C, CHR ''b''] else if bs = [CHR 12] then [CHR 0x5C, CHR ''f'']
     else if bs = [CHR 10] then [CHR 0x5C, CHR ''n''] else if bs = [CHR 13] then [CHR 0x5C, CHR ''r'']
     else if bs = [CHR 9] then [CHR 0x5C, CHR ''t'']
     else if bs = ''<'' \<or> bs = ''>'' \<or> bs = ''&'' \<or> length bs = 1 \<and> (of_char (hd bs) :: nat) < 32
     then (let b = of_char (hd bs) in [CHR 0x5C, CHR ''u'', CHR ''0'', CHR ''0'', hexdigit (b div 16), hexdigit (b mod 16)])
     else if length bs = 1 \<and> 128 \<le> (of_char (hd bs) :: nat) then CHR 0x5C # ''ufffd''
     else if bs = [CHR 0xE2, CHR 0x80, CHR 0xA8] then CHR 0x5C # ''u2028''
     else if bs = [CHR 0xE2, CHR 0x80, CHR 0xA9] then CHR 0x5C # ''u2029''
     else bs)"

definition json_quote :: "string \<Rightarrow> string" where
  "json_quote s = [CHR 0x22] @ concat (map enc_rune (runes s)) @ [CHR 0x22]"

definition json_Marshal :: "strmap \<Rightarrow> string" where
  "json_Marshal m =
     ''{'' @ Join (map (\<lambda>k. json_quote k @ '':'' @ json_quote (get_str m k)) (sorted_keys m)) '','' @ ''}''"

section \<open>Reading back what was written\<close>

lemma str_body_close: "str_body (CHR 0x22 # s) = Some ([], s)"
  by (subst str_body.simps) simp

lemma str_body_plain:
  assumes "\<forall>c \<in> set bs. 32 \<le> (of_char c :: nat) \<and> c \<noteq> CHR 0x22 \<and> c \<noteq> CHR 0x5C"
  shows "str_body (bs @ s) = map_option (\<lambda>(w, r). (bs @ w, r)) (str_body s)"
  using assms
proof (induction bs)
  case Nil
  show ?case by (cases "str_body s") auto
next
  case (Cons c bs)
  then show ?case
    by (subst append_Cons, subst str_body.simps) (auto simp: option.map_comp comp_def split_def)
qed

lemma str_body_esc:
  assumes "esc_char e = Some x" and "e \<noteq> CHR ''u''"
  shows "str_body (CHR 0x5C # e # s) = map_option (\<lambda>(w, r). (x # w, r)) (str_body s)"
  using assms by (subst str_body.simps) simp

lemma str_body_u:
  assumes "hex4 u = Some (r, v)" and "\<not> (55296 \<le> r \<and> r \<le> 56319)"
  shows "str_body (CHR 0x5C # CHR ''u'' # u) = map_option (\<lambda>(w, q). (append_rune r @ w, q)) (str_body v)"
  using assms by (subst str_body.simps) auto

lemma hex_val_hexdigit: "n < 16 \<Longrightarrow> hex_val (hexdigit n) = Some n"
  by (auto simp: hex_val_def hexdigit_def Let_def)

lemma str_body_u00:
  assumes "(of_char c :: nat) < 128"
  shows "str_body (CHR 0x5C # CHR ''u'' # CHR ''0'' # CHR ''0'' # hexdigit (of_char c div 16) # hexdigit (of_char c mod 16) # s)
         = map_option (\<lambda>(w, q). (c # w, q)) (str_body s)"
proof -
  have "hex_val (CHR ''0'') = Some 0"
    by (simp add: hex_val_def)
  then have "hex4 (CHR ''0'' # CHR ''0'' # hexdigit (of_char c div 16) # hexdigit (of_char c mod 16) # s)
             = Some (of_char c, s)"
    using assms by (simp add: hex_val_hexdigit less_mult_imp_div_less)
  then show ?thesis
    using assms by (simp add: str_body_u append_rune_def)
qed

lemma str_body_enc_ascii:
  assumes "(of_char c :: nat) < 128"
  shows "str_body (enc_rune (r, [c]) @ s) = map_option (\<lambda>(w, q). (c # w, q)) (str_body s)"
proof (cases "c \<in> {CHR 0x22, CHR 0x5C, CHR 8, CHR 12, CHR 10, CHR 13, CHR 9}")
  case True
  then show ?thesis
    by (auto simp: enc_rune_def str_body_esc esc_char_def)
next
  case False
  show ?thesis
  proof (cases "c \<in> {CHR ''<'', CHR ''>'', CHR ''&''} \<or> (of_char c :: nat) < 32")
    case True
    then have "enc_rune (r, [c]) = [CHR 0x5C, CHR ''u'', CHR ''0'', CHR ''0'', hexdigit (of_char c div 16), hexdigit (of_char c mod 16)]"
      using False by (auto simp: enc_rune_def Let_def)
    then show ?thesis using str_body_u00 [OF assms] by simp
  next
    case no: False
    then have "enc_rune (r, [c]) = [c]"
      using False assms by (simp add: enc_rune_def)
    then show ?thesis
      using str_body_plain [of "[c]" s] False no by simp
  qed
qed

lemma str_body_enc_high:
  assumes "\<forall>c \<in> set bs. 128 \<le> (of_char c :: nat)" and "length bs \<noteq> 1"
  shows "str_body (enc_rune (r, bs) @ s) = map_option (\<lambda>(w, q). (bs @ w, q)) (str_body s)"
proof -
  have h: "hex4 (''2028'' @ s) = Some (8232, s)" "hex4 (''2029'' @ s) = Some (8233, s)"
    by (simp_all add: hex_val_def)
  have a: "append_rune 8232 = [CHR 0xE2, CHR 0x80, CHR 0xA8]" "append_rune 8233 = [CHR 0xE2, CHR 0x80, CHR 0xA9]"
    by (simp add: append_rune_def, code_simp)+
  have "bs \<noteq> [x]" for x
    using assms(2) by auto
  then have "bs = [CHR 0xE2, CHR 0x80, CHR 0xA8] \<or> bs = [CHR 0xE2, CHR 0x80, CHR 0xA9] \<or> enc_rune (r, bs) = bs"
    using assms(2) by (simp add: enc_rune_def)
  then consider "bs = [CHR 0xE2, CHR 0x80, CHR 0xA8]" | "bs = [CHR 0xE2, CHR 0x80, CHR 0xA9]" | "enc_rune (r, bs) = bs"
    by blast
  then show ?thesis
  proof cases
    case 1
    then show ?thesis
      using str_body_u [OF h(1)] a by (simp add: enc_rune_def)
  next
    case 2
    then show ?thesis
      using str_body_u [OF h(2)] a by (simp add: enc_rune_def)
  next
    case 3
    have "\<forall>c \<in> set bs. 32 \<le> (of_char c :: nat) \<and> c \<noteq> CHR 0x22 \<and> c \<noteq> CHR 0x5C"
      using assms(1) by fastforce
    then show ?thesis
      using 3 str_body_plain by simp
  qed
qed

lemma valid_runes:
  assumes "(r, bs) \<in> set (runes s)" and "valid_utf8 s"
  shows "(\<exists>c. bs = [c] \<and> (of_char c :: nat) < 128) \<or> length bs \<noteq> 1 \<and> (\<forall>c \<in> set bs. 128 \<le> (of_char c :: nat))"
proof (cases "length bs = 1")
  case True
  then show ?thesis
    using assms by (cases bs) (auto simp: valid_utf8_def list_all_iff)
next
  case False
  have "\<forall>c \<in> set bs. 128 \<le> (of_char c :: nat)"
    using assms(1) False
  proof (induction s rule: runes.induct)
    case (1 s)
    then have "s \<noteq> []" by auto
    then consider "bs = take (rune_width s) s" | "(r, bs) \<in> set (runes (drop (rune_width s) s))"
      using "1.prems"(1) by (auto simp: runes.simps [of s])
    then show ?case
    proof cases
      case 1
      then have "rune_width s \<noteq> 1"
        using "1.prems"(2) \<open>s \<noteq> []\<close> by (cases s) auto
      then show ?thesis
        using 1 rune_width_high [of s] by (auto simp: in_set_conv_nth)
    next
      case 2
      then show ?thesis
        using "1.IH" \<open>s \<noteq> []\<close> "1.prems"(2) by blast
    qed
  qed
  then show ?thesis
    using False by simp
qed

lemma str_body_enc_runes:
  assumes "\<forall>(r, bs) \<in> set xs. (\<exists>c. bs = [c] \<and> (of_char c :: nat) < 128) \<or>
             length bs \<noteq> 1 \<and> (\<forall>c \<in> set bs. 128 \<le> (of_char c :: nat))"
  shows "str_body (concat (map enc_rune xs) @ CHR 0x22 # rest) = Some (concat (map snd xs), rest)"
  using assms
proof (induction xs)
  case Nil
  then show ?case by (simp add: str_body_close)
next
  case (Cons x xs)
  obtain r bs where x: "x = (r, bs)" by fastforce
  have "str_body (enc_rune (r, bs) @ t) = map_option (\<lambda>(w, q). (bs @ w, q)) (str_body t)" for t
    using Cons.prems x str_body_enc_ascii str_body_enc_high by fastforce
  then show ?case
    using Cons x by simp
qed

lemma coerce_valid: "valid_utf8 s \<Longrightarrow> coerce_utf8 s = s"
proof -
  assume "valid_utf8 s"
  then have "coerce_utf8 s = concat (map snd (runes s))"
    unfolding coerce_utf8_def valid_utf8_def
    by (intro arg_cong [where f = concat] map_cong) (auto simp: list_all_iff)
  then show ?thesis by simp
qed

lemma json_string_quote:
  assumes "valid_utf8 s"
  shows "json_string (json_quote s @ rest) = Some (s, rest)"
proof -
  have "str_body (concat (map enc_rune (runes s)) @ CHR 0x22 # rest) = Some (s, rest)"
    using str_body_enc_runes [of "runes s" rest] valid_runes [OF _ assms] by auto
  then show ?thesis
    using coerce_valid [OF assms] by (simp add: json_string_def json_quote_def)
qed

lemma json_quote_Cons: "\<exists>t. json_quote s = CHR 0x22 # t"
  by (simp add: json_quote_def)

lemma skip_ws_quote [simp]: "skip_ws (json_quote s @ t) = json_quote s @ t"
  using json_quote_Cons [of s] by (auto simp: skip_ws_def)

lemma skip_ws_delims [simp]:
  "skip_ws [] = []" "skip_ws (CHR '':'' # t) = CHR '':'' # t" "skip_ws (CHR '','' # t) = CHR '','' # t"
  "skip_ws (CHR ''{'' # t) = CHR ''{'' # t" "skip_ws (CHR ''}'' # t) = CHR ''}'' # t"
  "skip_ws (CHR 0x22 # t) = CHR 0x22 # t"
  by (simp_all add: skip_ws_def)

lemma json_member_quote:
  assumes "valid_utf8 k" and "valid_utf8 v"
  shows "json_member (json_quote k @ '':'' @ json_quote v @ rest) = Some ((k, v), skip_ws rest)"
proof -
  have "json_value (json_quote v @ rest) = Some (v, rest)"
    using json_quote_Cons [of v] json_string_quote [OF assms(2)] by (auto simp: json_value_def)
  then show ?thesis
    using json_string_quote [OF assms(1), of "'':'' @ json_quote v @ rest"] skip_ws_quote [of v rest]
    by (simp add: json_member_def)
qed

lemma json_members_Join:
  assumes "kvs \<noteq> []" and "\<forall>(k, v) \<in> set kvs. valid_utf8 k \<and> valid_utf8 v" and "length kvs \<le> n"
  shows "json_members n (Join (map (\<lambda>(k, v). json_quote k @ '':'' @ json_quote v) kvs) '','' @ ''}'' @ rest)
         = Some (kvs, rest)"
  using assms
proof (induction kvs arbitrary: n)
  case (Cons kv kvs)
  obtain k v where kv: "kv = (k, v)" by fastforce
  obtain m where n: "n = Suc m" "length kvs \<le> m"
    using Cons.prems(3) by (cases n) auto
  have m: "json_member (json_quote k @ '':'' @ json_quote v @ t) = Some ((k, v), skip_ws t)" for t
    using Cons.prems(2) kv json_member_quote by auto
  show ?case
  proof (cases kvs)
    case Nil
    then show ?thesis
      using m [of "''}'' @ rest"] kv n by simp
  next
    case (Cons kv' kvs')
    then have "json_members m (Join (map (\<lambda>(k, v). json_quote k @ '':'' @ json_quote v) kvs) '','' @ ''}'' @ rest)
         = Some (kvs, rest)"
      using Cons.IH Cons.prems(2) n(2) by simp
    then show ?thesis
      using m [of "'','' @ Join (map (\<lambda>(k, v). json_quote k @ '':'' @ json_quote v) kvs) '','' @ ''}'' @ rest"]
        kv n(1) Cons by simp
  qed
qed simp

lemma members_map_distinct:
  assumes "distinct (map fst (xs @ kvs))"
  shows "foldl (\<lambda>m (k, v). AList.update k v m) xs kvs = xs @ kvs"
  using assms
proof (induction kvs arbitrary: xs)
  case (Cons kv kvs)
  obtain k v where kv: "kv = (k, v)" by fastforce
  have "AList.update k v xs = xs @ [(k, v)]"
    using Cons.prems kv by (induction xs) auto
  then show ?case
    using Cons kv by simp
qed simp

lemma json_Marshal_entries:
  "json_Marshal m = ''{'' @ Join (map (\<lambda>(k, v). json_quote k @ '':'' @ json_quote v) (sorted_entries m)) '','' @ ''}''"
  by (simp add: json_Marshal_def sorted_entries_def comp_def)

lemma length_Join_ge: "(\<And>x. f x \<noteq> []) \<Longrightarrow> length xs \<le> length (Join (map f xs) sep)"
proof (induction xs)
  case (Cons x xs)
  have "Suc 0 \<le> length (f x)"
    using Cons.prems [of x] by (simp add: Suc_le_eq)
  then show ?case
    using Cons by (cases xs) simp_all
qed simp

lemma json_object_members:
  assumes "\<exists>t. s = CHR 0x22 # t" and "json_members (length s) s = Some (kvs, r)" and "distinct (map fst kvs)"
  shows "json_object s = Some (kvs, r)"
proof -
  have "members_map kvs = kvs"
    using members_map_distinct [of "[]" kvs] assms(3) by (simp add: members_map_def)
  moreover have "json_object s = map_option (\<lambda>(ms, r). (members_map ms, r)) (json_members (length s) s)"
    using assms(1) by (auto simp: json_object_def simp del: json_members.simps)
  ultimately show ?thesis
    using assms(2) by simp
qed

lemma json_Unmarshal_Marshal:
  assumes "distinct (map fst m)" and "\<forall>(k, v) \<in> set m. valid_utf8 k \<and> valid_utf8 v"
  shows "json_Unmarshal (json_Marshal m) = Inr (sorted_entries m)"
proof (cases "m = []")
  case True
  then show ?thesis
    by (simp add: json_Marshal_def json_Unmarshal_def json_object_def sorted_keys_def sorted_entries_def)
next
  case False
  let ?kvs = "sorted_entries m"
  let ?body = "Join (map (\<lambda>(k, v). json_quote k @ '':'' @ json_quote v) ?kvs) '','' @ ''}''"
  have "sorted_keys m \<noteq> []"
    using False sorted_keys_set [of m] by (metis image_is_empty set_empty)
  then have ne: "?kvs \<noteq> []" and d: "distinct (map fst ?kvs)"
    using assms(1) by (simp_all add: sorted_entries_def sorted_keys_def comp_def)
  have v: "\<forall>(k, v) \<in> set ?kvs. valid_utf8 k \<and> valid_utf8 v"
    using assms by (auto simp: sorted_entries_def get_str_def)
  have hd: "\<exists>t. ?body = CHR 0x22 # t"
  proof -
    obtain k v kvs where "?kvs = (k, v) # kvs"
      using ne by (cases ?kvs) auto
    then show ?thesis
      using json_quote_Cons [of k] by (cases kvs) auto
  qed
  have len: "length ?kvs \<le> length ?body"
    using length_Join_ge [of "\<lambda>(k, v). json_quote k @ '':'' @ json_quote v" ?kvs "'',''"] by auto
  have "json_members (length ?body) ?body = Some (?kvs, [])"
    using json_members_Join [OF ne v len, of "[]"] by simp
  then have "json_object ?body = Some (?kvs, [])"
    using hd d by (blast intro: json_object_members)
  then show ?thesis
    unfolding json_Marshal_entries json_Unmarshal_def by simp
qed

end
