(* ===== verification/Config.thy ===== *)
theory Config
  imports Json
begin

text \<open>
  \<^verbatim>\<open>internal/config/config.go\<close>: settings from the environment, and the parameters of a source with
  their \<^verbatim>\<open>$env:\<close> references resolved. The environment is the argument \<open>getenv\<close>, which is empty for a
  variable that is not set, as \<^verbatim>\<open>os.Getenv\<close> is.
\<close>

record AppConfig =
  MetadataDSN :: string
  SinkDSN :: string
  LogLevel :: string
  LogFormat :: string
  HousekeepingEnabled :: bool
  HousekeepingCron :: string
  LogRetentionDays :: int
  LoadRunRetentionDays :: int
  HousekeepingBatchSize :: int
  HousekeepingBatchPauseMs :: int
  HealthEnabled :: bool
  HealthAddr :: string
  ReloadEnabled :: bool
  ReloadIntervalSec :: int
  ReloadOnSIGHUP :: bool
  ShutdownTimeoutSec :: int
  SourcePoolEnabled :: bool
  SourcePoolIdleSec :: int
  SourcePoolMaxAgeSec :: int

definition getEnvBool :: "(string \<Rightarrow> string) \<Rightarrow> string \<Rightarrow> bool \<Rightarrow> bool" where
  "getEnvBool getenv k d =
     (let v = ToLower (TrimSpace (getenv k)) in
      if v = [] then d
      else if v \<in> {''1'', ''true'', ''yes'', ''on''} then True
      else if v \<in> {''0'', ''false'', ''no'', ''off''} then False
      else d)"

definition getEnvInt :: "(string \<Rightarrow> string) \<Rightarrow> string \<Rightarrow> int \<Rightarrow> int" where
  "getEnvInt getenv k d =
     (let v = getenv k in
      if v = [] then d else (case atoi v of Inl _ \<Rightarrow> d | Inr n \<Rightarrow> n))"

definition getEnvDefault :: "(string \<Rightarrow> string) \<Rightarrow> string \<Rightarrow> string \<Rightarrow> string" where
  "getEnvDefault getenv k d = (let v = getenv k in if v \<noteq> [] then v else d)"

definition FromEnv :: "(string \<Rightarrow> string) \<Rightarrow> AppConfig res" where
  "FromEnv getenv =
     (let c = \<lparr> MetadataDSN = getenv ''LOADER_METADATA_DSN'',
                SinkDSN = getenv ''LOADER_SINK_DSN'',
                LogLevel = getEnvDefault getenv ''LOADER_LOG_LEVEL'' ''info'',
                LogFormat = getEnvDefault getenv ''LOADER_LOG_FORMAT'' ''json'',
                HousekeepingEnabled = getEnvBool getenv ''LOADER_HOUSEKEEPING_ENABLED'' True,
                HousekeepingCron = getEnvDefault getenv ''LOADER_HOUSEKEEPING_CRON'' ''0 2 * * *'',
                LogRetentionDays = getEnvInt getenv ''LOADER_LOG_RETENTION_DAYS'' 14,
                LoadRunRetentionDays = getEnvInt getenv ''LOADER_LOAD_RUN_RETENTION_DAYS'' 90,
                HousekeepingBatchSize = getEnvInt getenv ''LOADER_HOUSEKEEPING_BATCH_SIZE'' 5000,
                HousekeepingBatchPauseMs = getEnvInt getenv ''LOADER_HOUSEKEEPING_BATCH_PAUSE_MS'' 100,
                HealthEnabled = getEnvBool getenv ''LOADER_HEALTH_ENABLED'' True,
                HealthAddr = getEnvDefault getenv ''LOADER_HEALTH_ADDR'' ''127.0.0.1:9090'',
                ReloadEnabled = getEnvBool getenv ''LOADER_RELOAD_ENABLED'' True,
                ReloadIntervalSec = getEnvInt getenv ''LOADER_RELOAD_INTERVAL_SEC'' 60,
                ReloadOnSIGHUP = getEnvBool getenv ''LOADER_RELOAD_ON_SIGHUP'' True,
                ShutdownTimeoutSec = getEnvInt getenv ''LOADER_SHUTDOWN_TIMEOUT_SEC'' 60,
                SourcePoolEnabled = getEnvBool getenv ''LOADER_SOURCE_POOL'' False,
                SourcePoolIdleSec = getEnvInt getenv ''LOADER_SOURCE_POOL_IDLE_SEC'' 300,
                SourcePoolMaxAgeSec = getEnvInt getenv ''LOADER_SOURCE_POOL_MAX_AGE_SEC'' 3600 \<rparr>
      in if MetadataDSN c = [] then Inl (Errorf ''LOADER_METADATA_DSN is required'' [])
         else if SinkDSN c = [] then Inl (Errorf ''LOADER_SINK_DSN is required'' [])
         else Inr c)"

definition resolve_value :: "(string \<Rightarrow> string) \<Rightarrow> string \<Rightarrow> string \<Rightarrow> string res" where
  "resolve_value getenv k v =
     (if HasPrefix v ''$env:'' then
        (let envKey = TrimPrefix v ''$env:''; envVal = getenv envKey in
         if envVal = [] then
           Inl (Errorf ''env var %q referenced by param %q is not set'' [AStr envKey, AStr k])
         else Inr envVal)
      else Inr v)"

fun resolve_all :: "(string \<Rightarrow> string) \<Rightarrow> strmap \<Rightarrow> strmap res" where
  "resolve_all getenv [] = Inr []"
| "resolve_all getenv ((k, v) # m) =
     bind_res (resolve_value getenv k v) (\<lambda>v'.
     bind_res (resolve_all getenv m) (\<lambda>m'. Inr ((k, v') # m')))"

definition ResolveParams :: "(string \<Rightarrow> string) \<Rightarrow> string \<Rightarrow> strmap res" where
  "ResolveParams getenv paramsJSON =
     bind_res (wrap_res (wrapf ''invalid params JSON'') (json_Unmarshal paramsJSON)) (resolve_all getenv)"

lemma resolve_all_Inr:
  "resolve_all getenv m = Inr m' \<longleftrightarrow>
     list_all2 (\<lambda>(k, v) (k', v'). k' = k \<and> resolve_value getenv k v = Inr v') m m'"
proof (induction m arbitrary: m')
  case (Cons kv m)
  then show ?case
    by (cases kv) (auto simp: bind_res_Inr_iff list_all2_Cons1)
qed auto

lemma resolve_all_lookup:
  assumes "resolve_all getenv m = Inr m'"
  shows "map_of m' k = (case map_of m k of None \<Rightarrow> None
                        | Some v \<Rightarrow> (case resolve_value getenv k v of Inr v' \<Rightarrow> Some v' | Inl _ \<Rightarrow> None))"
  using assms
proof (induction m arbitrary: m')
  case (Cons kv m)
  then show ?case
    by (cases kv) (auto simp: bind_res_Inr_iff)
qed auto

lemma resolve_all_Inl:
  "(\<exists>e. resolve_all getenv m = Inl e) \<longleftrightarrow> (\<exists>(k, v) \<in> set m. \<exists>e. resolve_value getenv k v = Inl e)"
proof (induction m)
  case (Cons kv m)
  obtain k v where kv: "kv = (k, v)" by fastforce
  show ?case
    using Cons kv by (cases "resolve_value getenv k v"; cases "resolve_all getenv m") auto
qed simp

section \<open>Properties\<close>

text \<open>
  (C22) Parameters survive the metadata store: a parameter map written as JSON, as the seeder does, is
  read back by \<^verbatim>\<open>ResolveParams\<close> with exactly its keys. A plain value is unchanged, a \<^verbatim>\<open>$env:NAME\<close> value
  becomes the value of the variable, and the only error is a reference to a variable that is not set.
\<close>

theorem ResolveParams_Marshal:
  assumes "distinct (map fst m)" and "\<forall>(k, v) \<in> set m. valid_utf8 k \<and> valid_utf8 v"
  shows "if (\<exists>k x. map_of m k = Some (''$env:'' @ x) \<and> getenv x = [])
         then (\<exists>e. ResolveParams getenv (json_Marshal m) = Inl e)
         else (\<exists>m'. ResolveParams getenv (json_Marshal m) = Inr m' \<and>
                 (\<forall>k. map_of m' k = (case map_of m k of None \<Rightarrow> None
                        | Some v \<Rightarrow> Some (if HasPrefix v ''$env:'' then getenv (drop 5 v) else v))))"
proof -
  have R: "ResolveParams getenv (json_Marshal m) = resolve_all getenv (sorted_entries m)"
    using json_Unmarshal_Marshal [OF assms] by (simp add: ResolveParams_def)
  have d: "distinct (map fst (sorted_entries m))"
    using assms(1) by (simp add: sorted_entries_def sorted_keys_def comp_def)
  have bad: "(\<exists>e. resolve_value getenv k v = Inl e) \<longleftrightarrow> (\<exists>x. v = ''$env:'' @ x \<and> getenv x = [])" for k v
    by (auto simp: resolve_value_def Let_def HasPrefix_iff TrimPrefix_def)
  have "(\<exists>e. resolve_all getenv (sorted_entries m) = Inl e) \<longleftrightarrow>
        (\<exists>k x. map_of m k = Some (''$env:'' @ x) \<and> getenv x = [])"
  proof -
    have mem: "(k, v) \<in> set (sorted_entries m) \<longleftrightarrow> map_of m k = Some v" for k v
      using map_of_eq_Some_iff [OF d, of k v] map_of_sorted_entries [of m] by simp
    have "(\<exists>(k, v) \<in> set (sorted_entries m). \<exists>e. resolve_value getenv k v = Inl e) \<longleftrightarrow>
          (\<exists>k v. map_of m k = Some v \<and> (\<exists>x. v = ''$env:'' @ x \<and> getenv x = []))"
      unfolding Bex_def split_paired_Ex mem case_prod_conv bad ..
    then show ?thesis
      unfolding resolve_all_Inl by blast
  qed
  moreover have "map_of m' k = (case map_of m k of None \<Rightarrow> None
                        | Some v \<Rightarrow> Some (if HasPrefix v ''$env:'' then getenv (drop 5 v) else v))"
    if "resolve_all getenv (sorted_entries m) = Inr m'" and
       "\<not> (\<exists>k x. map_of m k = Some (''$env:'' @ x) \<and> getenv x = [])" for m' k
    using resolve_all_lookup [OF that(1), of k] that(2)
    by (auto simp: map_of_sorted_entries resolve_value_def Let_def HasPrefix_iff TrimPrefix_def split: option.splits)
  ultimately show ?thesis
    unfolding R by (cases "resolve_all getenv (sorted_entries m)") auto
qed

theorem ResolveParams_Marshal_witness:
  "\<exists>m'. ResolveParams (\<lambda>x. if x = ''PW'' then ''s3cret'' else []) (json_Marshal [(''host'', ''db1''), (''password'', ''$env:PW'')])
        = Inr m' \<and> map_of m' ''password'' = Some ''s3cret'' \<and> map_of m' ''host'' = Some ''db1''"
proof -
  let ?m = "[(''host'', ''db1''), (''password'', ''$env:PW'')]"
  have "\<forall>(k, v) \<in> set ?m. valid_utf8 k \<and> valid_utf8 v"
    by (simp add: valid_utf8_def)
  then show ?thesis
    using ResolveParams_Marshal [of ?m "\<lambda>x. if x = ''PW'' then ''s3cret'' else []"]
    by (auto split: if_splits)
qed

end
