(* ===== verification/Runstate.thy ===== *)
theory Runstate
  imports Contracts "HOL-Library.AList"
begin

text \<open>
  \<^verbatim>\<open>internal/runstate/registry.go\<close>: the in-memory registry of load states. Each method holds the lock
  for its whole body, so it is one atomic step on the map \<open>loads\<close>, an association list from load id.
\<close>

record LoadState =
  ls_LoadID :: int
  ls_LoadName :: string
  ls_SourceName :: string
  ls_SourceKind :: string
  ls_CronExpression :: string
  ls_LastRunUUID :: string
  ls_LastStartedAt :: gtime
  ls_LastFinishedAt :: gtime
  ls_LastStatus :: string
  ls_LastRowsRead :: int
  ls_LastRowsWritten :: int
  ls_LastError :: string
  ls_CurrentlyRunning :: bool

record Registry =
  rg_loads :: "(int \<times> LoadState) list"
  rg_startedAt :: gtime

definition runstate_New :: "gtime \<Rightarrow> Registry" where
  "runstate_New now = \<lparr> rg_loads = [], rg_startedAt = now \<rparr>"

definition Register :: "Registry \<Rightarrow> LoadState \<Rightarrow> Registry" where
  "Register r s =
     (let s' = (case map_of (rg_loads r) (ls_LoadID s) of
                  None \<Rightarrow> s
                | Some x \<Rightarrow> s\<lparr> ls_LastRunUUID := ls_LastRunUUID x, ls_LastStartedAt := ls_LastStartedAt x,
                               ls_LastFinishedAt := ls_LastFinishedAt x, ls_LastStatus := ls_LastStatus x,
                               ls_LastRowsRead := ls_LastRowsRead x, ls_LastRowsWritten := ls_LastRowsWritten x,
                               ls_LastError := ls_LastError x, ls_CurrentlyRunning := ls_CurrentlyRunning x \<rparr>)
      in r\<lparr> rg_loads := AList.update (ls_LoadID s) s' (rg_loads r) \<rparr>)"

definition MarkRunning :: "Registry \<Rightarrow> int \<Rightarrow> string \<Rightarrow> gtime \<Rightarrow> Registry" where
  "MarkRunning r loadID runUUID startedAt =
     (case map_of (rg_loads r) loadID of
        None \<Rightarrow> r
      | Some s \<Rightarrow> r\<lparr> rg_loads := AList.update loadID
            (s\<lparr> ls_CurrentlyRunning := True, ls_LastRunUUID := runUUID, ls_LastStartedAt := startedAt,
                ls_LastStatus := ''running'', ls_LastError := [] \<rparr>) (rg_loads r) \<rparr>)"

definition MarkFinished :: "Registry \<Rightarrow> int \<Rightarrow> string \<Rightarrow> gtime \<Rightarrow> int \<Rightarrow> int \<Rightarrow> string \<Rightarrow> Registry" where
  "MarkFinished r loadID status finishedAt rowsRead rowsWritten errMsg =
     (case map_of (rg_loads r) loadID of
        None \<Rightarrow> r
      | Some s \<Rightarrow> r\<lparr> rg_loads := AList.update loadID
            (s\<lparr> ls_CurrentlyRunning := False, ls_LastFinishedAt := finishedAt, ls_LastStatus := status,
                ls_LastRowsRead := rowsRead, ls_LastRowsWritten := rowsWritten, ls_LastError := errMsg \<rparr>)
            (rg_loads r) \<rparr>)"

definition Snapshot :: "Registry \<Rightarrow> LoadState list" where
  "Snapshot r = sort_key ls_LoadID (map snd (rg_loads r))"

text \<open>The invariant: one entry for each key, filed under its own load id.\<close>

definition reg_ok :: "Registry \<Rightarrow> bool" where
  "reg_ok r \<longleftrightarrow> distinct (map fst (rg_loads r)) \<and> (\<forall>(k, s) \<in> set (rg_loads r). ls_LoadID s = k)"

definition running :: "Registry \<Rightarrow> int \<Rightarrow> bool" where
  "running r i = (case map_of (rg_loads r) i of None \<Rightarrow> False | Some s \<Rightarrow> ls_CurrentlyRunning s)"

lemma reg_ok_New: "reg_ok (runstate_New t)"
  by (simp add: reg_ok_def runstate_New_def)

lemma reg_ok_update:
  assumes "reg_ok r" and "ls_LoadID x = i"
  shows "reg_ok (r\<lparr> rg_loads := AList.update i x (rg_loads r) \<rparr>)"
proof -
  let ?m = "AList.update i x (rg_loads r)"
  have d: "distinct (map fst ?m)"
    using assms(1) by (simp add: reg_ok_def distinct_update)
  have "ls_LoadID s = k" if "(k, s) \<in> set ?m" for k s
  proof -
    have "((map_of (rg_loads r))(i \<mapsto> x)) k = Some s"
      using that d map_of_eq_Some_iff [OF d] by (simp add: AList.update_conv')
    then show ?thesis
      using assms by (auto simp: reg_ok_def split: if_splits dest: map_of_SomeD)
  qed
  with d show ?thesis
    by (auto simp: reg_ok_def)
qed

lemma map_of_id: "reg_ok r \<Longrightarrow> map_of (rg_loads r) i = Some s \<Longrightarrow> ls_LoadID s = i"
  by (auto simp: reg_ok_def dest: map_of_SomeD)

lemma reg_ok_Register: "reg_ok r \<Longrightarrow> reg_ok (Register r s)"
  unfolding Register_def Let_def by (rule reg_ok_update) (auto split: option.split)

lemma reg_ok_MarkRunning: "reg_ok r \<Longrightarrow> reg_ok (MarkRunning r i u t)"
  unfolding MarkRunning_def by (auto split: option.split intro!: reg_ok_update simp: map_of_id)

lemma reg_ok_MarkFinished: "reg_ok r \<Longrightarrow> reg_ok (MarkFinished r i st t a b e)"
  unfolding MarkFinished_def by (auto split: option.split intro!: reg_ok_update simp: map_of_id)

lemma running_MarkRunning [simp]:
  "running (MarkRunning r i u t) j \<longleftrightarrow> (if j = i then map_of (rg_loads r) i \<noteq> None else running r j)"
  by (auto simp: running_def MarkRunning_def AList.update_conv' split: option.splits)

lemma running_MarkFinished [simp]: "running (MarkFinished r i st t a b e) j \<longleftrightarrow> j \<noteq> i \<and> running r j"
  by (auto simp: running_def MarkFinished_def AList.update_conv' split: option.splits)

lemma MarkFinished_status:
  "map_of (rg_loads r) i \<noteq> None \<Longrightarrow>
   map_option ls_LastStatus (map_of (rg_loads (MarkFinished r i st t a b e)) i) = Some st"
  by (auto simp: MarkFinished_def AList.update_conv')

lemma dom_Mark [simp]:
  "map_of (rg_loads (MarkRunning r i u t)) j = None \<longleftrightarrow> map_of (rg_loads r) j = None"
  "map_of (rg_loads (MarkFinished r i st t' a b e)) j = None \<longleftrightarrow> map_of (rg_loads r) j = None"
  by (auto simp: MarkRunning_def MarkFinished_def AList.update_conv' split: option.splits)

section \<open>Properties\<close>

text \<open>
  Registering a load again, as every reload does, keeps what is known of its last run: the
  status, times, counts and error and whether it is running are those of before, the descriptive
  fields are the new ones, no other load changes, and the registry stays well formed.
\<close>

theorem Register_preserves_run:
  assumes "reg_ok r" and "map_of (rg_loads r) (ls_LoadID s) = Some old"
  shows "reg_ok (Register r s) \<and>
         (\<exists>new. map_of (rg_loads (Register r s)) (ls_LoadID s) = Some new \<and>
            ls_CronExpression new = ls_CronExpression s \<and> ls_LoadName new = ls_LoadName s \<and>
            ls_CurrentlyRunning new = ls_CurrentlyRunning old \<and> ls_LastStatus new = ls_LastStatus old \<and>
            ls_LastRunUUID new = ls_LastRunUUID old \<and> ls_LastStartedAt new = ls_LastStartedAt old \<and>
            ls_LastFinishedAt new = ls_LastFinishedAt old \<and> ls_LastRowsRead new = ls_LastRowsRead old \<and>
            ls_LastRowsWritten new = ls_LastRowsWritten old \<and> ls_LastError new = ls_LastError old) \<and>
         (\<forall>j. j \<noteq> ls_LoadID s \<longrightarrow> map_of (rg_loads (Register r s)) j = map_of (rg_loads r) j)"
  using assms reg_ok_Register [of r s] by (simp add: Register_def AList.update_conv')

definition demo_state :: LoadState where
  "demo_state = \<lparr> ls_LoadID = 3, ls_LoadName = ''orders'', ls_SourceName = ''erp'', ls_SourceKind = ''sqlserver'',
     ls_CronExpression = ''* * * * *'', ls_LastRunUUID = [], ls_LastStartedAt = zero_time,
     ls_LastFinishedAt = zero_time, ls_LastStatus = [], ls_LastRowsRead = 0, ls_LastRowsWritten = 0,
     ls_LastError = [], ls_CurrentlyRunning = False \<rparr>"

theorem Register_preserves_run_witness:
  "running (Register (MarkRunning (Register (runstate_New 0) demo_state) 3 ''u'' 1) demo_state) 3"
proof -
  let ?r = "MarkRunning (Register (runstate_New 0) demo_state) 3 ''u'' 1"
  have "reg_ok ?r"
    by (simp add: reg_ok_MarkRunning reg_ok_Register reg_ok_New)
  moreover have id: "ls_LoadID demo_state = 3"
    by (simp add: demo_state_def)
  moreover have "running ?r 3"
    by (simp add: Register_def Let_def AList.update_conv' runstate_New_def demo_state_def)
  then obtain old where "map_of (rg_loads ?r) 3 = Some old" "ls_CurrentlyRunning old"
    by (auto simp: running_def split: option.splits)
  ultimately show ?thesis
    using Register_preserves_run [of ?r demo_state old] by (auto simp: running_def)
qed

text \<open>
  A snapshot lists every registered load exactly once, in strictly increasing order of load id.
\<close>

theorem Snapshot_sorted:
  assumes "reg_ok r"
  shows "sorted_wrt (<) (map ls_LoadID (Snapshot r)) \<and>
         (\<forall>s. s \<in> set (Snapshot r) \<longleftrightarrow> map_of (rg_loads r) (ls_LoadID s) = Some s)"
proof
  have ids: "map ls_LoadID (map snd (rg_loads r)) = map fst (rg_loads r)"
    using assms by (auto simp: reg_ok_def)
  have "distinct (map ls_LoadID (Snapshot r))"
    unfolding Snapshot_def distinct_map
    using assms ids by (metis distinct_map distinct_sort reg_ok_def set_sort)
  then show "sorted_wrt (<) (map ls_LoadID (Snapshot r))"
    by (simp add: strict_sorted_iff Snapshot_def)
  show "\<forall>s. s \<in> set (Snapshot r) \<longleftrightarrow> map_of (rg_loads r) (ls_LoadID s) = Some s"
    using assms by (force simp: Snapshot_def reg_ok_def image_iff dest: map_of_SomeD)
qed

theorem Snapshot_sorted_witness:
  "map ls_LoadID (Snapshot (Register (Register (runstate_New 0) (demo_state\<lparr> ls_LoadID := 9 \<rparr>)) demo_state)) = [3, 9]"
proof -
  let ?r = "Register (Register (runstate_New 0) (demo_state\<lparr> ls_LoadID := 9 \<rparr>)) demo_state"
  have "sorted_wrt (<) (map ls_LoadID (Snapshot ?r))"
    using Snapshot_sorted [of ?r] by (simp add: reg_ok_Register reg_ok_New)
  moreover have "set (map ls_LoadID (Snapshot ?r)) = {3, 9}"
    by (auto simp: Snapshot_def Register_def runstate_New_def demo_state_def Let_def)
  ultimately show ?thesis
    by (intro sorted_distinct_set_unique) (auto simp: strict_sorted_iff)
qed

end
