(* ===== verification/Metrics.thy ===== *)
theory Metrics
  imports GoTime
begin

text \<open>
  \<^verbatim>\<open>internal/metrics/metrics.go\<close>: the calls made on the Prometheus collectors, in order. The collectors
  are a library; what the loader decides is which of them it calls, with which labels and values. A
  value is the integer that is converted to \<^verbatim>\<open>float64\<close>; durations are in nanoseconds.
\<close>

datatype mcall =
    MAdd string "string list" int
  | MSet string "string list" int
  | MObserve string "string list" int

type_synonym metrics = "mcall list"

definition loadLabel :: "string \<Rightarrow> string" where
  "loadLabel name = (if name = [] then ''unknown'' else name)"

definition ObserveRun :: "string \<Rightarrow> string \<Rightarrow> string \<Rightarrow> int \<Rightarrow> int \<Rightarrow> gtime \<Rightarrow> gtime \<Rightarrow> metrics \<Rightarrow> metrics" where
  "ObserveRun loadName status target rowsRead rowsWritten startedAt now M =
     (let label = loadLabel loadName in
      M @ [MAdd ''loader_runs_total'' [label, status] 1,
           MObserve ''loader_run_duration_seconds'' [label] (time_Sub now startedAt)]
        @ (if rowsRead > 0 then [MAdd ''loader_rows_read_total'' [label] rowsRead] else [])
        @ (if rowsWritten > 0 then [MAdd ''loader_rows_written_total'' [label, target] rowsWritten] else [])
        @ (if status = ''success''
           then [MSet ''loader_last_success_timestamp_seconds'' [label] (now div second_ns)] else []))"

definition ObserveOverlapSkip :: "string \<Rightarrow> metrics \<Rightarrow> metrics" where
  "ObserveOverlapSkip loadName M = M @ [MAdd ''loader_overlap_skips_total'' [loadLabel loadName] 1]"

definition ObserveBadQuality :: "string \<Rightarrow> int \<Rightarrow> metrics \<Rightarrow> metrics" where
  "ObserveBadQuality loadName n M =
     (if n \<le> 0 then M else M @ [MAdd ''loader_telemetry_bad_quality_total'' [loadLabel loadName] n])"

definition ObserveWatermarkLag :: "string \<Rightarrow> string \<Rightarrow> gtime \<Rightarrow> metrics \<Rightarrow> metrics" where
  "ObserveWatermarkLag loadName watermarkValue now M =
     (let label = loadLabel loadName; set = (\<lambda>v. M @ [MSet ''loader_watermark_lag_seconds'' [label] v]) in
      if watermarkValue = [] then set 0
      else (case time_Parse watermarkValue of
              Inl _ \<Rightarrow> set 0
            | Inr ts \<Rightarrow> (let lag = time_Sub now ts in set (if lag < 0 then 0 else lag))))"

text \<open>The total a counter has accumulated under given labels.\<close>

definition counter :: "metrics \<Rightarrow> string \<Rightarrow> string list \<Rightarrow> int" where
  "counter M name labels = sum_list (map (\<lambda>c. case c of MAdd n ls v \<Rightarrow> if n = name \<and> ls = labels then v else 0 | _ \<Rightarrow> 0) M)"

lemma counter_append [simp]: "counter (M @ N) name labels = counter M name labels + counter N name labels"
  by (simp add: counter_def)

lemma counter_Nil [simp]: "counter [] name labels = 0"
  by (simp add: counter_def)

lemma counter_Cons [simp]:
  "counter (c # M) name labels =
     (case c of MAdd n ls v \<Rightarrow> if n = name \<and> ls = labels then v else 0 | _ \<Rightarrow> 0) + counter M name labels"
  by (simp add: counter_def)

lemma ObserveRun_runs:
  "counter (ObserveRun l st tg rr rw s now M) ''loader_runs_total'' [loadLabel l, x] =
     counter M ''loader_runs_total'' [loadLabel l, x] + (if x = st then 1 else 0)"
  by (simp add: ObserveRun_def Let_def)

lemma lag_nonneg: "MSet ''loader_watermark_lag_seconds'' ls v \<in> set (ObserveWatermarkLag l w now M) \<Longrightarrow>
  MSet ''loader_watermark_lag_seconds'' ls v \<in> set M \<or> 0 \<le> v"
  by (auto simp: ObserveWatermarkLag_def Let_def split: if_splits sum.splits)

end
