(* ===== verification/Models.thy ===== *)
theory Models
  imports GoTime
begin

text \<open>
  \<^verbatim>\<open>internal/metadata/models.go\<close>: the rows of the metadata tables, and the values that the
  \<^verbatim>\<open>default:\<close> tags give to a field that is zero when a row is created. A \<^verbatim>\<open>*time.Time\<close>, a \<^verbatim>\<open>*int64\<close>
  and a \<^verbatim>\<open>gorm.DeletedAt\<close> are options.
\<close>

record meta_Source =
  ms_ID :: int
  ms_Name :: string
  ms_Kind :: string
  ms_Description :: string
  ms_ParamsJSON :: string
  ms_IsEnabled :: bool
  ms_CreatedAt :: gtime
  ms_UpdatedAt :: gtime
  ms_DeletedAt :: "gtime option"

record meta_Load =
  ld_ID :: int
  ld_SourceID :: int
  ld_Source :: meta_Source
  ld_Name :: string
  ld_ObjectName :: string
  ld_TargetSchema :: string
  ld_TargetTable :: string
  ld_Mode :: string
  ld_WatermarkColumn :: string
  ld_WatermarkType :: string
  ld_BatchSize :: int
  ld_AutoCreateTable :: bool
  ld_CronExpression :: string
  ld_IsEnabled :: bool
  ld_CreatedAt :: gtime
  ld_UpdatedAt :: gtime
  ld_DeletedAt :: "gtime option"

record meta_Watermark =
  mw_LoadID :: int
  mw_Value :: string
  mw_UpdatedAt :: gtime
  mw_PreviousValue :: string
  mw_ResetAt :: "gtime option"
  mw_ResetReason :: string

record LoadRun =
  run_ID :: int
  run_RunUUID :: string
  run_LoadID :: int
  run_Status :: string
  run_StartedAt :: gtime
  run_FinishedAt :: "gtime option"
  run_RowsRead :: int
  run_RowsWritten :: int
  run_WatermarkStart :: string
  run_WatermarkEnd :: string
  run_ErrorMessage :: string
  run_DurationMs :: int

record LogEntry =
  le_ID :: int
  le_CreatedAt :: gtime
  le_Level :: string
  le_RunUUID :: string
  le_LoadID :: "int option"
  le_SourceID :: "int option"
  le_Category :: string
  le_Message :: string
  le_Details :: string

record ModbusTag =
  mt_ID :: int
  mt_LoadID :: int
  mt_CorrelationID :: string
  mt_TagName :: string
  mt_UnitID :: "8 word"
  mt_RegisterType :: string
  mt_Address :: "16 word"
  mt_Quantity :: "16 word"
  mt_DataType :: string
  mt_ByteOrder :: string
  mt_WordOrder :: string
  mt_Scale :: f64
  mt_Offset :: f64
  mt_IsEnabled :: bool

record OPCUANode =
  on_ID :: int
  on_LoadID :: int
  on_TagName :: string
  on_NodeID :: string
  on_Scale :: f64
  on_Offset :: f64
  on_IsEnabled :: bool

text \<open>The zero values of the structs.\<close>

definition zero_Source :: meta_Source where
  "zero_Source = \<lparr> ms_ID = 0, ms_Name = [], ms_Kind = [], ms_Description = [], ms_ParamsJSON = [],
     ms_IsEnabled = False, ms_CreatedAt = zero_time, ms_UpdatedAt = zero_time, ms_DeletedAt = None \<rparr>"

definition zero_Load :: meta_Load where
  "zero_Load = \<lparr> ld_ID = 0, ld_SourceID = 0, ld_Source = zero_Source, ld_Name = [], ld_ObjectName = [],
     ld_TargetSchema = [], ld_TargetTable = [], ld_Mode = [], ld_WatermarkColumn = [], ld_WatermarkType = [],
     ld_BatchSize = 0, ld_AutoCreateTable = False, ld_CronExpression = [], ld_IsEnabled = False,
     ld_CreatedAt = zero_time, ld_UpdatedAt = zero_time, ld_DeletedAt = None \<rparr>"

definition zero_Watermark :: meta_Watermark where
  "zero_Watermark = \<lparr> mw_LoadID = 0, mw_Value = [], mw_UpdatedAt = zero_time, mw_PreviousValue = [],
     mw_ResetAt = None, mw_ResetReason = [] \<rparr>"

definition zero_LoadRun :: LoadRun where
  "zero_LoadRun = \<lparr> run_ID = 0, run_RunUUID = [], run_LoadID = 0, run_Status = [], run_StartedAt = zero_time,
     run_FinishedAt = None, run_RowsRead = 0, run_RowsWritten = 0, run_WatermarkStart = [],
     run_WatermarkEnd = [], run_ErrorMessage = [], run_DurationMs = 0 \<rparr>"

text \<open>The \<^verbatim>\<open>default:\<close> tags: what a zero field of a created row becomes.\<close>

definition Source_defaults :: "meta_Source \<Rightarrow> meta_Source" where
  "Source_defaults s = (if ms_IsEnabled s then s else s\<lparr> ms_IsEnabled := True \<rparr>)"

definition Load_defaults :: "meta_Load \<Rightarrow> meta_Load" where
  "Load_defaults l =
     l\<lparr> ld_TargetSchema := (if ld_TargetSchema l = [] then ''dbo'' else ld_TargetSchema l),
        ld_WatermarkType := (if ld_WatermarkType l = [] then ''none'' else ld_WatermarkType l),
        ld_BatchSize := (if ld_BatchSize l = 0 then 1000 else ld_BatchSize l),
        ld_AutoCreateTable := True,
        ld_IsEnabled := True \<rparr>"

definition ModbusTag_defaults :: "ModbusTag \<Rightarrow> ModbusTag" where
  "ModbusTag_defaults t =
     t\<lparr> mt_UnitID := (if mt_UnitID t = 0 then 1 else mt_UnitID t),
        mt_Quantity := (if mt_Quantity t = 0 then 1 else mt_Quantity t),
        mt_ByteOrder := (if mt_ByteOrder t = [] then ''big'' else mt_ByteOrder t),
        mt_WordOrder := (if mt_WordOrder t = [] then ''high_first'' else mt_WordOrder t),
        mt_Scale := (if mt_Scale t = f64_zero then f64_one else mt_Scale t),
        mt_IsEnabled := True \<rparr>"

definition OPCUANode_defaults :: "OPCUANode \<Rightarrow> OPCUANode" where
  "OPCUANode_defaults n =
     n\<lparr> on_Scale := (if on_Scale n = f64_zero then f64_one else on_Scale n), on_IsEnabled := True \<rparr>"

text \<open>The times GORM sets itself: on creation where they are zero, and \<^verbatim>\<open>UpdatedAt\<close> on every save.\<close>

definition or_time :: "gtime \<Rightarrow> gtime \<Rightarrow> gtime" where
  "or_time now t = (if t = zero_time then now else t)"

definition Source_stamp :: "gtime \<Rightarrow> meta_Source \<Rightarrow> meta_Source" where
  "Source_stamp now s = s\<lparr> ms_CreatedAt := or_time now (ms_CreatedAt s), ms_UpdatedAt := or_time now (ms_UpdatedAt s) \<rparr>"

definition Source_touch :: "gtime \<Rightarrow> meta_Source \<Rightarrow> meta_Source" where
  "Source_touch now s = s\<lparr> ms_UpdatedAt := now \<rparr>"

definition Load_stamp :: "gtime \<Rightarrow> meta_Load \<Rightarrow> meta_Load" where
  "Load_stamp now l = l\<lparr> ld_CreatedAt := or_time now (ld_CreatedAt l), ld_UpdatedAt := or_time now (ld_UpdatedAt l) \<rparr>"

definition Load_touch :: "gtime \<Rightarrow> meta_Load \<Rightarrow> meta_Load" where
  "Load_touch now l = l\<lparr> ld_UpdatedAt := now \<rparr>"

definition Watermark_stamp :: "gtime \<Rightarrow> meta_Watermark \<Rightarrow> meta_Watermark" where
  "Watermark_stamp now w = w\<lparr> mw_UpdatedAt := or_time now (mw_UpdatedAt w) \<rparr>"

definition Watermark_touch :: "gtime \<Rightarrow> meta_Watermark \<Rightarrow> meta_Watermark" where
  "Watermark_touch now w = w\<lparr> mw_UpdatedAt := now \<rparr>"

definition LogEntry_stamp :: "gtime \<Rightarrow> LogEntry \<Rightarrow> LogEntry" where
  "LogEntry_stamp now e = e\<lparr> le_CreatedAt := or_time now (le_CreatedAt e) \<rparr>"

text \<open>The contents of the metadata database.\<close>

record meta_db =
  d_sources :: "meta_Source list"
  d_loads :: "meta_Load list"
  d_watermarks :: "meta_Watermark list"
  d_runs :: "LoadRun list"
  d_logs :: "LogEntry list"
  d_modbus :: "ModbusTag list"
  d_opcua :: "OPCUANode list"

end
