(* ===== verification/Gorm.thy ===== *)
theory Gorm
  imports Models
begin

text \<open>
  The GORM handle the repository works through. GORM, the driver and the metadata server are not part
  of the repository of this program: the handle is a parameter, one record of calls for each table,
  and a \<^verbatim>\<open>Where\<close> or \<^verbatim>\<open>Updates\<close> clause is the predicate or row function it denotes. What the calls do is
  the locale \<open>gorm_rows\<close>, stated on a view of the state as the contents of the tables. A failed call
  has changed nothing. The clock and the UUID generator are calls of the same environment.
\<close>

record ('g, 'row) gorm_table =
  gt_First :: "('row \<Rightarrow> bool) \<Rightarrow> ('g, 'row option) act"
  gt_Find :: "('row \<Rightarrow> bool) \<Rightarrow> ('g, 'row list) act"
  gt_Create :: "'row \<Rightarrow> ('g, 'row) act"
  gt_CreateAll :: "'row list \<Rightarrow> ('g, 'row list) act"
  gt_Save :: "'row \<Rightarrow> ('g, unit) act"
  gt_Updates :: "('row \<Rightarrow> bool) \<Rightarrow> ('row \<Rightarrow> 'row) \<Rightarrow> ('g, int) act"
  gt_Delete :: "('row \<Rightarrow> bool) \<Rightarrow> ('g, int) act"

text \<open>\<^verbatim>\<open>First\<close> returns \<^term>\<open>None\<close> for \<^verbatim>\<open>gorm.ErrRecordNotFound\<close>; \<open>g_DeleteTop\<close> runs a batched delete
  \<^verbatim>\<open>DELETE TOP (n) ... WHERE P\<close> and returns the number of rows; \<open>g_CtxErr\<close> is \<^verbatim>\<open>ctx.Err()\<close>.\<close>

record 'g gorm_db =
  g_sources :: "('g, meta_Source) gorm_table"
  g_loads :: "('g, meta_Load) gorm_table"
  g_watermarks :: "('g, meta_Watermark) gorm_table"
  g_runs :: "('g, LoadRun) gorm_table"
  g_logs :: "('g, LogEntry) gorm_table"
  g_modbus :: "('g, ModbusTag) gorm_table"
  g_opcua :: "('g, OPCUANode) gorm_table"
  g_Transaction :: "('g, unit) act \<Rightarrow> ('g, unit) act"
  g_DeleteTopLogs :: "(LogEntry \<Rightarrow> bool) \<Rightarrow> int \<Rightarrow> ('g, int) act"
  g_DeleteTopRuns :: "(LoadRun \<Rightarrow> bool) \<Rightarrow> int \<Rightarrow> ('g, int) act"
  g_CtxErr :: "'g \<Rightarrow> gerr option"
  g_Now :: "'g \<Rightarrow> gtime \<times> 'g"
  g_NewUUID :: "'g \<Rightarrow> string \<times> 'g"

text \<open>
  One table: \<open>get\<close> and \<open>put\<close> are its place in the database, \<open>key\<close> its primary key, \<open>setkey\<close> fills in the
  key the server chooses, \<open>dflt\<close> the default tags. GORM sets the fields \<^verbatim>\<open>CreatedAt\<close> and \<^verbatim>\<open>UpdatedAt\<close> of a created
  row where they are zero (\<open>stamp\<close>) and \<^verbatim>\<open>UpdatedAt\<close> of a saved row (\<open>touch\<close>).
\<close>

locale gorm_rows =
  fixes T :: "('g, 'row) gorm_table"
    and view :: "'g \<Rightarrow> meta_db"
    and get :: "meta_db \<Rightarrow> 'row list"
    and put :: "('row list \<Rightarrow> 'row list) \<Rightarrow> meta_db \<Rightarrow> meta_db"
    and key :: "'row \<Rightarrow> int"
    and setkey :: "int \<Rightarrow> 'row \<Rightarrow> 'row"
    and dflt :: "'row \<Rightarrow> 'row"
    and stamp :: "gtime \<Rightarrow> 'row \<Rightarrow> 'row"
    and touch :: "gtime \<Rightarrow> 'row \<Rightarrow> 'row"
  assumes first_view: "gt_First T P g = (ro, g') \<Longrightarrow> view g' = view g"
    and first_ok: "gt_First T P g = (Inr x, g') \<Longrightarrow> x = List.find P (get (view g))"
    and find_view: "gt_Find T P g = (rl, g') \<Longrightarrow> view g' = view g"
    and find_ok: "gt_Find T P g = (Inr xs, g') \<Longrightarrow> xs = filter P (get (view g))"
    and create_err: "gt_Create T r g = (Inl e, g') \<Longrightarrow> view g' = view g"
    and create_ok: "gt_Create T r g = (Inr r', g') \<Longrightarrow>
      key r' \<notin> key ` set (get (view g)) \<and> (\<exists>k t. r' = setkey k (stamp t (dflt r))) \<and>
      view g' = put (\<lambda>rs. rs @ [r']) (view g)"
    and createall_err: "gt_CreateAll T rs g = (Inl e, g') \<Longrightarrow> view g' = view g"
    and createall_ok: "gt_CreateAll T rs g = (Inr rs', g') \<Longrightarrow>
      list_all2 (\<lambda>r r'. \<exists>k t. r' = setkey k (stamp t (dflt r))) rs rs' \<and> view g' = put (\<lambda>xs. xs @ rs') (view g)"
    and save_err: "gt_Save T r g = (Inl e, g') \<Longrightarrow> view g' = view g"
    and save_ok: "gt_Save T r g = (Inr u, g') \<Longrightarrow> key r \<in> key ` set (get (view g)) \<Longrightarrow>
      \<exists>t. view g' = put (map (\<lambda>x. if key x = key r then touch t r else x)) (view g)"
    and updates_err: "gt_Updates T P f g = (Inl e, g') \<Longrightarrow> view g' = view g"
    and updates_ok: "gt_Updates T P f g = (Inr n, g') \<Longrightarrow>
      n = int (length (filter P (get (view g)))) \<and> view g' = put (map (\<lambda>x. if P x then f x else x)) (view g)"
    and delete_err: "gt_Delete T P g = (Inl e, g') \<Longrightarrow> view g' = view g"
    and delete_ok: "gt_Delete T P g = (Inr n, g') \<Longrightarrow>
      n = int (length (filter P (get (view g)))) \<and> view g' = put (filter (\<lambda>x. \<not> P x)) (view g)"

text \<open>
  The outcome of \<^verbatim>\<open>DELETE TOP (n) ... WHERE P\<close> on the rows \<open>rs\<close>: some \<open>c\<close> rows with \<open>P\<close> are gone, as many
  as there are up to \<open>n\<close>, and the rows without \<open>P\<close> are all there, in their order.
\<close>

definition deleted_top :: "('row \<Rightarrow> bool) \<Rightarrow> int \<Rightarrow> 'row list \<Rightarrow> 'row list \<Rightarrow> int \<Rightarrow> bool" where
  "deleted_top P n rs rs' c \<longleftrightarrow>
     c = min n (int (length (filter P rs))) \<and> set rs' \<subseteq> set rs \<and>
     filter (\<lambda>x. \<not> P x) rs' = filter (\<lambda>x. \<not> P x) rs \<and>
     int (length (filter P rs')) = int (length (filter P rs)) - c"

text \<open>The whole store: its tables, its transactions and its clock.\<close>

locale gorm_store =
  sr: gorm_rows "g_sources G" view d_sources d_sources_update ms_ID "\<lambda>k r. r\<lparr>ms_ID := k\<rparr>" Source_defaults Source_stamp Source_touch +
  ld: gorm_rows "g_loads G" view d_loads d_loads_update ld_ID "\<lambda>k r. r\<lparr>ld_ID := k\<rparr>" Load_defaults Load_stamp Load_touch +
  wm: gorm_rows "g_watermarks G" view d_watermarks d_watermarks_update mw_LoadID "\<lambda>k r. r" "\<lambda>r. r" Watermark_stamp Watermark_touch +
  rn: gorm_rows "g_runs G" view d_runs d_runs_update run_ID "\<lambda>k r. r\<lparr>run_ID := k\<rparr>" "\<lambda>r. r" "\<lambda>t r. r" "\<lambda>t r. r" +
  lg: gorm_rows "g_logs G" view d_logs d_logs_update le_ID "\<lambda>k r. r\<lparr>le_ID := k\<rparr>" "\<lambda>r. r" LogEntry_stamp "\<lambda>t r. r" +
  mb: gorm_rows "g_modbus G" view d_modbus d_modbus_update mt_ID "\<lambda>k r. r\<lparr>mt_ID := k\<rparr>" ModbusTag_defaults "\<lambda>t r. r" "\<lambda>t r. r" +
  oc: gorm_rows "g_opcua G" view d_opcua d_opcua_update on_ID "\<lambda>k r. r\<lparr>on_ID := k\<rparr>" OPCUANode_defaults "\<lambda>t r. r" "\<lambda>t r. r"
  for G :: "'g gorm_db" and view :: "'g \<Rightarrow> meta_db" +
  assumes tx_err: "g_Transaction G b g = (Inl e, g') \<Longrightarrow> view g' = view g"
    and tx_ok: "g_Transaction G b g = (Inr u, g') \<Longrightarrow>
      \<exists>g0 g1. view g0 = view g \<and> b g0 = (Inr (), g1) \<and> view g' = view g1"
    and now_view: "g_Now G g = (t, g') \<Longrightarrow> view g' = view g"
    and uuid_view: "g_NewUUID G g = (s, g') \<Longrightarrow> view g' = view g"
    and top_logs_err: "g_DeleteTopLogs G P n g = (Inl e, g') \<Longrightarrow> view g' = view g"
    and top_logs_ok: "g_DeleteTopLogs G P n g = (Inr c, g') \<Longrightarrow> 0 \<le> n \<Longrightarrow>
      \<exists>rs'. deleted_top P n (d_logs (view g)) rs' c \<and> view g' = d_logs_update (\<lambda>_. rs') (view g)"
    and top_runs_err: "g_DeleteTopRuns G Q n g = (Inl e, g') \<Longrightarrow> view g' = view g"
    and top_runs_ok: "g_DeleteTopRuns G Q n g = (Inr c, g') \<Longrightarrow> 0 \<le> n \<Longrightarrow>
      \<exists>rs'. deleted_top Q n (d_runs (view g)) rs' c \<and> view g' = d_runs_update (\<lambda>_. rs') (view g)"

section \<open>A store in memory\<close>

text \<open>
  The same calls on tables held in memory, with a counter for keys, a clock that ticks and a script
  of faults. It satisfies the contract.
\<close>

record memgorm =
  mg_db :: meta_db
  mg_next :: int
  mg_clock :: gtime
  mg_gfaults :: "bool list"

definition gcall :: "(memgorm \<Rightarrow> 'a res \<times> memgorm) \<Rightarrow> (memgorm, 'a) act" where
  "gcall f m =
     (case mg_gfaults m of
        [] \<Rightarrow> f m
      | b # bs \<Rightarrow> if b then (Inl (ErrExt ''database is gone''), m\<lparr>mg_gfaults := bs\<rparr>) else f (m\<lparr>mg_gfaults := bs\<rparr>))"

text \<open>A key larger than those in use; a table whose key is given refuses a duplicate.\<close>

definition fresh :: "int \<Rightarrow> int list \<Rightarrow> int" where
  "fresh n ks = Max (insert n (set ks)) + 1"

definition mem_table :: "(meta_db \<Rightarrow> 'row list) \<Rightarrow> (('row list \<Rightarrow> 'row list) \<Rightarrow> meta_db \<Rightarrow> meta_db) \<Rightarrow>
    ('row \<Rightarrow> int) \<Rightarrow> (int \<Rightarrow> 'row \<Rightarrow> 'row) \<Rightarrow> ('row \<Rightarrow> 'row) \<Rightarrow>
    (gtime \<Rightarrow> 'row \<Rightarrow> 'row) \<Rightarrow> (gtime \<Rightarrow> 'row \<Rightarrow> 'row) \<Rightarrow> (memgorm, 'row) gorm_table" where
  "mem_table get put key setkey dflt stamp touch =
     \<lparr> gt_First = (\<lambda>P. gcall (\<lambda>m. (Inr (List.find P (get (mg_db m))), m))),
       gt_Find = (\<lambda>P. gcall (\<lambda>m. (Inr (filter P (get (mg_db m))), m))),
       gt_Create = (\<lambda>r. gcall (\<lambda>m.
          let r' = setkey (fresh (mg_next m) (map key (get (mg_db m)))) (stamp (mg_clock m) (dflt r)) in
          if key r' \<in> key ` set (get (mg_db m)) then (Inl (ErrExt ''duplicate key''), m)
          else (Inr r', m\<lparr>mg_db := put (\<lambda>rs. rs @ [r']) (mg_db m)\<rparr>))),
       gt_CreateAll = (\<lambda>rs. gcall (\<lambda>m.
          let n = fresh (mg_next m) (map key (get (mg_db m)));
              rs' = map (\<lambda>(i, r). setkey (n + int i) (stamp (mg_clock m) (dflt r))) (zip [0..<length rs] rs)
          in (Inr rs', m\<lparr>mg_db := put (\<lambda>xs. xs @ rs') (mg_db m)\<rparr>))),
       gt_Save = (\<lambda>r. gcall (\<lambda>m.
          if key r \<in> key ` set (get (mg_db m))
          then (Inr (), m\<lparr>mg_db := put (map (\<lambda>x. if key x = key r then touch (mg_clock m) r else x)) (mg_db m)\<rparr>)
          else (Inr (), m\<lparr>mg_db := put (\<lambda>rs. rs @ [r]) (mg_db m)\<rparr>))),
       gt_Updates = (\<lambda>P f. gcall (\<lambda>m.
          (Inr (int (length (filter P (get (mg_db m))))), m\<lparr>mg_db := put (map (\<lambda>x. if P x then f x else x)) (mg_db m)\<rparr>))),
       gt_Delete = (\<lambda>P. gcall (\<lambda>m.
          (Inr (int (length (filter P (get (mg_db m))))), m\<lparr>mg_db := put (filter (\<lambda>x. \<not> P x)) (mg_db m)\<rparr>))) \<rparr>"

fun drop_top :: "('row \<Rightarrow> bool) \<Rightarrow> nat \<Rightarrow> 'row list \<Rightarrow> 'row list" where
  "drop_top P n [] = []"
| "drop_top P n (x # xs) =
     (if P x then (case n of 0 \<Rightarrow> x # drop_top P 0 xs | Suc k \<Rightarrow> drop_top P k xs) else x # drop_top P n xs)"

definition mem_tx :: "(memgorm, unit) act \<Rightarrow> (memgorm, unit) act" where
  "mem_tx b = gcall (\<lambda>m. case b m of (Inr _, m') \<Rightarrow> (Inr (), m') | (Inl e, m') \<Rightarrow> (Inl e, m'\<lparr>mg_db := mg_db m\<rparr>))"

definition MemGorm :: "memgorm gorm_db" where
  "MemGorm =
     \<lparr> g_sources = mem_table d_sources d_sources_update ms_ID (\<lambda>k r. r\<lparr>ms_ID := k\<rparr>) Source_defaults Source_stamp Source_touch,
       g_loads = mem_table d_loads d_loads_update ld_ID (\<lambda>k r. r\<lparr>ld_ID := k\<rparr>) Load_defaults Load_stamp Load_touch,
       g_watermarks = mem_table d_watermarks d_watermarks_update mw_LoadID (\<lambda>k r. r) (\<lambda>r. r) Watermark_stamp Watermark_touch,
       g_runs = mem_table d_runs d_runs_update run_ID (\<lambda>k r. r\<lparr>run_ID := k\<rparr>) (\<lambda>r. r) (\<lambda>t r. r) (\<lambda>t r. r),
       g_logs = mem_table d_logs d_logs_update le_ID (\<lambda>k r. r\<lparr>le_ID := k\<rparr>) (\<lambda>r. r) LogEntry_stamp (\<lambda>t r. r),
       g_modbus = mem_table d_modbus d_modbus_update mt_ID (\<lambda>k r. r\<lparr>mt_ID := k\<rparr>) ModbusTag_defaults (\<lambda>t r. r) (\<lambda>t r. r),
       g_opcua = mem_table d_opcua d_opcua_update on_ID (\<lambda>k r. r\<lparr>on_ID := k\<rparr>) OPCUANode_defaults (\<lambda>t r. r) (\<lambda>t r. r),
       g_Transaction = mem_tx,
       g_DeleteTopLogs = (\<lambda>P n. gcall (\<lambda>m.
          (Inr (min n (int (length (filter P (d_logs (mg_db m)))))),
           m\<lparr>mg_db := d_logs_update (\<lambda>_. drop_top P (nat n) (d_logs (mg_db m))) (mg_db m)\<rparr>))),
       g_DeleteTopRuns = (\<lambda>P n. gcall (\<lambda>m.
          (Inr (min n (int (length (filter P (d_runs (mg_db m)))))),
           m\<lparr>mg_db := d_runs_update (\<lambda>_. drop_top P (nat n) (d_runs (mg_db m))) (mg_db m)\<rparr>))),
       g_CtxErr = (\<lambda>m. None),
       g_Now = (\<lambda>m. (mg_clock m, m\<lparr>mg_clock := mg_clock m + 1\<rparr>)),
       g_NewUUID = (\<lambda>m. (''uuid-'' @ itoa (mg_next m), m\<lparr>mg_next := mg_next m + 1\<rparr>)) \<rparr>"

lemma drop_top_spec:
  "set (drop_top P n xs) \<subseteq> set xs \<and> filter (\<lambda>x. \<not> P x) (drop_top P n xs) = filter (\<lambda>x. \<not> P x) xs \<and>
   length (filter P (drop_top P n xs)) = length (filter P xs) - n"
proof (induction P n xs rule: drop_top.induct)
  case (2 P n x xs)
  then show ?case
    by (cases n) (auto split: if_splits)
qed simp

lemma drop_top_deleted:
  "0 \<le> n \<Longrightarrow> deleted_top P n rs (drop_top P (nat n) rs) (min n (int (length (filter P rs))))"
  using drop_top_spec [of P "nat n" rs] by (auto simp: deleted_top_def)

lemma gorm_rows_mem:
  assumes "\<And>f d. get (put f d) = f (get d)"
  shows "gorm_rows (mem_table get put key setkey dflt stamp touch) mg_db get put key setkey dflt stamp touch"
  by unfold_locales
     (auto simp: mem_table_def gcall_def Let_def list_all2_conv_all_nth intro!: exI split: list.splits if_splits)

interpretation memg: gorm_store MemGorm mg_db
proof (intro gorm_store.intro gorm_store_axioms.intro)
  show "gorm_rows (g_sources MemGorm) mg_db d_sources d_sources_update ms_ID (\<lambda>k r. r\<lparr>ms_ID := k\<rparr>) Source_defaults Source_stamp Source_touch"
    "gorm_rows (g_loads MemGorm) mg_db d_loads d_loads_update ld_ID (\<lambda>k r. r\<lparr>ld_ID := k\<rparr>) Load_defaults Load_stamp Load_touch"
    "gorm_rows (g_watermarks MemGorm) mg_db d_watermarks d_watermarks_update mw_LoadID (\<lambda>k r. r) (\<lambda>r. r) Watermark_stamp Watermark_touch"
    "gorm_rows (g_runs MemGorm) mg_db d_runs d_runs_update run_ID (\<lambda>k r. r\<lparr>run_ID := k\<rparr>) (\<lambda>r. r) (\<lambda>t r. r) (\<lambda>t r. r)"
    "gorm_rows (g_logs MemGorm) mg_db d_logs d_logs_update le_ID (\<lambda>k r. r\<lparr>le_ID := k\<rparr>) (\<lambda>r. r) LogEntry_stamp (\<lambda>t r. r)"
    "gorm_rows (g_modbus MemGorm) mg_db d_modbus d_modbus_update mt_ID (\<lambda>k r. r\<lparr>mt_ID := k\<rparr>) ModbusTag_defaults (\<lambda>t r. r) (\<lambda>t r. r)"
    "gorm_rows (g_opcua MemGorm) mg_db d_opcua d_opcua_update on_ID (\<lambda>k r. r\<lparr>on_ID := k\<rparr>) OPCUANode_defaults (\<lambda>t r. r) (\<lambda>t r. r)"
    unfolding MemGorm_def by (simp, rule gorm_rows_mem, simp)+
  fix b g u g'
  assume "g_Transaction MemGorm b g = (Inr u, g')"
  then consider "b g = (Inr (), g')" | bs where "b (g\<lparr>mg_gfaults := bs\<rparr>) = (Inr (), g')"
    by (auto simp: MemGorm_def mem_tx_def gcall_def split: list.splits if_splits prod.splits sum.splits)
  then show "\<exists>g0 g1. mg_db g0 = mg_db g \<and> b g0 = (Inr (), g1) \<and> mg_db g' = mg_db g1"
    by cases (metis, metis memgorm.select_convs(1) memgorm.surjective memgorm.update_convs(4))
qed (auto simp: MemGorm_def gcall_def mem_tx_def intro!: drop_top_deleted
       split: list.splits if_splits prod.splits sum.splits)

end
