(* ===== verification/RunStore.thy ===== *)
theory RunStore
  imports Models
begin

text \<open>
  \<^verbatim>\<open>internal/pipeline/store.go\<close>: the part of the metadata store the runner needs, and its contract. The
  views are the stored watermark of each load and the rows of the run table.
\<close>

record 'r RunStore =
  rs_GetWatermark :: "int \<Rightarrow> ('r, meta_Watermark option) act"
  rs_UpsertWatermark :: "int \<Rightarrow> string \<Rightarrow> ('r, unit) act"
  rs_StartRun :: "int \<Rightarrow> string \<Rightarrow> ('r, LoadRun) act"
  rs_FinishRun :: "LoadRun \<Rightarrow> string \<Rightarrow> int \<Rightarrow> int \<Rightarrow> string \<Rightarrow> string \<Rightarrow> ('r, unit) act"

text \<open>What \<^verbatim>\<open>FinishRun\<close> records of a run.\<close>

definition finished_as :: "string \<Rightarrow> int \<Rightarrow> int \<Rightarrow> string \<Rightarrow> string \<Rightarrow> LoadRun \<Rightarrow> bool" where
  "finished_as status rowsRead rowsWritten watermarkEnd errMsg run \<longleftrightarrow>
     run_Status run = status \<and> run_RowsRead run = rowsRead \<and> run_RowsWritten run = rowsWritten \<and>
     run_WatermarkEnd run = watermarkEnd \<and> run_ErrorMessage run = errMsg \<and> run_FinishedAt run \<noteq> None"

definition by_id :: "LoadRun list \<Rightarrow> int \<rightharpoonup> LoadRun" where
  "by_id rs i = List.find (\<lambda>x. run_ID x = i) rs"

locale run_store =
  fixes S :: "'r RunStore"
    and wmark :: "'r \<Rightarrow> int \<rightharpoonup> string"
    and runs :: "'r \<Rightarrow> int \<rightharpoonup> LoadRun"
  assumes get_view: "rs_GetWatermark S i s = (rw, s') \<Longrightarrow> wmark s' = wmark s \<and> runs s' = runs s"
    and get_ok: "rs_GetWatermark S i s = (Inr wo, s') \<Longrightarrow> map_option mw_Value wo = wmark s i"
    and upsert_err: "rs_UpsertWatermark S i v s = (Inl e, s') \<Longrightarrow> wmark s' = wmark s \<and> runs s' = runs s"
    and upsert_ok: "rs_UpsertWatermark S i v s = (Inr u, s') \<Longrightarrow> wmark s' = (wmark s)(i \<mapsto> v) \<and> runs s' = runs s"
    and start_err: "rs_StartRun S i v s = (Inl e, s') \<Longrightarrow> wmark s' = wmark s \<and> runs s' = runs s"
    and start_ok: "rs_StartRun S i v s = (Inr run, s') \<Longrightarrow>
      wmark s' = wmark s \<and> runs s (run_ID run) = None \<and> runs s' = (runs s)(run_ID run \<mapsto> run) \<and>
      run_LoadID run = i \<and> run_Status run = ''running'' \<and> run_WatermarkStart run = v"
    and finish_err: "rs_FinishRun S run st a b w m s = (Inl e, s') \<Longrightarrow> wmark s' = wmark s \<and> runs s' = runs s"
    and finish_ok: "rs_FinishRun S run st a b w m s = (Inr u, s') \<Longrightarrow> runs s (run_ID run) \<noteq> None \<Longrightarrow>
      wmark s' = wmark s \<and>
      (\<exists>run'. runs s' = (runs s)(run_ID run \<mapsto> run') \<and> finished_as st a b w m run' \<and>
              run_LoadID run' = run_LoadID run \<and> run_RunUUID run' = run_RunUUID run)"
begin

lemma finish_wmark:
  assumes "rs_FinishRun S run st a b w m s = (r, s')" and "runs s (run_ID run) \<noteq> None"
  shows "wmark s' = wmark s"
  using assms finish_err [of run st a b w m s] finish_ok [of run st a b w m s] by (cases r) auto

lemma finish_others:
  assumes "rs_FinishRun S run st a b w m s = (r, s')" and "runs s (run_ID run) \<noteq> None" and "j \<noteq> run_ID run"
  shows "runs s' j = runs s j"
  using assms finish_err [of run st a b w m s] finish_ok [of run st a b w m s] by (cases r) fastforce+

end

end
