(* ===== verification/Repository.thy ===== *)
theory Repository
  imports Gorm RunStore
begin

text \<open>
  \<^verbatim>\<open>internal/metadata/repository.go\<close> and \<^verbatim>\<open>telemetry.go\<close>: the typed access to the metadata store, over the
  GORM handle \<open>G\<close>. The models with a \<^verbatim>\<open>DeletedAt\<close> field get GORM's own \<^verbatim>\<open>deleted_at IS NULL\<close> in every
  query. The sublocale shows that the repository is a \<open>run_store\<close> for the runner.
\<close>

section \<open>Sources and loads\<close>

definition preload :: "meta_Source list \<Rightarrow> meta_Load \<Rightarrow> meta_Load" where
  "preload ss l = (case List.find (\<lambda>s. ms_ID s = ld_SourceID l) ss of
                     None \<Rightarrow> l\<lparr> ld_Source := zero_Source \<rparr> | Some s \<Rightarrow> l\<lparr> ld_Source := s \<rparr>)"

definition ListEnabledLoads :: "'g gorm_db \<Rightarrow> ('g, meta_Load list) act" where
  "ListEnabledLoads G =
     bindA (gt_Find (g_sources G) (\<lambda>s. ms_DeletedAt s = None)) (\<lambda>ss.
     bindA (gt_Find (g_loads G) (\<lambda>l. ld_DeletedAt l = None \<and> ld_IsEnabled l \<and>
              (\<exists>s \<in> set ss. ms_ID s = ld_SourceID l \<and> ms_IsEnabled s))) (\<lambda>loads.
     retA (map (preload ss) loads)))"

text \<open>\<^verbatim>\<open>DATEDIFF(millisecond, a, b)\<close> counts the millisecond boundaries between its arguments.\<close>

definition datediff_ms :: "gtime \<Rightarrow> gtime \<Rightarrow> int" where
  "datediff_ms a b = b div 1000000 - a div 1000000"

definition AbortRunningRuns :: "'g gorm_db \<Rightarrow> string \<Rightarrow> ('g, int) act" where
  "AbortRunningRuns G reason g =
     (case g_Now G g of (now, g1) \<Rightarrow>
        gt_Updates (g_runs G) (\<lambda>r. run_Status r = ''running'')
          (\<lambda>r. r\<lparr> run_Status := ''aborted'', run_FinishedAt := Some now,
                  run_ErrorMessage := (if reason = [] then ''aborted'' else reason),
                  run_DurationMs := datediff_ms (run_StartedAt r) now \<rparr>) g1)"

definition ErrRecordNotFound :: gerr where "ErrRecordNotFound = ErrExt ''record not found''"

definition GetLoad :: "'g gorm_db \<Rightarrow> int \<Rightarrow> ('g, meta_Load) act" where
  "GetLoad G i =
     bindA (gt_First (g_loads G) (\<lambda>l. ld_DeletedAt l = None \<and> ld_ID l = i)) (\<lambda>x.
     case x of
       None \<Rightarrow> failA ErrRecordNotFound
     | Some l \<Rightarrow> bindA (gt_Find (g_sources G) (\<lambda>s. ms_DeletedAt s = None)) (\<lambda>ss. retA (preload ss l)))"

section \<open>Watermarks\<close>

definition GetWatermark :: "'g gorm_db \<Rightarrow> int \<Rightarrow> ('g, meta_Watermark option) act" where
  "GetWatermark G loadID = gt_First (g_watermarks G) (\<lambda>w. mw_LoadID w = loadID)"

definition UpsertWatermark :: "'g gorm_db \<Rightarrow> int \<Rightarrow> string \<Rightarrow> ('g, unit) act" where
  "UpsertWatermark G loadID newValue =
     g_Transaction G
       (bindA (gt_First (g_watermarks G) (\<lambda>w. mw_LoadID w = loadID)) (\<lambda>x g.
        case g_Now G g of (now, g1) \<Rightarrow>
          (case x of
             None \<Rightarrow>
               bindA (gt_Create (g_watermarks G)
                 (zero_Watermark\<lparr> mw_LoadID := loadID, mw_Value := newValue, mw_UpdatedAt := now \<rparr>)) (\<lambda>_. retA ()) g1
           | Some w \<Rightarrow>
               gt_Save (g_watermarks G)
                 (w\<lparr> mw_PreviousValue := mw_Value w, mw_Value := newValue, mw_UpdatedAt := now \<rparr>) g1)))"

definition ResetWatermark :: "'g gorm_db \<Rightarrow> int \<Rightarrow> string \<Rightarrow> ('g, unit) act" where
  "ResetWatermark G loadID reason g =
     (case g_Now G g of (now, g1) \<Rightarrow>
        bindA (gt_Updates (g_watermarks G) (\<lambda>w. mw_LoadID w = loadID)
          (\<lambda>w. w\<lparr> mw_PreviousValue := mw_Value w, mw_Value := [], mw_ResetAt := Some now,
                  mw_ResetReason := reason, mw_UpdatedAt := now \<rparr>)) (\<lambda>_. retA ()) g1)"

section \<open>Load runs\<close>

definition StartRun :: "'g gorm_db \<Rightarrow> int \<Rightarrow> string \<Rightarrow> ('g, LoadRun) act" where
  "StartRun G loadID watermarkStart g =
     (case g_NewUUID G g of (uuid, g1) \<Rightarrow> case g_Now G g1 of (now, g2) \<Rightarrow>
        gt_Create (g_runs G)
          (zero_LoadRun\<lparr> run_RunUUID := uuid, run_LoadID := loadID, run_Status := ''running'',
                         run_StartedAt := now, run_WatermarkStart := watermarkStart \<rparr>) g2)"

definition FinishRun :: "'g gorm_db \<Rightarrow> LoadRun \<Rightarrow> string \<Rightarrow> int \<Rightarrow> int \<Rightarrow> string \<Rightarrow> string \<Rightarrow> ('g, unit) act" where
  "FinishRun G run status rowsRead rowsWritten watermarkEnd errMsg g =
     (case g_Now G g of (now, g1) \<Rightarrow>
        gt_Save (g_runs G)
          (run\<lparr> run_FinishedAt := Some now, run_Status := status, run_RowsRead := rowsRead,
                run_RowsWritten := rowsWritten, run_WatermarkEnd := watermarkEnd, run_ErrorMessage := errMsg,
                run_DurationMs := Milliseconds (time_Sub now (run_StartedAt run)) \<rparr>) g1)"

section \<open>Logs and housekeeping\<close>

definition Repository_Log :: "'g gorm_db \<Rightarrow> LogEntry \<Rightarrow> ('g, unit) act" where
  "Repository_Log G e g =
     (case (if le_CreatedAt e = zero_time then (case g_Now G g of (now, g1) \<Rightarrow> (e\<lparr> le_CreatedAt := now \<rparr>, g1)) else (e, g)) of
        (e', g1) \<Rightarrow> bindA (gt_Create (g_logs G) e') (\<lambda>_. retA ()) g1)"

text \<open>
  The loop of \<^verbatim>\<open>pruneInBatches\<close>: \<open>del n\<close> deletes at most \<open>n\<close> rows, \<open>ctx\<close> is \<^verbatim>\<open>ctx.Err()\<close>. The result is the
  number of rows deleted and the error; \<^term>\<open>None\<close> would be a loop that never ends.
\<close>

partial_function (option) prune_loop :: "(int \<Rightarrow> ('g, int) act) \<Rightarrow> ('g \<Rightarrow> gerr option) \<Rightarrow> int \<Rightarrow> int \<Rightarrow> int \<Rightarrow> 'g
    \<Rightarrow> ((int \<times> gerr option) \<times> 'g) option" where
  "prune_loop del ctx batchSize pause totalDeleted g =
     (case ctx g of
        Some e \<Rightarrow> Some ((totalDeleted, Some e), g)
      | None \<Rightarrow>
          (case del batchSize g of
             (Inl e, g') \<Rightarrow> Some ((totalDeleted, Some e), g')
           | (Inr n, g') \<Rightarrow>
               if n < batchSize then Some ((totalDeleted + n, None), g')
               else if pause > 0 then
                 (case ctx g' of
                    Some e \<Rightarrow> Some ((totalDeleted + n, Some e), g')
                  | None \<Rightarrow> prune_loop del ctx batchSize pause (totalDeleted + n) g')
               else prune_loop del ctx batchSize pause (totalDeleted + n) g'))"

definition pruneInBatches :: "(int \<Rightarrow> ('g, int) act) \<Rightarrow> ('g \<Rightarrow> gerr option) \<Rightarrow> int \<Rightarrow> int \<Rightarrow> 'g
    \<Rightarrow> ((int \<times> gerr option) \<times> 'g) option" where
  "pruneInBatches del ctx batchSize pause g =
     prune_loop del ctx (if batchSize \<le> 0 then 5000 else batchSize) pause 0 g"

definition PruneLogEntries :: "'g gorm_db \<Rightarrow> gtime \<Rightarrow> int \<Rightarrow> int \<Rightarrow> 'g \<Rightarrow> ((int \<times> gerr option) \<times> 'g) option" where
  "PruneLogEntries G cutoff batchSize pause =
     pruneInBatches (g_DeleteTopLogs G (\<lambda>e. le_CreatedAt e < cutoff)) (g_CtxErr G) batchSize pause"

definition PruneLoadRuns :: "'g gorm_db \<Rightarrow> gtime \<Rightarrow> int \<Rightarrow> int \<Rightarrow> 'g \<Rightarrow> ((int \<times> gerr option) \<times> 'g) option" where
  "PruneLoadRuns G cutoff batchSize pause =
     pruneInBatches (g_DeleteTopRuns G (\<lambda>r. run_StartedAt r < cutoff \<and>
                       run_Status r \<in> {''success'', ''failed'', ''aborted''})) (g_CtxErr G) batchSize pause"

section \<open>Telemetry points (telemetry.go)\<close>

definition listModbusTagRows :: "'g gorm_db \<Rightarrow> int \<Rightarrow> ('g, ModbusTag list) act" where
  "listModbusTagRows G loadID =
     bindA (gt_Find (g_modbus G) (\<lambda>t. mt_LoadID t = loadID \<and> mt_IsEnabled t)) (\<lambda>tags. retA (sort_key mt_ID tags))"

definition listOPCUANodeRows :: "'g gorm_db \<Rightarrow> int \<Rightarrow> ('g, OPCUANode list) act" where
  "listOPCUANodeRows G loadID =
     bindA (gt_Find (g_opcua G) (\<lambda>n. on_LoadID n = loadID \<and> on_IsEnabled n)) (\<lambda>nodes. retA (sort_key on_ID nodes))"

definition modbus_point :: "ModbusTag \<Rightarrow> ModbusPoint" where
  "modbus_point t =
     \<lparr> mp_CorrelationID = mt_CorrelationID t, mp_TagName = mt_TagName t, mp_UnitID = mt_UnitID t,
       mp_RegisterType = mt_RegisterType t, mp_Address = mt_Address t, mp_Quantity = mt_Quantity t,
       mp_DataType = mt_DataType t, mp_ByteOrder = mt_ByteOrder t, mp_WordOrder = mt_WordOrder t,
       mp_Scale = mt_Scale t, mp_Offset = mt_Offset t \<rparr>"

definition opcua_point :: "OPCUANode \<Rightarrow> OPCUAPoint" where
  "opcua_point n =
     \<lparr> op_TagName = on_TagName n, op_NodeID = on_NodeID n, op_Scale = on_Scale n, op_Offset = on_Offset n \<rparr>"

definition ListModbusTags :: "'g gorm_db \<Rightarrow> int \<Rightarrow> ('g, ModbusPoint list) act" where
  "ListModbusTags G loadID = bindA (listModbusTagRows G loadID) (\<lambda>tags. retA (map modbus_point tags))"

definition ListOPCUANodes :: "'g gorm_db \<Rightarrow> int \<Rightarrow> ('g, OPCUAPoint list) act" where
  "ListOPCUANodes G loadID = bindA (listOPCUANodeRows G loadID) (\<lambda>nodes. retA (map opcua_point nodes))"

text \<open>\<^verbatim>\<open>*metadata.Repository\<close> as the \<^verbatim>\<open>RunStore\<close> of the runner.\<close>

definition repo_RunStore :: "'g gorm_db \<Rightarrow> 'g RunStore" where
  "repo_RunStore G = \<lparr> rs_GetWatermark = GetWatermark G, rs_UpsertWatermark = UpsertWatermark G,
                       rs_StartRun = StartRun G, rs_FinishRun = FinishRun G \<rparr>"

definition stored_wmark :: "meta_db \<Rightarrow> int \<rightharpoonup> string" where
  "stored_wmark d i = map_option mw_Value (List.find (\<lambda>w. mw_LoadID w = i) (d_watermarks d))"

definition stored_runs :: "meta_db \<Rightarrow> int \<rightharpoonup> LoadRun" where
  "stored_runs d = by_id (d_runs d)"

section \<open>The repository is a run store\<close>

context gorm_store
begin

lemma GetWatermark_view: "GetWatermark G i g = (r, g') \<Longrightarrow> view g' = view g"
  unfolding GetWatermark_def by (rule wm.first_view)

lemma GetWatermark_ok: "GetWatermark G i g = (Inr w, g') \<Longrightarrow> map_option mw_Value w = stored_wmark (view g) i"
  using wm.first_ok by (simp add: GetWatermark_def stored_wmark_def)

lemma UpsertWatermark_err: "UpsertWatermark G i v g = (Inl e, g') \<Longrightarrow> view g' = view g"
  unfolding UpsertWatermark_def by (rule tx_err)

lemma UpsertWatermark_ok:
  assumes "UpsertWatermark G i v g = (Inr u, g')"
  shows "stored_wmark (view g') = (stored_wmark (view g))(i \<mapsto> v) \<and>
         view g' = d_watermarks_update (\<lambda>_. d_watermarks (view g')) (view g)"
proof -
  obtain g0 x g1 now g2 g3 where v0: "view g0 = view g" and v3: "view g' = view g3"
    and first: "gt_First (g_watermarks G) (\<lambda>w. mw_LoadID w = i) g0 = (Inr x, g1)"
    and now: "g_Now G g1 = (now, g2)"
    and br: "(case x of
             None \<Rightarrow>
               bindA (gt_Create (g_watermarks G)
                 (zero_Watermark\<lparr> mw_LoadID := i, mw_Value := v, mw_UpdatedAt := now \<rparr>)) (\<lambda>_. retA ()) g2
           | Some w \<Rightarrow>
               gt_Save (g_watermarks G)
                 (w\<lparr> mw_PreviousValue := mw_Value w, mw_Value := v, mw_UpdatedAt := now \<rparr>) g2) = (Inr (), g3)"
    using tx_ok [OF assms [unfolded UpsertWatermark_def]] by (auto elim!: bindA_InrE split: prod.splits)
  have x: "x = List.find (\<lambda>w. mw_LoadID w = i) (d_watermarks (view g))" and v2: "view g2 = view g"
    using wm.first_ok [OF first] wm.first_view [OF first] now_view [OF now] v0 by simp_all
  show ?thesis
  proof (cases x)
    case None
    let ?r = "zero_Watermark\<lparr> mw_LoadID := i, mw_Value := v, mw_UpdatedAt := now \<rparr>"
    obtain r' where cr: "gt_Create (g_watermarks G) ?r g2 = (Inr r', g3)"
      using br None by (auto elim!: bindA_InrE)
    have r': "mw_LoadID r' = i" "mw_Value r' = v" "mw_LoadID r' \<notin> mw_LoadID ` set (d_watermarks (view g))"
      "view g3 = d_watermarks_update (\<lambda>rs. rs @ [r']) (view g)"
      using wm.create_ok [OF cr] v2 by (auto simp: Watermark_stamp_def)
    show ?thesis
      using find_append_new [OF r'(3)] r'(1,2) v3 r'(4) by (auto simp: stored_wmark_def fun_eq_iff)
  next
    case (Some w)
    let ?r = "w\<lparr> mw_PreviousValue := mw_Value w, mw_Value := v, mw_UpdatedAt := now \<rparr>"
    have "List.find (\<lambda>w. mw_LoadID w = i) (d_watermarks (view g)) = Some w"
      using Some x by simp
    note w = conjunct1 [OF find_SomeD [OF this]] conjunct2 [OF find_SomeD [OF this]]
    from w have mem: "mw_LoadID ?r \<in> mw_LoadID ` set (d_watermarks (view g2))"
      using v2 by auto
    have sv: "gt_Save (g_watermarks G) ?r g2 = (Inr (), g3)"
      using br Some by simp
    obtain t where g3: "view g3 = d_watermarks_update (map (\<lambda>x. if mw_LoadID x = mw_LoadID ?r then Watermark_touch t ?r else x)) (view g)"
      using wm.save_ok [OF sv mem] v2 by auto
    have "mw_LoadID (Watermark_touch t ?r) \<in> mw_LoadID ` set (d_watermarks (view g2))"
      using mem by (simp add: Watermark_touch_def)
    then show ?thesis
      using find_map_update [of mw_LoadID "Watermark_touch t ?r" "d_watermarks (view g2)"] g3 v2 v3 w(1) by (auto simp: stored_wmark_def fun_eq_iff Watermark_touch_def)
  qed
qed

lemma StartRun_err: "StartRun G i v g = (Inl e, g') \<Longrightarrow> view g' = view g"
  unfolding StartRun_def using rn.create_err now_view uuid_view by (auto split: prod.splits)

lemma StartRun_ok:
  assumes "StartRun G i v g = (Inr run, g')"
  shows "view g' = d_runs_update (\<lambda>rs. rs @ [run]) (view g) \<and> run_ID run \<notin> run_ID ` set (d_runs (view g)) \<and>
         run_LoadID run = i \<and> run_Status run = ''running'' \<and> run_WatermarkStart run = v"
proof -
  obtain uuid g1 now g2 where u: "g_NewUUID G g = (uuid, g1)" and n: "g_Now G g1 = (now, g2)"
    and c: "gt_Create (g_runs G) (zero_LoadRun\<lparr> run_RunUUID := uuid, run_LoadID := i, run_Status := ''running'',
                         run_StartedAt := now, run_WatermarkStart := v \<rparr>) g2 = (Inr run, g')"
    using assms unfolding StartRun_def by (auto split: prod.splits)
  show ?thesis
    using rn.create_ok [OF c] uuid_view [OF u] now_view [OF n] by auto
qed

lemma FinishRun_err: "FinishRun G run st a b w m g = (Inl e, g') \<Longrightarrow> view g' = view g"
  unfolding FinishRun_def using rn.save_err now_view by (auto split: prod.splits)

lemma FinishRun_ok:
  assumes "FinishRun G run st a b w m g = (Inr u, g')" and "run_ID run \<in> run_ID ` set (d_runs (view g))"
  shows "\<exists>run'. view g' = d_runs_update (map (\<lambda>x. if run_ID x = run_ID run then run' else x)) (view g) \<and>
           finished_as st a b w m run' \<and> run_LoadID run' = run_LoadID run \<and> run_RunUUID run' = run_RunUUID run \<and>
           run_ID run' = run_ID run"
proof -
  obtain now g1 where n: "g_Now G g = (now, g1)"
    and s: "gt_Save (g_runs G) (run\<lparr> run_FinishedAt := Some now, run_Status := st, run_RowsRead := a,
                run_RowsWritten := b, run_WatermarkEnd := w, run_ErrorMessage := m,
                run_DurationMs := Milliseconds (time_Sub now (run_StartedAt run)) \<rparr>) g1 = (Inr u, g')"
    using assms(1) unfolding FinishRun_def by (auto split: prod.splits)
  show ?thesis
    using rn.save_ok [OF s] now_view [OF n] assms(2) by (fastforce simp: finished_as_def)
qed

end

sublocale gorm_store \<subseteq> repo: run_store "repo_RunStore G" "\<lambda>g. stored_wmark (view g)" "\<lambda>g. stored_runs (view g)"
proof
  fix i v e s s' st a b w m run u
  show "stored_wmark (view s') = stored_wmark (view s) \<and> stored_runs (view s') = stored_runs (view s)"
    if "rs_GetWatermark (repo_RunStore G) i s = (rw, s')" for rw
    using that GetWatermark_view by (simp add: repo_RunStore_def)
  show "map_option mw_Value wo = stored_wmark (view s) i" if "rs_GetWatermark (repo_RunStore G) i s = (Inr wo, s')" for wo
    using that GetWatermark_ok by (simp add: repo_RunStore_def)
  show "stored_wmark (view s') = stored_wmark (view s) \<and> stored_runs (view s') = stored_runs (view s)"
    if "rs_UpsertWatermark (repo_RunStore G) i v s = (Inl e, s')"
    using that UpsertWatermark_err by (simp add: repo_RunStore_def)
  show "stored_wmark (view s') = (stored_wmark (view s))(i \<mapsto> v) \<and> stored_runs (view s') = stored_runs (view s)"
    if "rs_UpsertWatermark (repo_RunStore G) i v s = (Inr u, s')"
  proof -
    have "view s' = d_watermarks_update (\<lambda>_. d_watermarks (view s')) (view s)"
      "stored_wmark (view s') = (stored_wmark (view s))(i \<mapsto> v)"
      using UpsertWatermark_ok [of i v s u s'] that by (simp_all add: repo_RunStore_def)
    moreover from this(1) have "d_runs (view s') = d_runs (view s)"
      by (metis meta_db.select_convs(4) meta_db.surjective meta_db.update_convs(3))
    ultimately show ?thesis
      by (simp add: stored_runs_def)
  qed
  show "stored_wmark (view s') = stored_wmark (view s) \<and> stored_runs (view s') = stored_runs (view s)"
    if "rs_StartRun (repo_RunStore G) i v s = (Inl e, s')"
    using that StartRun_err by (simp add: repo_RunStore_def)
  show "stored_wmark (view s') = stored_wmark (view s) \<and> stored_runs (view s) (run_ID run) = None \<and>
      stored_runs (view s') = (stored_runs (view s))(run_ID run \<mapsto> run) \<and>
      run_LoadID run = i \<and> run_Status run = ''running'' \<and> run_WatermarkStart run = v"
    if "rs_StartRun (repo_RunStore G) i v s = (Inr run, s')"
    using StartRun_ok [of i v s run s'] that find_append_new [of run_ID run "d_runs (view s)"]
    by (auto simp: repo_RunStore_def stored_wmark_def stored_runs_def by_id_def find_None fun_eq_iff)
  show "stored_wmark (view s') = stored_wmark (view s) \<and> stored_runs (view s') = stored_runs (view s)"
    if "rs_FinishRun (repo_RunStore G) run st a b w m s = (Inl e, s')"
    using that FinishRun_err by (simp add: repo_RunStore_def)
  show "stored_wmark (view s') = stored_wmark (view s) \<and>
      (\<exists>run'. stored_runs (view s') = (stored_runs (view s))(run_ID run \<mapsto> run') \<and> finished_as st a b w m run' \<and>
              run_LoadID run' = run_LoadID run \<and> run_RunUUID run' = run_RunUUID run)"
    if "rs_FinishRun (repo_RunStore G) run st a b w m s = (Inr u, s')" and "stored_runs (view s) (run_ID run) \<noteq> None"
  proof -
    have mem: "run_ID run \<in> run_ID ` set (d_runs (view s))"
      using that(2) unfolding stored_runs_def by_id_def find_None by simp
    have "FinishRun G run st a b w m s = (Inr u, s')"
      using that(1) by (simp add: repo_RunStore_def)
    from FinishRun_ok [OF this mem] obtain run' where r: "view s' = d_runs_update (map (\<lambda>x. if run_ID x = run_ID run then run' else x)) (view s)"
      "finished_as st a b w m run'" "run_LoadID run' = run_LoadID run" "run_RunUUID run' = run_RunUUID run"
      "run_ID run' = run_ID run"
      by blast
    have "stored_runs (view s') = (stored_runs (view s))(run_ID run \<mapsto> run')"
      using find_map_update [of run_ID run' "d_runs (view s)"] mem r(1,5)
      by (auto simp: stored_runs_def by_id_def fun_eq_iff)
    then show ?thesis
      using r by (auto simp: stored_wmark_def)
  qed
qed

section \<open>Pruning\<close>

text \<open>
  The loop returns, whatever fails on the way: a round that does not end it has deleted a full batch.
  \<open>rows\<close> is the table, \<open>rest\<close> everything else.
\<close>

lemma prune_loop_returns:
  assumes err: "\<And>g e g'. del bs g = (Inl e, g') \<Longrightarrow> rows g' = rows g \<and> rest g' = rest g"
    and ok: "\<And>g c g'. del bs g = (Inr c, g') \<Longrightarrow> deleted_top P bs (rows g) (rows g') c \<and> rest g' = rest g"
    and pos: "0 < bs"
  shows "\<exists>t e g'. prune_loop del ctx bs pause acc g = Some ((t, e), g') \<and> rest g' = rest g \<and>
           filter (\<lambda>x. \<not> P x) (rows g') = filter (\<lambda>x. \<not> P x) (rows g) \<and> set (rows g') \<subseteq> set (rows g) \<and>
           t - acc = int (length (filter P (rows g))) - int (length (filter P (rows g'))) \<and>
           (e = None \<longrightarrow> filter P (rows g') = [])"
proof (induction "length (filter P (rows g))" arbitrary: g acc rule: less_induct)
  case less
  note step = prune_loop.simps [of del ctx bs pause acc g]
  show ?case
  proof (cases "ctx g")
    case (Some e)
    then show ?thesis by (simp add: step)
  next
    case None
    obtain r g1 where del: "del bs g = (r, g1)" by fastforce
    show ?thesis
    proof (cases r)
      case (Inl e)
      then show ?thesis
        using None del err [of g e g1] by (simp add: step)
    next
      case (Inr c)
      then have d: "deleted_top P bs (rows g) (rows g1) c" and f: "rest g1 = rest g"
        using ok del by blast+
      show ?thesis
      proof (cases "c < bs")
        case True
        then show ?thesis
          using None del Inr d f by (auto simp: step deleted_top_def min_def split: if_splits)
      next
        case False
        then have lt: "length (filter P (rows g1)) < length (filter P (rows g))"
          using d pos by (auto simp: deleted_top_def)
        show ?thesis
        proof (cases "pause > 0 \<and> ctx g1 \<noteq> None")
          case True
          then show ?thesis
            using None del Inr False d f by (auto simp: step deleted_top_def)
        next
          case go: False
          then have "prune_loop del ctx bs pause acc g = prune_loop del ctx bs pause (acc + c) g1"
            using None del Inr False by (auto simp: step)
          then show ?thesis
            using less [OF lt, of "acc + c"] d f by (fastforce simp: deleted_top_def)
        qed
      qed
    qed
  qed
qed

context gorm_store
begin

lemma DeleteTopRuns_view:
  assumes "g_DeleteTopRuns G Q n g = (Inr c, g')" and "0 \<le> n"
  shows "deleted_top Q n (d_runs (view g)) (d_runs (view g')) c \<and>
         d_runs_update (\<lambda>_. []) (view g') = d_runs_update (\<lambda>_. []) (view g)"
  using top_runs_ok [OF assms] by auto

lemma DeleteTopLogs_view:
  assumes "g_DeleteTopLogs G Q n g = (Inr c, g')" and "0 \<le> n"
  shows "deleted_top Q n (d_logs (view g)) (d_logs (view g')) c \<and>
         d_logs_update (\<lambda>_. []) (view g') = d_logs_update (\<lambda>_. []) (view g)"
  using top_logs_ok [OF assms] by auto

lemma prune_runs:
  "\<exists>t e g'. pruneInBatches (g_DeleteTopRuns G Q) ctx batchSize pause g = Some ((t, e), g') \<and>
     d_runs_update (\<lambda>_. []) (view g') = d_runs_update (\<lambda>_. []) (view g) \<and>
     filter (\<lambda>x. \<not> Q x) (d_runs (view g')) = filter (\<lambda>x. \<not> Q x) (d_runs (view g)) \<and>
     set (d_runs (view g')) \<subseteq> set (d_runs (view g)) \<and>
     t = int (length (filter Q (d_runs (view g)))) - int (length (filter Q (d_runs (view g')))) \<and>
     (e = None \<longrightarrow> filter Q (d_runs (view g')) = [])"
  using prune_loop_returns [of "g_DeleteTopRuns G Q" "if batchSize \<le> 0 then 5000 else batchSize"
      "\<lambda>g. d_runs (view g)" "\<lambda>g. d_runs_update (\<lambda>_. []) (view g)" Q ctx pause 0 g]
    DeleteTopRuns_view top_runs_err by (simp add: pruneInBatches_def)

lemma prune_logs:
  "\<exists>t e g'. pruneInBatches (g_DeleteTopLogs G Q) ctx batchSize pause g = Some ((t, e), g') \<and>
     d_logs_update (\<lambda>_. []) (view g') = d_logs_update (\<lambda>_. []) (view g) \<and>
     filter (\<lambda>x. \<not> Q x) (d_logs (view g')) = filter (\<lambda>x. \<not> Q x) (d_logs (view g)) \<and>
     set (d_logs (view g')) \<subseteq> set (d_logs (view g)) \<and>
     t = int (length (filter Q (d_logs (view g)))) - int (length (filter Q (d_logs (view g')))) \<and>
     (e = None \<longrightarrow> filter Q (d_logs (view g')) = [])"
  using prune_loop_returns [of "g_DeleteTopLogs G Q" "if batchSize \<le> 0 then 5000 else batchSize"
      "\<lambda>g. d_logs (view g)" "\<lambda>g. d_logs_update (\<lambda>_. []) (view g)" Q ctx pause 0 g]
    DeleteTopLogs_view top_logs_err by (simp add: pruneInBatches_def)

end

context gorm_store
begin

lemma ListEnabledLoads_ok:
  assumes "ListEnabledLoads G g = (Inr loads, g')"
  shows "loads = map (preload (filter (\<lambda>s. ms_DeletedAt s = None) (d_sources (view g))))
      (filter (\<lambda>l. ld_DeletedAt l = None \<and> ld_IsEnabled l \<and>
         (\<exists>s \<in> set (d_sources (view g)). ms_DeletedAt s = None \<and> ms_ID s = ld_SourceID l \<and> ms_IsEnabled s))
       (d_loads (view g)))"
proof -
  obtain ss g1 ls where f: "gt_Find (g_sources G) (\<lambda>s. ms_DeletedAt s = None) g = (Inr ss, g1)"
    and l: "gt_Find (g_loads G) (\<lambda>l. ld_DeletedAt l = None \<and> ld_IsEnabled l \<and>
              (\<exists>s \<in> set ss. ms_ID s = ld_SourceID l \<and> ms_IsEnabled s)) g1 = (Inr ls, g')"
    and loads: "loads = map (preload ss) ls"
    using assms by (auto simp: ListEnabledLoads_def elim!: bindA_InrE)
  show ?thesis
    unfolding loads ld.find_ok [OF l] sr.find_ok [OF f] sr.find_view [OF f]
    by (auto intro!: arg_cong [where f = "map _"] filter_cong)
qed

text \<open>The points of a load are its enabled rows, in the order of their keys.\<close>

lemma ListModbusTags_ok:
  assumes "ListModbusTags G i g = (Inr ps, g')"
  shows "ps = map modbus_point (sort_key mt_ID (filter (\<lambda>t. mt_LoadID t = i \<and> mt_IsEnabled t) (d_modbus (view g))))"
  using assms mb.find_ok
  by (fastforce simp: ListModbusTags_def listModbusTagRows_def retA_def elim!: bindA_InrE)

lemma ListOPCUANodes_ok:
  assumes "ListOPCUANodes G i g = (Inr ps, g')"
  shows "ps = map opcua_point (sort_key on_ID (filter (\<lambda>n. on_LoadID n = i \<and> on_IsEnabled n) (d_opcua (view g))))"
  using assms oc.find_ok
  by (fastforce simp: ListOPCUANodes_def listOPCUANodeRows_def retA_def elim!: bindA_InrE)

lemma AbortRunningRuns_ok:
  assumes "AbortRunningRuns G reason g = (Inr n, g')"
  shows "\<exists>now. n = int (length (filter (\<lambda>r. run_Status r = ''running'') (d_runs (view g)))) \<and>
     view g' = d_runs_update (map (\<lambda>r. if run_Status r = ''running''
       then r\<lparr> run_Status := ''aborted'', run_FinishedAt := Some now,
                  run_ErrorMessage := (if reason = [] then ''aborted'' else reason),
                  run_DurationMs := datediff_ms (run_StartedAt r) now \<rparr> else r)) (view g)"
proof -
  obtain now g1 where n: "g_Now G g = (now, g1)" by fastforce
  then have u: "gt_Updates (g_runs G) (\<lambda>r. run_Status r = ''running'')
          (\<lambda>r. r\<lparr> run_Status := ''aborted'', run_FinishedAt := Some now,
                  run_ErrorMessage := (if reason = [] then ''aborted'' else reason),
                  run_DurationMs := datediff_ms (run_StartedAt r) now \<rparr>) g1 = (Inr n, g')"
    using assms by (simp add: AbortRunningRuns_def)
  show ?thesis
    using rn.updates_ok [OF u] now_view [OF n] by auto
qed

end

section \<open>Properties\<close>

text \<open>
  (C30) A disabled source stops its loads: \<^verbatim>\<open>ListEnabledLoads\<close> returns a load exactly when the load is
  enabled and not deleted and its source exists, is enabled and is not deleted; every returned load
  carries its own source.
\<close>

theorem ListEnabledLoads_iff:
  assumes "gorm_store G view" and "distinct (map ms_ID (d_sources (view g)))"
    and "ListEnabledLoads G g = (Inr loads, g')"
  shows "((\<exists>l' \<in> set loads. ld_ID l' = i) \<longleftrightarrow>
          (\<exists>l \<in> set (d_loads (view g)). \<exists>s \<in> set (d_sources (view g)).
             ld_ID l = i \<and> ld_IsEnabled l \<and> ld_DeletedAt l = None \<and>
             ms_ID s = ld_SourceID l \<and> ms_IsEnabled s \<and> ms_DeletedAt s = None)) \<and>
         (\<forall>l \<in> set loads. ld_Source l \<in> set (d_sources (view g)) \<and> ms_ID (ld_Source l) = ld_SourceID l \<and>
            ms_IsEnabled (ld_Source l))"
proof
  let ?ss = "filter (\<lambda>s. ms_DeletedAt s = None) (d_sources (view g))"
  let ?E = "\<lambda>l s. ms_DeletedAt s = None \<and> ms_ID s = ld_SourceID l \<and> ms_IsEnabled s"
  have loads: "loads = map (preload ?ss) (filter (\<lambda>l. ld_DeletedAt l = None \<and> ld_IsEnabled l \<and>
      (\<exists>s \<in> set (d_sources (view g)). ?E l s)) (d_loads (view g)))"
    using gorm_store.ListEnabledLoads_ok [OF assms(1,3)] .
  have ids: "ld_ID (preload ss l) = ld_ID l" "ld_SourceID (preload ss l) = ld_SourceID l" for ss l
    by (simp_all add: preload_def split: option.split)
  show "(\<exists>l' \<in> set loads. ld_ID l' = i) \<longleftrightarrow>
          (\<exists>l \<in> set (d_loads (view g)). \<exists>s \<in> set (d_sources (view g)).
             ld_ID l = i \<and> ld_IsEnabled l \<and> ld_DeletedAt l = None \<and>
             ms_ID s = ld_SourceID l \<and> ms_IsEnabled s \<and> ms_DeletedAt s = None)"
    unfolding loads using ids by auto
  have "ld_Source (preload ?ss l) = s" if "s \<in> set (d_sources (view g))" "?E l s" for l s
  proof -
    have "List.find (\<lambda>s. ms_ID s = ld_SourceID l) ?ss \<noteq> None"
      using that by (auto simp: find_None_iff)
    then obtain x where x: "List.find (\<lambda>s. ms_ID s = ld_SourceID l) ?ss = Some x"
      by blast
    then have "ms_ID x = ld_SourceID l" "x \<in> set (d_sources (view g))"
      using find_SomeD [OF x] by auto
    then have "x = s"
      using that assms(2) by (metis distinct_map inj_onD)
    with x show ?thesis by (simp add: preload_def)
  qed
  then show "\<forall>l \<in> set loads. ld_Source l \<in> set (d_sources (view g)) \<and> ms_ID (ld_Source l) = ld_SourceID l \<and>
            ms_IsEnabled (ld_Source l)"
    unfolding loads using ids by fastforce
qed

definition demo_source :: meta_Source where
  "demo_source = zero_Source\<lparr> ms_ID := 1, ms_Name := ''erp'', ms_Kind := ''sqlserver'',
     ms_ParamsJSON := ''{}'', ms_IsEnabled := True \<rparr>"

definition demo_load :: meta_Load where
  "demo_load = zero_Load\<lparr> ld_ID := 7, ld_SourceID := 1, ld_Name := ''orders'', ld_ObjectName := ''dbo.orders'',
     ld_TargetSchema := ''dbo'', ld_TargetTable := ''orders'', ld_Mode := ''delta'', ld_WatermarkColumn := ''id'',
     ld_WatermarkType := ''numeric'', ld_BatchSize := 2, ld_AutoCreateTable := True,
     ld_CronExpression := ''* * * * *'', ld_IsEnabled := True \<rparr>"

definition demo_run :: LoadRun where
  "demo_run = zero_LoadRun\<lparr> run_ID := 1, run_RunUUID := ''u1'', run_LoadID := 7, run_Status := ''running'' \<rparr>"

definition demo_meta :: memgorm where
  "demo_meta = \<lparr> mg_db = \<lparr> d_sources = [demo_source], d_loads = [demo_load, demo_load\<lparr> ld_ID := 8, ld_SourceID := 2 \<rparr>],
       d_watermarks = [], d_runs = [demo_run, demo_run\<lparr> run_ID := 2, run_Status := ''success'' \<rparr>],
       d_logs = [], d_modbus = [], d_opcua = [] \<rparr>,
     mg_next = 10, mg_clock = 5, mg_gfaults = [] \<rparr>"

lemmas demo_meta_defs = demo_meta_def demo_run_def demo_load_def demo_source_def zero_Source_def zero_Load_def
  zero_LoadRun_def

lemmas mem_gorm_defs = MemGorm_def mem_table_def gcall_def

theorem ListEnabledLoads_iff_witness:
  "(\<exists>l \<in> set (projr (fst (ListEnabledLoads MemGorm demo_meta))). ld_ID l = 7) \<and>
   \<not> (\<exists>l \<in> set (projr (fst (ListEnabledLoads MemGorm demo_meta))). ld_ID l = 8)"
proof -
  have run: "ListEnabledLoads MemGorm demo_meta = (Inr (projr (fst (ListEnabledLoads MemGorm demo_meta))),
      snd (ListEnabledLoads MemGorm demo_meta))"
    by (simp add: ListEnabledLoads_def mem_gorm_defs demo_meta_def bindA_def)
  have d: "distinct (map ms_ID (d_sources (mg_db demo_meta)))"
    by (simp add: demo_meta_def)
  note T = ListEnabledLoads_iff [OF memg.gorm_store_axioms d run]
  show ?thesis
    unfolding conjunct1 [OF T] by (simp add: demo_meta_defs)
qed

text \<open>
  Writing a watermark and reading it back: after a successful \<^verbatim>\<open>UpsertWatermark\<close> the next
  \<^verbatim>\<open>GetWatermark\<close> that succeeds returns the value that was written, whether or not the load had a
  watermark before, and the watermark of every other load is unchanged. A failed upsert changes none.
\<close>

theorem UpsertWatermark_GetWatermark:
  assumes "gorm_store G view" and "UpsertWatermark G i v g = (r, g1)" and "GetWatermark G j g1 = (Inr w, g2)"
  shows "map_option mw_Value w =
           (case r of Inr _ \<Rightarrow> if j = i then Some v else stored_wmark (view g) j
                    | Inl _ \<Rightarrow> stored_wmark (view g) j)"
  using gorm_store.GetWatermark_ok [OF assms(1,3)] gorm_store.UpsertWatermark_ok [OF assms(1), of i v g _ g1]
    gorm_store.UpsertWatermark_err [OF assms(1), of i v g _ g1] assms(2)
  by (auto split: sum.split)

theorem UpsertWatermark_GetWatermark_witness:
  "map_option mw_Value (projr (fst (GetWatermark MemGorm 7 (snd (UpsertWatermark MemGorm 7 ''42'' demo_meta))))) = Some ''42''"
proof -
  let ?g1 = "snd (UpsertWatermark MemGorm 7 ''42'' demo_meta)"
  have up: "UpsertWatermark MemGorm 7 ''42'' demo_meta = (Inr (), ?g1)"
    and get: "GetWatermark MemGorm 7 ?g1 = (Inr (projr (fst (GetWatermark MemGorm 7 ?g1))), snd (GetWatermark MemGorm 7 ?g1))"
    by (simp_all add: UpsertWatermark_def GetWatermark_def mem_gorm_defs mem_tx_def demo_meta_def bindA_def
        zero_Watermark_def Let_def)
  show ?thesis
    using UpsertWatermark_GetWatermark [OF memg.gorm_store_axioms up get] by simp
qed

text \<open>
  Orphan clean-up: after \<^verbatim>\<open>AbortRunningRuns\<close> no run is left in status \<^verbatim>\<open>running\<close>, the number returned
  is the number of runs that were, each of them is now \<^verbatim>\<open>aborted\<close> with a finish time and a non-empty
  message, and every other run is exactly as it was.
\<close>

theorem AbortRunningRuns_clears:
  assumes "gorm_store G view" and "AbortRunningRuns G reason g = (Inr n, g')"
  shows "(\<forall>r \<in> set (d_runs (view g')). run_Status r \<noteq> ''running'') \<and>
         n = int (length (filter (\<lambda>r. run_Status r = ''running'') (d_runs (view g)))) \<and>
         list_all2 (\<lambda>r r'. run_ID r' = run_ID r \<and>
            (if run_Status r = ''running''
             then run_Status r' = ''aborted'' \<and> run_FinishedAt r' \<noteq> None \<and> run_ErrorMessage r' \<noteq> []
             else r' = r)) (d_runs (view g)) (d_runs (view g'))"
proof -
  obtain now where n: "n = int (length (filter (\<lambda>r. run_Status r = ''running'') (d_runs (view g))))"
    and v: "view g' = d_runs_update (map (\<lambda>r. if run_Status r = ''running''
       then r\<lparr> run_Status := ''aborted'', run_FinishedAt := Some now,
                  run_ErrorMessage := (if reason = [] then ''aborted'' else reason),
                  run_DurationMs := datediff_ms (run_StartedAt r) now \<rparr> else r)) (view g)"
    using gorm_store.AbortRunningRuns_ok [OF assms] by blast
  show ?thesis
    unfolding v n by (auto simp: list_all2_map2 list.rel_refl_strong intro!: list.rel_refl_strong)
qed

theorem AbortRunningRuns_clears_witness:
  "fst (AbortRunningRuns MemGorm ''restart'' demo_meta) = Inr 1 \<and>
   ''running'' \<notin> run_Status ` set (d_runs (mg_db (snd (AbortRunningRuns MemGorm ''restart'' demo_meta))))"
proof -
  let ?x = "AbortRunningRuns MemGorm ''restart'' demo_meta"
  have ok: "fst ?x = Inr 1"
    by (simp add: AbortRunningRuns_def mem_gorm_defs demo_meta_defs)
  then have "?x = (Inr 1, snd ?x)"
    by (simp add: prod_eq_iff)
  then show ?thesis
    using AbortRunningRuns_clears [OF memg.gorm_store_axioms, of "''restart''" demo_meta 1 "snd ?x"] ok by fastforce
qed

text \<open>
  (C31) Pruning of runs terminates and deletes exactly what it should: on any store that keeps the
  contract, \<^verbatim>\<open>PruneLoadRuns\<close> returns, for any batch size, pause and cancellation; it only ever removes
  finished runs that started before the cutoff, so a run in progress survives; the number it returns
  is the number of rows removed; and when it returns no error no such row is left.
\<close>

theorem PruneLoadRuns_returns:
  assumes "gorm_store G view"
  shows "\<exists>t e g'. PruneLoadRuns G cutoff batchSize pause g = Some ((t, e), g') \<and>
           (let old = (\<lambda>r :: LoadRun. run_StartedAt r < cutoff \<and> run_Status r \<in> {''success'', ''failed'', ''aborted''}) in
            filter (\<lambda>r. \<not> old r) (d_runs (view g')) = filter (\<lambda>r. \<not> old r) (d_runs (view g)) \<and>
            set (d_runs (view g')) \<subseteq> set (d_runs (view g)) \<and>
            t = int (length (d_runs (view g))) - int (length (d_runs (view g'))) \<and>
            (e = None \<longrightarrow> (\<forall>r \<in> set (d_runs (view g')). \<not> old r)))"
proof -
  define old where "old = (\<lambda>r :: LoadRun. run_StartedAt r < cutoff \<and> run_Status r \<in> {''success'', ''failed'', ''aborted''})"
  obtain t e g' where p: "pruneInBatches (g_DeleteTopRuns G old) (g_CtxErr G) batchSize pause g = Some ((t, e), g')"
    and keep: "filter (\<lambda>x. \<not> old x) (d_runs (view g')) = filter (\<lambda>x. \<not> old x) (d_runs (view g))"
    and sub: "set (d_runs (view g')) \<subseteq> set (d_runs (view g))"
    and t: "t = int (length (filter old (d_runs (view g)))) - int (length (filter old (d_runs (view g'))))"
    and none: "e = None \<longrightarrow> filter old (d_runs (view g')) = []"
    using gorm_store.prune_runs [OF assms, of old "g_CtxErr G" batchSize pause g] by blast
  have split: "length xs = length (filter old xs) + length (filter (\<lambda>x. \<not> old x) xs)" for xs
    by (rule sum_length_filter_compl [symmetric])
  have "t = int (length (d_runs (view g))) - int (length (d_runs (view g')))"
    using t keep split [of "d_runs (view g)"] split [of "d_runs (view g')"] by simp
  moreover have "e = None \<longrightarrow> (\<forall>r \<in> set (d_runs (view g')). \<not> old r)"
    using none by (auto simp: filter_empty_conv)
  moreover have "PruneLoadRuns G cutoff batchSize pause g = Some ((t, e), g')"
    using p by (simp add: PruneLoadRuns_def old_def)
  ultimately show ?thesis
    using keep sub unfolding Let_def old_def [symmetric] by blast
qed

theorem PruneLoadRuns_returns_witness:
  "\<exists>t e g'. PruneLoadRuns MemGorm 9 1 0 demo_meta = Some ((t, e), g')"
  using PruneLoadRuns_returns [OF memg.gorm_store_axioms, of 9 1 0 demo_meta] by blast

end
