(* ===== verification/ReplaceSession.thy ===== *)
theory ReplaceSession
  imports Contracts
begin

text \<open>
  \<^verbatim>\<open>internal/pipeline/replace.go\<close>: the replace session, which writes a replace run to a staging table and
  swaps it in at the end when the sink can, and truncates first when it cannot. A method works on the
  sink's state and on the session, which it may change through its pointer receiver.
\<close>

record 'k replaceSession =
  rp_atomic :: "'k AtomicReplacer option"
  rp_live :: TargetTable
  rp_writeTo :: TargetTable
  rp_staging :: TargetTable
  rp_active :: bool
  rp_committed :: bool
  rp_legacy :: bool

definition zero_target :: TargetTable where
  "zero_target = \<lparr> tt_Schema = [], tt_Name = [] \<rparr>"

definition newReplaceSession :: "'k Sink \<Rightarrow> TargetTable \<Rightarrow> 'k replaceSession" where
  "newReplaceSession sink live =
     \<lparr> rp_atomic = sk_Atomic sink, rp_live = live, rp_writeTo = live, rp_staging = zero_target,
       rp_active = False, rp_committed = False, rp_legacy = (sk_Atomic sink = None) \<rparr>"

text \<open>Calling a method of the sink, or of its replacer, from a method of the session.\<close>

definition on_sink :: "('k, 'a) act \<Rightarrow> ('k \<times> 'k replaceSession, 'a) act" where
  "on_sink m = (\<lambda>(k, s). case m k of (r, k') \<Rightarrow> (r, (k', s)))"

definition on_atomic :: "('k AtomicReplacer \<Rightarrow> ('k, 'a) act) \<Rightarrow> ('k \<times> 'k replaceSession, 'a) act" where
  "on_atomic f = (\<lambda>(k, s). case rp_atomic s of None \<Rightarrow> (Inl nil_deref, (k, s)) | Some ar \<Rightarrow> on_sink (f ar) (k, s))"

definition set_session :: "('k replaceSession \<Rightarrow> 'k replaceSession) \<Rightarrow> ('k \<times> 'k replaceSession, unit) act" where
  "set_session f = (\<lambda>(k, s). (Inr (), (k, f s)))"

text \<open>\<^verbatim>\<open>s.staging = stg; s.writeTo = stg; s.active = true\<close>\<close>

definition stage_to :: "TargetTable \<Rightarrow> 'k replaceSession \<Rightarrow> 'k replaceSession" where
  "stage_to stg s = s\<lparr> rp_staging := stg, rp_writeTo := stg, rp_active := True \<rparr>"

definition prepareExisting :: "'k Sink \<Rightarrow> ('k \<times> 'k replaceSession, unit) act" where
  "prepareExisting sink = (\<lambda>(k, s).
     (if rp_legacy s then
        bindA (on_sink (sk_TableExists sink (rp_live s))) (\<lambda>exists.
        if \<not> exists then retA ()
        else wrapA (wrapf ''truncate target'') (on_sink (sk_Truncate sink (rp_live s))))
      else
        bindA (on_sink (sk_TableExists sink (rp_live s))) (\<lambda>exists.
        if \<not> exists then retA ()
        else
          bindA (wrapA (wrapf ''begin replace'') (on_atomic (\<lambda>ar. ar_BeginReplace ar (rp_live s) []))) (\<lambda>stg.
          set_session (stage_to stg)))) (k, s))"

definition ensureFirstBatch :: "'k Sink \<Rightarrow> bool \<Rightarrow> Column list \<Rightarrow> ('k \<times> 'k replaceSession, unit) act" where
  "ensureFirstBatch sink autoCreate cols = (\<lambda>(k, s).
     (if rp_legacy s then
        (if autoCreate then wrapA (wrapf ''ensure target'') (on_sink (sk_EnsureTable sink (rp_live s) cols))
         else retA ())
      else if rp_active s then retA ()
      else
        bindA (wrapA (wrapf ''begin replace'') (on_atomic (\<lambda>ar. ar_BeginReplace ar (rp_live s) cols))) (\<lambda>stg.
        set_session (stage_to stg))) (k, s))"

definition repl_commit :: "('k \<times> 'k replaceSession, unit) act" where
  "repl_commit = (\<lambda>(k, s).
     (if rp_legacy s \<or> \<not> rp_active s then retA ()
      else
        bindA (wrapA (wrapf ''commit replace'') (on_atomic (\<lambda>ar. ar_CommitReplace ar (rp_live s) (rp_staging s)))) (\<lambda>_.
        set_session (\<lambda>s. s\<lparr> rp_committed := True \<rparr>))) (k, s))"

definition repl_abort :: "'k \<times> 'k replaceSession \<Rightarrow> 'k" where
  "repl_abort = (\<lambda>(k, s).
     if rp_legacy s \<or> \<not> rp_active s \<or> rp_committed s then k
     else (case rp_atomic s of None \<Rightarrow> k | Some ar \<Rightarrow> snd (ar_AbortReplace ar (rp_staging s) k)))"

section \<open>A session on an atomic sink\<close>

text \<open>
  What holds of a session for the target \<open>t\<close> from its creation to its commit: it knows its replacer, and
  when it has begun staging it stages to the staging table of \<open>t\<close>.
\<close>

definition session_ok :: "'k AtomicReplacer \<Rightarrow> TargetTable \<Rightarrow> TargetTable \<Rightarrow> 'k replaceSession \<Rightarrow> bool" where
  "session_ok AR stg t s \<longleftrightarrow>
     rp_atomic s = Some AR \<and> rp_live s = t \<and> \<not> rp_legacy s \<and> \<not> rp_committed s \<and>
     (rp_active s \<longrightarrow> rp_staging s = stg \<and> rp_writeTo s = stg)"

lemma on_sink_apply [simp]: "on_sink m (k, s) = (case m k of (r, k') \<Rightarrow> (r, (k', s)))"
  by (simp add: on_sink_def)

lemma set_session_apply [simp]: "set_session f (k, s) = (Inr (), (k, f s))"
  by (simp add: set_session_def)

lemma on_atomic_ok [simp]: "session_ok AR g t s \<Longrightarrow> on_atomic f (k, s) = (case f AR k of (r, k') \<Rightarrow> (r, (k', s)))"
  by (simp add: on_atomic_def session_ok_def)

lemma session_ok_stage_to [simp]: "session_ok AR g t s \<Longrightarrow> session_ok AR g t (stage_to g s)"
  by (simp add: session_ok_def stage_to_def)

lemma stage_to_simps [simp]:
  "rp_active (stage_to g s)" "rp_writeTo (stage_to g s) = g" "rp_staging (stage_to g s) = g"
  by (simp_all add: stage_to_def)

context atomic_sink
begin

lemma new_session_ok: "session_ok AR (stage t) t (newReplaceSession K t)"
  by (simp add: session_ok_def newReplaceSession_def atomic)

lemma new_session_inactive [simp]: "\<not> rp_active (newReplaceSession K t)"
  by (simp add: newReplaceSession_def)

text \<open>Starting the session leaves every table but the staging table alone.\<close>

lemma prepareExisting_frame:
  assumes "prepareExisting K (k, s) = (r, (k', s'))" and "session_ok AR (stage t) t s" and "u \<noteq> stage t"
  shows "tables k' u = tables k u"
proof -
  have s: "rp_live s = t" "\<not> rp_legacy s"
    using assms(2) by (simp_all add: session_ok_def)
  obtain x k1 where x: "sk_TableExists K t k = (x, k1)" by fastforce
  obtain y k2 where y: "ar_BeginReplace AR t [] k1 = (y, k2)" by fastforce
  have "k' = k1 \<or> k' = k2"
    using assms(1,2) s x y
    by (auto simp: prepareExisting_def bindA_def wrapA_def split: prod.splits sum.splits if_splits)
  then show ?thesis
    using exists_keeps [OF x] begin_frame [OF y assms(3)] by auto
qed

lemma prepareExisting_ok:
  assumes "prepareExisting K (k, s) = (Inr u, (k', s'))" and "session_ok AR (stage t) t s" and "\<not> rp_active s"
  shows "session_ok AR (stage t) t s' \<and>
         (if tables k t = None then \<not> rp_active s' \<and> rp_writeTo s' = rp_writeTo s
          else rp_active s' \<and> tables k' (stage t) = Some [])"
proof -
  have s: "rp_live s = t" "\<not> rp_legacy s"
    using assms(2) by (simp_all add: session_ok_def)
  obtain ex k1 where x: "sk_TableExists K t k = (Inr ex, k1)"
    using assms(1,2) s by (cases "sk_TableExists K t k")
      (auto simp: prepareExisting_def bindA_def split: prod.splits sum.splits)
  note ex = exists_ok [OF x]
  show ?thesis
  proof (cases ex)
    case False
    then show ?thesis
      using assms s x ex by (auto simp: prepareExisting_def bindA_def)
  next
    case True
    then obtain stg k2 where y: "ar_BeginReplace AR t [] k1 = (Inr stg, k2)" and k': "k' = k2" "s' = stage_to stg s"
      using assms(1,2) s x
      by (cases "ar_BeginReplace AR t [] k1") (auto simp: prepareExisting_def bindA_def wrapA_def split: sum.splits)
    show ?thesis
      using begin_ok [OF y] k' True ex assms(2) by auto
  qed
qed

lemma ensureFirstBatch_frame:
  assumes "ensureFirstBatch K a cs (k, s) = (r, (k', s'))" and "session_ok AR (stage t) t s" and "u \<noteq> stage t"
  shows "tables k' u = tables k u \<and> session_ok AR (stage t) t s'"
proof -
  have s: "rp_live s = t" "\<not> rp_legacy s"
    using assms(2) by (simp_all add: session_ok_def)
  obtain y k1 where y: "ar_BeginReplace AR t cs k = (y, k1)" by fastforce
  have "k' = k \<and> s' = s \<or> k' = k1 \<and> (s' = s \<or> (\<exists>stg. y = Inr stg \<and> s' = stage_to stg s))"
    using assms(1,2) s y
    by (auto simp: ensureFirstBatch_def bindA_def wrapA_def split: prod.splits sum.splits if_splits)
  then show ?thesis
    using begin_frame [OF y assms(3)] begin_ok [of t cs k _ k1] y assms(2) by auto
qed

lemma ensureFirstBatch_ok:
  assumes "ensureFirstBatch K a cs (k, s) = (Inr u, (k', s'))" and "session_ok AR (stage t) t s"
  shows "rp_active s' \<and> rp_writeTo s' = stage t \<and>
         (if rp_active s then k' = k \<and> s' = s else tables k' (stage t) = Some [])"
proof (cases "rp_active s")
  case True
  then show ?thesis
    using assms by (auto simp: ensureFirstBatch_def session_ok_def)
next
  case False
  have s: "rp_live s = t" "\<not> rp_legacy s"
    using assms(2) by (simp_all add: session_ok_def)
  then obtain stg where y: "ar_BeginReplace AR t cs k = (Inr stg, k')" and s': "s' = stage_to stg s"
    using assms False by (cases "ar_BeginReplace AR t cs k")
      (auto simp: ensureFirstBatch_def bindA_def wrapA_def split: sum.splits)
  show ?thesis
    using begin_ok [OF y] s' False by simp
qed

lemma repl_commit_inactive: "\<not> rp_active s \<Longrightarrow> repl_commit (k, s) = (Inr (), (k, s))"
  by (simp add: repl_commit_def)

lemma repl_commit_ok:
  assumes "repl_commit (k, s) = (Inr u, (k', s'))" and "session_ok AR (stage t) t s" and "rp_active s" and "swappable t"
  shows "tables k' t = tables k (stage t) \<and> rp_committed s' \<and>
         (\<forall>v. v \<notin> {t, stage t, aside t} \<longrightarrow> tables k' v = tables k v)"
proof -
  have s: "rp_live s = t" "\<not> rp_legacy s" "rp_staging s = stage t"
    using assms(2,3) by (simp_all add: session_ok_def)
  then obtain c where c: "ar_CommitReplace AR t (stage t) k = (Inr c, k')" and s': "s' = s\<lparr> rp_committed := True \<rparr>"
    using assms(1-3) by (cases "ar_CommitReplace AR t (stage t) k")
      (auto simp: repl_commit_def bindA_def wrapA_def split: sum.splits)
  show ?thesis
    using commit_ok [OF assms(4) c] commit_frame [OF assms(4) c] s' by auto
qed

lemma repl_commit_err:
  assumes "repl_commit (k, s) = (Inl e, (k', s'))" and "session_ok AR (stage t) t s"
  shows "tables k' t = tables k t \<and> s' = s \<and>
         (swappable t \<longrightarrow> (\<forall>v. v \<notin> {t, stage t, aside t} \<longrightarrow> tables k' v = tables k v))"
proof -
  have act: "rp_active s"
    using assms by (auto simp: repl_commit_def split: if_splits)
  have s: "rp_live s = t" "\<not> rp_legacy s" "rp_staging s = stage t"
    using assms(2) act by (simp_all add: session_ok_def)
  then obtain c where c: "ar_CommitReplace AR t (stage t) k = (Inl c, k')" and "s' = s"
    using assms act by (cases "ar_CommitReplace AR t (stage t) k")
      (auto simp: repl_commit_def bindA_def wrapA_def split: sum.splits)
  then show ?thesis
    using commit_err [OF c] commit_frame [OF _ c] by auto
qed

lemma repl_abort_frame:
  assumes "session_ok AR (stage t) t s" and "u \<noteq> stage t"
  shows "tables (repl_abort (k, s)) u = tables k u"
proof -
  obtain r k' where "ar_AbortReplace AR (stage t) k = (r, k')" by fastforce
  then show ?thesis
    using assms abort_keeps [OF _ assms(2)] by (auto simp: repl_abort_def session_ok_def)
qed

lemma repl_abort_committed: "rp_committed s \<Longrightarrow> repl_abort (k, s) = k"
  by (simp add: repl_abort_def)

end

end
