(* ===== verification/Session.thy ===== *)
theory Session
  imports Contracts
begin

text \<open>
  \<^verbatim>\<open>internal/pipeline/session.go\<close>: how a run obtains an opened source and gives it back. A release function
  takes the \<^verbatim>\<open>invalidate\<close> flag; \<open>'s\<close> is the state of the session manager together with that of the
  sources' connections.
\<close>

record ('s, 'x) SourceSession =
  ss_Obtain :: "SourceConfig \<Rightarrow> ('s, ('s, 'x) Source \<times> (bool \<Rightarrow> 's \<Rightarrow> 's)) act"
  ss_Close :: "('s, unit) act"
  ss_PingAll :: "('s, unit) act"

text \<open>
  The contract, for the states \<open>ok\<close> of the session manager: a source that was obtained reads as a source
  should, and \<open>offers cfg\<close> is what the source obtained for \<open>cfg\<close> has to offer in the state it was obtained in.
  Obtaining, reading and releasing keep the state \<open>ok\<close>.
\<close>

locale source_session =
  fixes SS :: "('s, 'x) SourceSession"
    and ok :: "'s \<Rightarrow> bool"
    and offers :: "SourceConfig \<Rightarrow> LoadConfig \<Rightarrow> 's \<Rightarrow> Batch list"
  assumes obtained: "ok s \<Longrightarrow> ss_Obtain SS cfg s = (Inr (src, release), s') \<Longrightarrow>
      \<exists>off. source_reader (src_Read src) off \<and> (\<forall>L. off L s' = offers cfg L s')"
    and ok_obtain: "ok s \<Longrightarrow> ss_Obtain SS cfg s = (r, s') \<Longrightarrow> ok s'"
    and ok_read: "ok s \<Longrightarrow> ss_Obtain SS cfg s = (Inr (src, release), s') \<Longrightarrow> ok t \<Longrightarrow>
      src_Read src L h t x = (rr, t', x') \<Longrightarrow> ok t'"
    and ok_release: "ok s \<Longrightarrow> ss_Obtain SS cfg s = (Inr (src, release), s') \<Longrightarrow> ok t \<Longrightarrow> ok (release b t)"

section \<open>One connection for each run\<close>

definition Ephemeral_Obtain :: "('s, 'x) SourceFactory \<Rightarrow> SourceConfig \<Rightarrow> ('s, ('s, 'x) Source \<times> (bool \<Rightarrow> 's \<Rightarrow> 's)) act" where
  "Ephemeral_Obtain Build cfg s =
     (case Build cfg s of
        (Inl e, s1) \<Rightarrow> (Inl e, s1)
      | (Inr src, s1) \<Rightarrow>
          (case src_Open src s1 of
             (Inl e, s') \<Rightarrow> (Inl e, snd (src_Close src s'))
           | (Inr _, s') \<Rightarrow> (Inr (src, \<lambda>_ t. snd (src_Close src t)), s')))"

definition NewEphemeral :: "('s, 'x) SourceFactory option \<Rightarrow> ('s, 'x) SourceSession" where
  "NewEphemeral build =
     (let b = (case build of Some f \<Rightarrow> f | None \<Rightarrow> (\<lambda>_. failA (Errorf ''source builder not configured'' [])))
      in \<lparr> ss_Obtain = Ephemeral_Obtain b, ss_Close = retA (), ss_PingAll = retA () \<rparr>)"

text \<open>A builder all of whose sources read as they should gives such a session.\<close>

definition builds_readers :: "('s, 'x) SourceFactory \<Rightarrow> (SourceConfig \<Rightarrow> LoadConfig \<Rightarrow> 's \<Rightarrow> Batch list) \<Rightarrow> bool" where
  "builds_readers build offers \<longleftrightarrow> 
     (\<forall>cfg src s s1. build cfg s = (Inr src, s1) \<longrightarrow>
        (\<exists>off. source_reader (src_Read src) off \<and>
           (\<forall>L s2. src_Open src s1 = (Inr (), s2) \<longrightarrow> off L s2 = offers cfg L s2)))"

lemma Ephemeral_session:
  assumes "builds_readers build offers"
  shows "source_session (NewEphemeral (Some build)) (\<lambda>_. True) offers"
proof (rule source_session.intro)
  fix cfg s src release s'
  assume "ss_Obtain (NewEphemeral (Some build)) cfg s = (Inr (src, release), s')"
  then obtain s1 where "build cfg s = (Inr src, s1)" "src_Open src s1 = (Inr (), s')"
    by (auto simp: NewEphemeral_def Ephemeral_Obtain_def split: sum.splits prod.splits)
  then show "\<exists>off. source_reader (src_Read src) off \<and> (\<forall>L. off L s' = offers cfg L s')"
    using assms unfolding builds_readers_def by blast
qed simp_all

section \<open>The identity of a connection\<close>

text \<open>
  \<^verbatim>\<open>ParamsFingerprint\<close>: the digest of the kind and the parameters, each ended by a zero byte, in the order
  of the keys. \<open>digest\<close> is the hexadecimal SHA-256 of a text.
\<close>

definition fingerprint_text :: "string \<Rightarrow> strmap \<Rightarrow> string" where
  "fingerprint_text kind params =
     ToLower kind @ [CHR 0x00] @ concat (map (\<lambda>k. k @ [CHR 0x00] @ get_str params k @ [CHR 0x00]) (sorted_keys params))"

definition ParamsFingerprint :: "(string \<Rightarrow> string) \<Rightarrow> string \<Rightarrow> strmap \<Rightarrow> string" where
  "ParamsFingerprint digest kind params = digest (fingerprint_text kind params)"

text \<open>Fields ended by zero bytes can be told apart.\<close>

lemma split_ended:
  assumes "CHR 0x00 \<notin> set a" and "CHR 0x00 \<notin> set b" and "a @ CHR 0x00 # s = b @ CHR 0x00 # t"
  shows "a = b \<and> s = t"
  using assms by (induction a arbitrary: b) (auto simp: append_eq_Cons_conv Cons_eq_append_conv)

lemma ended_fields_inj:
  assumes "\<forall>(k, v) \<in> set xs \<union> set ys. CHR 0x00 \<notin> set k \<and> CHR 0x00 \<notin> set v"
    and "concat (map (\<lambda>(k, v). k @ [CHR 0x00] @ v @ [CHR 0x00]) xs) = concat (map (\<lambda>(k, v). k @ [CHR 0x00] @ v @ [CHR 0x00]) ys)"
  shows "xs = ys"
  using assms
proof (induction xs arbitrary: ys)
  case Nil
  then show ?case by (cases ys) auto
next
  case (Cons x xs)
  obtain k v where x: "x = (k, v)" by fastforce
  then obtain k' v' ys' where ys: "ys = (k', v') # ys'"
    using Cons.prems(2) by (cases ys) auto
  let ?rest = "\<lambda>zs. concat (map (\<lambda>(k, v). k @ [CHR 0x00] @ v @ [CHR 0x00]) zs)"
  have eq: "k @ CHR 0x00 # (v @ CHR 0x00 # ?rest xs) = k' @ CHR 0x00 # (v' @ CHR 0x00 # ?rest ys')"
    using Cons.prems(2) x ys by simp
  have nul: "CHR 0x00 \<notin> set k" "CHR 0x00 \<notin> set v" "CHR 0x00 \<notin> set k'" "CHR 0x00 \<notin> set v'"
    using Cons.prems(1) x ys by auto
  have k: "k = k'" and eq': "v @ CHR 0x00 # ?rest xs = v' @ CHR 0x00 # ?rest ys'"
    using split_ended [OF nul(1,3) eq] by blast+
  have "v = v'" and "?rest xs = ?rest ys'"
    using split_ended [OF nul(2,4) eq'] by blast+
  moreover from this have "xs = ys'"
    using Cons.prems(1) x ys by (intro Cons.IH) auto
  ultimately show ?case
    using x ys k by simp
qed

lemma ToLower_no_nul: "CHR 0x00 \<notin> set s \<Longrightarrow> CHR 0x00 \<notin> set (ToLower s)"
proof -
  assume s: "CHR 0x00 \<notin> set s"
  have "lower_char c \<noteq> CHR 0x00" if "c \<noteq> CHR 0x00" for c
  proof (cases "65 \<le> (of_char c :: nat) \<and> (of_char c :: nat) \<le> 90")
    case True
    then have "(of_char (lower_char c) :: nat) = of_char c + 32"
      by (simp add: lower_char_def)
    then show ?thesis
      by auto
  qed (use that in \<open>auto simp: lower_char_def\<close>)
  moreover have "c \<in> set s" if "(r, bs) \<in> set (runes s)" "c \<in> set bs" for r bs c
  proof -
    have "c \<in> set (concat (map snd (runes s)))"
      using that unfolding set_concat set_map by force
    then show ?thesis by simp
  qed
  ultimately have mem: "CHR 0x00 \<notin> set bs \<and> (\<forall>c \<in> set bs. lower_char c \<noteq> CHR 0x00)"
    if "(r, bs) \<in> set (runes s)" for r bs
    using s that by metis
  show ?thesis
  proof
    assume "CHR 0x00 \<in> set (ToLower s)"
    then obtain r bs where m: "(r, bs) \<in> set (runes s)"
      and "CHR 0x00 \<in> set (if r = 304 then ''i'' else if r = 8490 then ''k'' else map lower_char bs)"
      unfolding ToLower_def by auto
    then have "CHR 0x00 \<in> lower_char ` set bs"
      by (auto split: if_splits)
    then show False
      using mem [OF m] by (metis imageE)
  qed
qed

definition nul_free :: "string \<Rightarrow> strmap \<Rightarrow> bool" where
  "nul_free kind params \<longleftrightarrow>
     CHR 0x00 \<notin> set kind \<and> list_all (\<lambda>(k, v). CHR 0x00 \<notin> set k \<and> CHR 0x00 \<notin> set v) params"

lemma nul_free_entries:
  assumes "nul_free kind params"
  shows "\<forall>(k, v) \<in> set (sorted_entries params). CHR 0x00 \<notin> set k \<and> CHR 0x00 \<notin> set v"
proof -
  have "CHR 0x00 \<notin> set k \<and> CHR 0x00 \<notin> set (get_str params k)" if "k \<in> fst ` set params" for k
  proof (cases "map_of params k")
    case None
    then show ?thesis using that by (simp add: map_of_eq_None_iff)
  next
    case (Some v)
    then show ?thesis
      using assms map_of_SomeD [OF Some] by (auto simp: nul_free_def list_all_iff get_str_def)
  qed
  then show ?thesis
    by (auto simp: sorted_entries_def)
qed

lemma fingerprint_text_entries:
  "fingerprint_text kind params =
     ToLower kind @ CHR 0x00 # concat (map (\<lambda>(k, v). k @ [CHR 0x00] @ v @ [CHR 0x00]) (sorted_entries params))"
  by (simp add: fingerprint_text_def sorted_entries_def comp_def)



end
