(* ===== verification/Runner.thy ===== *)
theory Runner
  imports ReplaceSession Session RunStore Runstate Metrics Config
begin

text \<open>
  \<^verbatim>\<open>internal/pipeline/runner.go\<close>: the execution of one load. The state of a run is the record \<open>rworld\<close>: the
  metadata store, the sink, the session manager with the sources' connections, the registry of load
  states and the metrics calls so far. \<open>clk k\<close> is the \<open>k\<close>-th reading of the clock. Log records are not part
  of the state. \<open>Execute\<close> is divided at its early returns; the deferred calls are made where Go makes
  them: first \<^verbatim>\<open>repl.abort\<close>, then \<^verbatim>\<open>release\<close>.
\<close>

record ('r, 'k, 's) rworld =
  rw_repo :: 'r
  rw_sink :: 'k
  rw_sess :: 's
  rw_reg :: Registry
  rw_met :: metrics

text \<open>The variables the batch handler captures.\<close>

record 'k hstate =
  h_sink :: 'k
  h_repl :: "'k replaceSession option"
  h_first :: bool
  h_written :: int
  h_writeTo :: TargetTable

record ('r, 'k, 's) Runner =
  rn_repo :: "'r RunStore"
  rn_telemetry :: "TelemetryCatalog option"
  rn_sink :: "'k Sink"
  rn_sessions :: "('s, 'k hstate) SourceSession"
  rn_getenv :: "string \<Rightarrow> string"

section \<open>The steps of a run\<close>

definition telemetry_kind :: "string \<Rightarrow> bool" where
  "telemetry_kind kind \<longleftrightarrow> kind = ''modbus'' \<or> kind = ''opcua''"

definition force_append :: "meta_Load \<Rightarrow> meta_Load" where
  "force_append load =
     (if telemetry_kind (ms_Kind (ld_Source load))
      then load\<lparr> ld_Mode := LoadModeAppend, ld_WatermarkColumn := [], ld_WatermarkType := WatermarkNone \<rparr>
      else load)"

definition run_target :: "meta_Load \<Rightarrow> TargetTable" where
  "run_target load = \<lparr> tt_Schema = ld_TargetSchema load, tt_Name = ld_TargetTable load \<rparr>"

definition target_label :: "meta_Load \<Rightarrow> string" where
  "target_label load = ld_TargetSchema load @ ''.'' @ ld_TargetTable load"

definition source_config :: "('r, 'k, 's) Runner \<Rightarrow> meta_Load \<Rightarrow> strmap \<Rightarrow> SourceConfig" where
  "source_config R load params =
     \<lparr> sc_SourceID = ld_SourceID load, sc_SourceType = ms_Kind (ld_Source load), sc_Name = ms_Name (ld_Source load),
       sc_Params = params, sc_Telemetry = rn_telemetry R \<rparr>"

definition load_config :: "meta_Load \<Rightarrow> string \<Rightarrow> LoadConfig" where
  "load_config load current =
     \<lparr> lc_LoadID = ld_ID load, lc_Name = ld_Name load, lc_ObjectName = ld_ObjectName load, lc_Mode = ld_Mode load,
       lc_WatermarkColumn = ld_WatermarkColumn load, lc_WatermarkType = ld_WatermarkType load,
       lc_LastWatermark = \<lparr> wm_Type = ld_WatermarkType load, wm_Value = current \<rparr>,
       lc_BatchSize = ld_BatchSize load \<rparr>"

text \<open>Running a method of the replace session on the handler's variables.\<close>

definition on_repl :: "('k \<times> 'k replaceSession, 'a) act \<Rightarrow> ('k hstate, 'a) act" where
  "on_repl m hs =
     (case h_repl hs of
        None \<Rightarrow> (Inl nil_deref, hs)
      | Some s \<Rightarrow> (case m (h_sink hs, s) of (r, (k', s')) \<Rightarrow> (r, hs\<lparr> h_sink := k', h_repl := Some s' \<rparr>)))"

definition first_batch :: "'k Sink \<Rightarrow> meta_Load \<Rightarrow> Batch \<Rightarrow> ('k hstate, unit) act" where
  "first_batch K load batch =
     (if ld_Mode load = LoadModeReplace then
        bindA (on_repl (ensureFirstBatch K (ld_AutoCreateTable load) (b_Columns batch))) (\<lambda>_ hs.
        (Inr (), hs\<lparr> h_writeTo := (case h_repl hs of Some s \<Rightarrow> rp_writeTo s | None \<Rightarrow> h_writeTo hs), h_first := False \<rparr>))
      else if ld_AutoCreateTable load then
        bindA (wrapA (wrapf ''ensure target'') (\<lambda>hs.
          case sk_EnsureTable K (run_target load) (b_Columns batch) (h_sink hs) of (r, k') \<Rightarrow> (r, hs\<lparr> h_sink := k' \<rparr>)))
          (\<lambda>_ hs. (Inr (), hs\<lparr> h_first := False \<rparr>))
      else (\<lambda>hs. (Inr (), hs\<lparr> h_first := False \<rparr>)))"

definition handler :: "'k Sink \<Rightarrow> meta_Load \<Rightarrow> gtime \<Rightarrow> 'k hstate BatchHandler" where
  "handler K load loadTS batch =
     bindA (\<lambda>hs. if h_first hs then first_batch K load batch hs else (Inr (), hs)) (\<lambda>_ hs.
     case sk_WriteBatch K (h_writeTo hs) batch loadTS (h_sink hs) of
       (Inl e, k') \<Rightarrow> (Inl e, hs\<lparr> h_sink := k' \<rparr>)
     | (Inr n, k') \<Rightarrow> (Inr (), hs\<lparr> h_sink := k', h_written := h_written hs + n \<rparr>))"

text \<open>
  What follows a failure: \<^verbatim>\<open>_ = r.repo.FinishRun(...)\<close>, \<^verbatim>\<open>MarkFinished\<close> and, except when the replace could
  not be prepared, \<^verbatim>\<open>ObserveRun\<close>.
\<close>

definition fail_run :: "('r, 'k, 's) Runner \<Rightarrow> (nat \<Rightarrow> gtime) \<Rightarrow> meta_Load \<Rightarrow> LoadRun \<Rightarrow> string \<Rightarrow> int \<Rightarrow> int \<Rightarrow>
    string \<Rightarrow> bool \<Rightarrow> ('r, 'k, 's) rworld \<Rightarrow> ('r, 'k, 's) rworld" where
  "fail_run R clk load run current rowsRead rowsWritten msg observe W =
     (let r' = snd (rs_FinishRun (rn_repo R) run ''failed'' rowsRead rowsWritten current msg (rw_repo W)) in
      W\<lparr> rw_repo := r',
         rw_reg := MarkFinished (rw_reg W) (ld_ID load) ''failed'' (clk 1) rowsRead rowsWritten msg,
         rw_met := (if observe then ObserveRun (ld_Name load) ''failed'' (target_label load) rowsRead rowsWritten
                                      (run_StartedAt run) (clk 2) (rw_met W)
                    else rw_met W) \<rparr>)"

text \<open>The end of a run whose data is in place: the watermark, the run row, the registry and the metrics.\<close>

definition finish_success :: "('r, 'k, 's) Runner \<Rightarrow> (nat \<Rightarrow> gtime) \<Rightarrow> meta_Load \<Rightarrow> LoadRun \<Rightarrow> string \<Rightarrow> int \<Rightarrow> int \<Rightarrow>
    ('r, 'k, 's) rworld \<Rightarrow> gerr option \<times> ('r, 'k, 's) rworld" where
  "finish_success R clk load run newWMValue rowsRead rowsWritten W =
     (case rs_FinishRun (rn_repo R) run ''success'' rowsRead rowsWritten newWMValue [] (rw_repo W) of
        (Inl e, r') \<Rightarrow>
          (Some e, W\<lparr> rw_repo := r',
             rw_reg := MarkFinished (rw_reg W) (ld_ID load) ''failed'' (clk 1) rowsRead rowsWritten (Error e),
             rw_met := ObserveRun (ld_Name load) ''failed'' (target_label load) rowsRead rowsWritten
                         (run_StartedAt run) (clk 2) (rw_met W) \<rparr>)
      | (Inr _, r') \<Rightarrow>
          (let M = ObserveRun (ld_Name load) ''success'' (target_label load) rowsRead rowsWritten
                     (run_StartedAt run) (clk 2) (rw_met W) in
           (None, W\<lparr> rw_repo := r',
             rw_reg := MarkFinished (rw_reg W) (ld_ID load) ''success'' (clk 1) rowsRead rowsWritten [],
             rw_met := (if ld_Mode load = LoadModeDelta \<and> ld_WatermarkType load = WatermarkDatetime
                        then ObserveWatermarkLag (ld_Name load) newWMValue (clk 3) M else M) \<rparr>)))"

definition settle :: "('r, 'k, 's) Runner \<Rightarrow> (nat \<Rightarrow> gtime) \<Rightarrow> meta_Load \<Rightarrow> LoadRun \<Rightarrow> string \<Rightarrow> ReadResult \<Rightarrow> int \<Rightarrow>
    ('r, 'k, 's) rworld \<Rightarrow> gerr option \<times> ('r, 'k, 's) rworld" where
  "settle R clk load run current result rowsWritten W =
     (let newWMValue = wm_Value (rr_NewWatermark result) in
      if ld_Mode load = LoadModeDelta \<and> newWMValue \<noteq> [] \<and> (rr_WatermarkInit result \<or> newWMValue \<noteq> current) then
        (case rs_UpsertWatermark (rn_repo R) (ld_ID load) newWMValue (rw_repo W) of
           (Inl e, r') \<Rightarrow>
             (Some (wrapf ''update watermark'' e),
              fail_run R clk load run current (rr_RowsRead result) rowsWritten (''update watermark: '' @ Error e) True
                (W\<lparr> rw_repo := r' \<rparr>))
         | (Inr _, r') \<Rightarrow>
             finish_success R clk load run newWMValue (rr_RowsRead result) rowsWritten (W\<lparr> rw_repo := r' \<rparr>))
      else finish_success R clk load run newWMValue (rr_RowsRead result) rowsWritten W)"

text \<open>
  From the read to the return. The result is the error, the \<^verbatim>\<open>invalidate\<close> flag, the replace session as it
  is when the deferred calls run, and the state.
\<close>

definition read_phase :: "('r, 'k, 's) Runner \<Rightarrow> (nat \<Rightarrow> gtime) \<Rightarrow> meta_Load \<Rightarrow> LoadRun \<Rightarrow> string \<Rightarrow>
    ('s, 'k hstate) Source \<Rightarrow> 'k replaceSession option \<Rightarrow> ('r, 'k, 's) rworld \<Rightarrow>
    gerr option \<times> bool \<times> 'k replaceSession option \<times> ('r, 'k, 's) rworld" where
  "read_phase R clk load run current src repl W =
     (let hs0 = \<lparr> h_sink = rw_sink W, h_repl = repl, h_first = True, h_written = 0,
                  h_writeTo = (case repl of None \<Rightarrow> run_target load | Some s \<Rightarrow> rp_writeTo s) \<rparr> in
      case src_Read src (load_config load current) (handler (rn_sink R) load (clk 0)) (rw_sess W) hs0 of
        ((result, err), s', hs) \<Rightarrow>
          let W1 = W\<lparr> rw_sess := s', rw_sink := h_sink hs \<rparr> in
          (case err of
             Some e \<Rightarrow>
               (Some e, True, h_repl hs,
                fail_run R clk load run current (rr_RowsRead result) (h_written hs) (Error e) True W1)
           | None \<Rightarrow>
               (case h_repl hs of
                  None \<Rightarrow>
                    (case settle R clk load run current result (h_written hs) W1 of (e, W2) \<Rightarrow> (e, False, None, W2))
                | Some s \<Rightarrow>
                    (case repl_commit (h_sink hs, s) of
                       (Inl e, (k', s2)) \<Rightarrow>
                         (Some e, False, Some s2,
                          fail_run R clk load run current (rr_RowsRead result) (h_written hs) (Error e) True
                            (W1\<lparr> rw_sink := k' \<rparr>))
                     | (Inr _, (k', s2)) \<Rightarrow>
                         (case settle R clk load run current result (h_written hs) (W1\<lparr> rw_sink := k' \<rparr>) of
                            (e, W2) \<Rightarrow> (e, False, Some s2, W2))))))"

text \<open>From \<^verbatim>\<open>StartRun\<close> on, with the deferred \<^verbatim>\<open>repl.abort\<close> of a replace run.\<close>

definition started_phase :: "('r, 'k, 's) Runner \<Rightarrow> (nat \<Rightarrow> gtime) \<Rightarrow> meta_Load \<Rightarrow> LoadRun \<Rightarrow> string \<Rightarrow>
    ('s, 'k hstate) Source \<Rightarrow> ('r, 'k, 's) rworld \<Rightarrow> gerr option \<times> bool \<times> ('r, 'k, 's) rworld" where
  "started_phase R clk load run current src W =
     (if ld_Mode load = LoadModeReplace then
        (case prepareExisting (rn_sink R) (rw_sink W, newReplaceSession (rn_sink R) (run_target load)) of
           (Inl e, (k', s')) \<Rightarrow>
             (Some e, False, fail_run R clk load run current 0 0 (Error e) False (W\<lparr> rw_sink := k' \<rparr>))
         | (Inr _, (k', s')) \<Rightarrow>
             (case read_phase R clk load run current src (Some s') (W\<lparr> rw_sink := k' \<rparr>) of
                (e, invd, repl, W1) \<Rightarrow>
                  (e, invd, (case repl of None \<Rightarrow> W1 | Some s \<Rightarrow> W1\<lparr> rw_sink := repl_abort (rw_sink W1, s) \<rparr>))))
      else (case read_phase R clk load run current src None W of (e, invd, _, W1) \<Rightarrow> (e, invd, W1)))"

definition run_phase :: "('r, 'k, 's) Runner \<Rightarrow> (nat \<Rightarrow> gtime) \<Rightarrow> meta_Load \<Rightarrow> ('s, 'k hstate) Source \<Rightarrow>
    ('r, 'k, 's) rworld \<Rightarrow> gerr option \<times> bool \<times> ('r, 'k, 's) rworld" where
  "run_phase R clk load src W =
     (case rs_GetWatermark (rn_repo R) (ld_ID load) (rw_repo W) of
        (Inl e, r1) \<Rightarrow> (Some e, False, W\<lparr> rw_repo := r1 \<rparr>)
      | (Inr wm, r1) \<Rightarrow>
          let current = (case wm of None \<Rightarrow> [] | Some w \<Rightarrow> mw_Value w) in
          (case rs_StartRun (rn_repo R) (ld_ID load) current r1 of
             (Inl e, r2) \<Rightarrow> (Some e, False, W\<lparr> rw_repo := r2 \<rparr>)
           | (Inr run, r2) \<Rightarrow>
               started_phase R clk load run current src
                 (W\<lparr> rw_repo := r2,
                     rw_reg := MarkRunning (rw_reg W) (ld_ID load) (run_RunUUID run) (run_StartedAt run) \<rparr>)))"

definition Execute :: "('r, 'k, 's) Runner \<Rightarrow> (nat \<Rightarrow> gtime) \<Rightarrow> meta_Load \<Rightarrow> ('r, 'k, 's) rworld \<Rightarrow>
    gerr option \<times> ('r, 'k, 's) rworld" where
  "Execute R clk load0 W =
     (let load = force_append load0 in
      case ResolveParams (rn_getenv R) (ms_ParamsJSON (ld_Source load)) of
        Inl e \<Rightarrow> (Some e, W)
      | Inr params \<Rightarrow>
          (case ss_Obtain (rn_sessions R) (source_config R load params) (rw_sess W) of
             (Inl e, s1) \<Rightarrow> (Some e, W\<lparr> rw_sess := s1 \<rparr>)
           | (Inr (src, release), s1) \<Rightarrow>
               (case run_phase R clk load src (W\<lparr> rw_sess := s1 \<rparr>) of
                  (e, invd, W1) \<Rightarrow> (e, W1\<lparr> rw_sess := release invd (rw_sess W1) \<rparr>))))"

section \<open>The environment of a run\<close>

text \<open>The parts a runner is wired to, each keeping its contract.\<close>

locale runner_env =
  snk: atomic_sink "rn_sink R" AR tables batch_rows stage aside swappable +
  sto: run_store "rn_repo R" wmark runs +
  ses: source_session "rn_sessions R" ok offers
  for R :: "('r, 'k, 's) Runner" and AR :: "'k AtomicReplacer" and tables :: "'k \<Rightarrow> TargetTable \<rightharpoonup> srow list"
    and batch_rows :: "Batch \<Rightarrow> gtime \<Rightarrow> srow list" and stage :: "TargetTable \<Rightarrow> TargetTable"
    and aside :: "TargetTable \<Rightarrow> TargetTable" and swappable :: "TargetTable \<Rightarrow> bool"
    and wmark :: "'r \<Rightarrow> int \<rightharpoonup> string" and runs :: "'r \<Rightarrow> int \<rightharpoonup> LoadRun"
    and ok :: "'s \<Rightarrow> bool" and offers :: "SourceConfig \<Rightarrow> LoadConfig \<Rightarrow> 's \<Rightarrow> Batch list"

text \<open>The stored rows of a list of batches.\<close>

definition rows_of :: "(Batch \<Rightarrow> gtime \<Rightarrow> srow list) \<Rightarrow> gtime \<Rightarrow> Batch list \<Rightarrow> srow list" where
  "rows_of batch_rows ts bs = concat (map (\<lambda>b. batch_rows b ts) bs)"

lemma rows_of_Nil [simp]: "rows_of br ts [] = []"
  by (simp add: rows_of_def)

lemma rows_of_snoc [simp]: "rows_of br ts (bs @ [b]) = rows_of br ts bs @ br b ts"
  by (simp add: rows_of_def)

text \<open>
  The handler of a replace run: \<open>T0\<close> are the tables before the run. Only the staging table changes, and
  it holds the rows of the batches handled so far.
\<close>

definition repl_inv :: "('k \<Rightarrow> TargetTable \<rightharpoonup> srow list) \<Rightarrow> 'k AtomicReplacer \<Rightarrow> TargetTable \<Rightarrow> TargetTable \<Rightarrow>
    (TargetTable \<rightharpoonup> srow list) \<Rightarrow> 'k hstate \<Rightarrow> bool" where
  "repl_inv tables AR stg t T0 hs \<longleftrightarrow>
     (\<exists>s. h_repl hs = Some s \<and> session_ok AR stg t s \<and> (h_first hs \<or> rp_active s \<and> h_writeTo hs = stg)) \<and>
     (\<forall>u. u \<noteq> stg \<longrightarrow> tables (h_sink hs) u = T0 u)"

definition repl_acc :: "('k \<Rightarrow> TargetTable \<rightharpoonup> srow list) \<Rightarrow> 'k AtomicReplacer \<Rightarrow> TargetTable \<Rightarrow> TargetTable \<Rightarrow>
    (TargetTable \<rightharpoonup> srow list) \<Rightarrow> (Batch \<Rightarrow> gtime \<Rightarrow> srow list) \<Rightarrow> gtime \<Rightarrow> Batch list \<Rightarrow> 'k hstate \<Rightarrow> bool" where
  "repl_acc tables AR stg t T0 br ts bs hs \<longleftrightarrow>
     repl_inv tables AR stg t T0 hs \<and> (h_first hs \<longrightarrow> bs = []) \<and>
     (if rp_active (the (h_repl hs)) then tables (h_sink hs) stg = Some (rows_of br ts bs) else bs = [])"

context runner_env
begin

lemma first_batch_repl:
  assumes "ld_Mode load = LoadModeReplace" and "repl_inv tables AR (stage t) t T0 hs" and "h_first hs"
    and "first_batch (rn_sink R) load b hs = (r, hs')"
  shows "repl_inv tables AR (stage t) t T0 hs' \<and>
         (r = Inr () \<longrightarrow> \<not> h_first hs' \<and> rp_active (the (h_repl hs')) \<and> h_writeTo hs' = stage t \<and>
            (if rp_active (the (h_repl hs)) then h_sink hs' = h_sink hs
             else tables (h_sink hs') (stage t) = Some []))"
proof -
  obtain s where s: "h_repl hs = Some s" "session_ok AR (stage t) t s"
    using assms(2) by (auto simp: repl_inv_def)
  obtain q k1 s1 where e: "ensureFirstBatch (rn_sink R) (ld_AutoCreateTable load) (b_Columns b) (h_sink hs, s) = (q, (k1, s1))"
    by (metis prod.exhaust)
  have fr: "\<forall>u. u \<noteq> stage t \<longrightarrow> tables k1 u = T0 u"
    using snk.ensureFirstBatch_frame [OF e s(2)] assms(2) by (auto simp: repl_inv_def)
  have ok: "session_ok AR (stage t) t s1"
    using snk.ensureFirstBatch_frame [OF e s(2), of t] snk.stage_neq [of t] by auto
  have hs': "hs' = (case q of Inl _ \<Rightarrow> hs\<lparr> h_sink := k1, h_repl := Some s1 \<rparr>
                    | Inr _ \<Rightarrow> hs\<lparr> h_sink := k1, h_repl := Some s1, h_writeTo := rp_writeTo s1, h_first := False \<rparr>)" "r = q"
    using assms(1,4) s(1) e by (auto simp: first_batch_def on_repl_def bindA_def split: sum.splits)
  show ?thesis
  proof (cases q)
    case (Inl x)
    then show ?thesis
      using hs' fr ok assms(3) by (auto simp: repl_inv_def)
  next
    case (Inr x)
    note E = snk.ensureFirstBatch_ok [OF e [unfolded Inr] s(2)]
    then show ?thesis
      using hs' fr ok Inr s(1) by (auto simp: repl_inv_def)
  qed
qed

lemma handler_repl:
  assumes mode: "ld_Mode load = LoadModeReplace" and inv: "repl_inv tables AR (stage t) t T0 hs"
    and run: "handler (rn_sink R) load ts b hs = (r, hs')"
  shows "repl_inv tables AR (stage t) t T0 hs' \<and>
         (repl_acc tables AR (stage t) t T0 batch_rows ts bs hs \<longrightarrow> r = Inr () \<longrightarrow>
          repl_acc tables AR (stage t) t T0 batch_rows ts (bs @ [b]) hs')"
proof -
  obtain q hs1 where q: "(if h_first hs then first_batch (rn_sink R) load b hs else (Inr (), hs)) = (q, hs1)"
    by fastforce
  have inv1: "repl_inv tables AR (stage t) t T0 hs1"
    using q inv first_batch_repl [OF mode inv _ _, of b q hs1] by (auto split: if_splits)
  show ?thesis
  proof (cases q)
    case (Inl e)
    then show ?thesis
      using run q inv1 by (auto simp: handler_def bindA_def)
  next
    case (Inr x)
    have st: "\<not> h_first hs1" "rp_active (the (h_repl hs1))" "h_writeTo hs1 = stage t"
      using q Inr inv first_batch_repl [OF mode inv, of b q hs1] by (auto simp: repl_inv_def split: if_splits)
    have rows: "tables (h_sink hs1) (stage t) = Some (rows_of batch_rows ts bs)"
      if "repl_acc tables AR (stage t) t T0 batch_rows ts bs hs"
      using q Inr inv that first_batch_repl [OF mode inv, of b q hs1]
      by (auto simp: repl_acc_def repl_inv_def split: if_splits)
    obtain w k1 where w: "sk_WriteBatch (rn_sink R) (stage t) b ts (h_sink hs1) = (w, k1)" by fastforce
    have fr: "\<forall>u. u \<noteq> stage t \<longrightarrow> tables k1 u = T0 u"
      using snk.write_frame [OF w] inv1 by (auto simp: repl_inv_def)
    have res: "r = (case w of Inl e \<Rightarrow> Inl e | Inr _ \<Rightarrow> Inr ())"
      "hs' = (case w of Inl e \<Rightarrow> hs1\<lparr> h_sink := k1 \<rparr> | Inr n \<Rightarrow> hs1\<lparr> h_sink := k1, h_written := h_written hs1 + n \<rparr>)"
      using run q Inr w st(3) by (auto simp: handler_def bindA_def split: sum.splits)
    have inv': "repl_inv tables AR (stage t) t T0 hs'"
      using inv1 fr res(2) by (auto simp: repl_inv_def split: sum.splits)
    have "repl_acc tables AR (stage t) t T0 batch_rows ts (bs @ [b]) hs'"
      if "w = Inr n" and "repl_acc tables AR (stage t) t T0 batch_rows ts bs hs" for n
      using snk.write_appends [OF w [unfolded that] rows [OF that(2)]] inv' st(1,2) res(2) that
      by (simp add: repl_acc_def)
    with inv' show ?thesis
      using res(1) by (auto split: sum.splits)
  qed
qed

end

text \<open>Only the read, the commit and the abort touch the sink.\<close>

lemma fail_run_sink [simp]:
  "rw_sink (fail_run R clk load run cur a b m obs W) = rw_sink W"
  "rw_sess (fail_run R clk load run cur a b m obs W) = rw_sess W"
  by (simp_all add: fail_run_def Let_def)

lemma finish_success_sink:
  "finish_success R clk load run v a b W = (e, W') \<Longrightarrow> rw_sink W' = rw_sink W \<and> rw_sess W' = rw_sess W"
  by (auto simp: finish_success_def Let_def split: prod.splits sum.splits)

lemma settle_sink:
  "settle R clk load run cur rr n W = (e, W') \<Longrightarrow> rw_sink W' = rw_sink W \<and> rw_sess W' = rw_sess W"
  by (auto simp: settle_def Let_def split: if_splits prod.splits sum.splits dest!: finish_success_sink)

context runner_env
begin

lemma read_phase_replace:
  assumes mode: "ld_Mode load = LoadModeReplace" and sw: "swappable t"
    and src: "source_reader (src_Read src) off" and ok: "session_ok AR (stage t) t s0"
    and T0: "\<forall>u. u \<noteq> stage t \<longrightarrow> tables (rw_sink W) u = T0 u"
    and act: "rp_active s0 \<longrightarrow> tables (rw_sink W) (stage t) = Some []"
    and run: "read_phase R clk load run cur src (Some s0) W = (e, invd, repl, W')"
  defines "rows \<equiv> rows_of batch_rows (clk 0) (off (load_config load cur) (rw_sess W))"
  shows "\<exists>s. repl = Some s \<and>
     (let T = tables (repl_abort (rw_sink W', s)) in
      (T t = T0 t \<or> T t = Some rows) \<and>
      (e = None \<longrightarrow> T t = Some rows \<or> \<not> rp_active s0 \<and> off (load_config load cur) (rw_sess W) = [] \<and> T t = T0 t) \<and>
      (\<forall>u. u \<notin> {t, stage t, aside t} \<longrightarrow> T u = T0 u))"
proof -
  let ?h = "handler (rn_sink R) load (clk 0)"
  define hs0 where "hs0 = \<lparr> h_sink = rw_sink W, h_repl = Some s0, h_first = True, h_written = 0, h_writeTo = rp_writeTo s0 \<rparr>"
  obtain result err w' hs where rd: "src_Read src (load_config load cur) ?h (rw_sess W) hs0 = ((result, err), w', hs)"
    by (metis prod.exhaust)
  have inv0: "repl_inv tables AR (stage t) t T0 hs0" and acc0: "repl_acc tables AR (stage t) t T0 batch_rows (clk 0) [] hs0"
    using ok T0 act by (simp_all add: repl_inv_def repl_acc_def hs0_def)
  have inv: "repl_inv tables AR (stage t) t T0 hs"
    by (rule source_reader.read_invariant [where I = "repl_inv tables AR (stage t) t T0", OF src rd inv0]) (use handler_repl [OF mode] in blast)
  then obtain s where s: "h_repl hs = Some s" "session_ok AR (stage t) t s"
    and fr: "\<forall>u. u \<noteq> stage t \<longrightarrow> tables (h_sink hs) u = T0 u"
    by (auto simp: repl_inv_def)
  have abort: "tables (repl_abort (k, s)) u = tables k u" if "u \<noteq> stage t" for u k
    using snk.repl_abort_frame [OF s(2) that] .
  show ?thesis
  proof (cases err)
    case (Some x)
    then have "repl = Some s" "rw_sink W' = h_sink hs" "e = Some x"
      using run rd s(1) by (auto simp: read_phase_def Let_def hs0_def)
    then show ?thesis
      using abort fr snk.stage_neq [of t] by (auto simp: Let_def)
  next
    case None
    define J where "J = repl_acc tables AR (stage t) t T0 batch_rows (clk 0)"
    have step: "J (bs @ [b]) x'" if "J bs x" and "?h b x = (Inr (), x')" for bs b x x'
      using handler_repl [OF mode _ that(2), of t T0 bs] that(1) by (simp add: J_def repl_acc_def)
    have fd: "feed ?h (off (load_config load cur) (rw_sess W)) hs0 = (Inr (), hs)"
      by (rule source_reader.read_success [OF src rd [unfolded None]])
    then have acc: "J ([] @ off (load_config load cur) (rw_sess W)) hs"
      by (rule feed_accumulates) (fact acc0 [folded J_def], fact step)
    obtain c k1 s1 where c: "repl_commit (h_sink hs, s) = (c, (k1, s1))"
      by (metis prod.exhaust)
    show ?thesis
    proof (cases c)
      case (Inl x)
      note E = snk.repl_commit_err [OF c [unfolded Inl] s(2)]
      have "repl = Some s" "rw_sink W' = k1" "e = Some x"
        using run rd s(1) c Inl None E by (auto simp: read_phase_def Let_def hs0_def)
      then show ?thesis
        using abort fr E sw snk.stage_neq [of t] by (auto simp: Let_def)
    next
      case (Inr x)
      obtain W2 where "settle R clk load run cur result (h_written hs) (W\<lparr> rw_sess := w', rw_sink := k1 \<rparr>) = (e, W2)"
        and r: "repl = Some s1" "W' = W2"
        using run rd s(1) c Inr None by (auto simp: read_phase_def Let_def hs0_def split: prod.splits)
      then have W': "rw_sink W' = k1"
        using settle_sink by fastforce
      show ?thesis
      proof (cases "rp_active s")
        case True
        note C = snk.repl_commit_ok [OF c [unfolded Inr] s(2) True sw]
        have "tables k1 t = Some rows"
          using C acc True s(1) by (simp add: J_def repl_acc_def rows_def)
        then show ?thesis
          using r W' C fr by (auto simp: Let_def snk.repl_abort_committed)
      next
        case False
        then have k1: "k1 = h_sink hs" "s1 = s"
          using c snk.repl_commit_inactive [of s "h_sink hs"] by auto
        have "off (load_config load cur) (rw_sess W) = []"
          using acc False s(1) by (simp add: J_def repl_acc_def)
        moreover have "\<not> rp_active s0"
        proof -
          have "hs = hs0"
            using fd calculation by simp
          then show ?thesis
            using s(1) False by (simp add: hs0_def)
        qed
        ultimately show ?thesis
          using r W' k1 abort fr snk.stage_neq [of t] by (auto simp: Let_def)
      qed
    qed
  qed
qed

end

context runner_env
begin

lemma started_phase_replace:
  assumes mode: "ld_Mode load = LoadModeReplace" and sw: "swappable (run_target load)"
    and src: "source_reader (src_Read src) off"
    and run: "started_phase R clk load run cur src W = (e, invd, W')"
  defines "rows \<equiv> rows_of batch_rows (clk 0) (off (load_config load cur) (rw_sess W))"
  shows "let t = run_target load; T0 = tables (rw_sink W); T = tables (rw_sink W') in
      (T t = T0 t \<or> T t = Some rows) \<and>
      (e = None \<longrightarrow> T t = Some rows \<or> T0 t = None \<and> off (load_config load cur) (rw_sess W) = [] \<and> T t = None) \<and>
      (\<forall>u. u \<notin> {t, stage t, aside t} \<longrightarrow> T u = T0 u)"
proof -
  define t where "t = run_target load"
  obtain q k1 s1 where p: "prepareExisting (rn_sink R) (rw_sink W, newReplaceSession (rn_sink R) t) = (q, (k1, s1))"
    by (metis prod.exhaust)
  have fr: "\<forall>u. u \<noteq> stage t \<longrightarrow> tables k1 u = tables (rw_sink W) u"
    using snk.prepareExisting_frame [OF p snk.new_session_ok] by blast
  show ?thesis
  proof (cases q)
    case (Inl x)
    then have "e = Some x" "rw_sink W' = k1"
      using run mode p by (auto simp: started_phase_def t_def)
    then show ?thesis
      using fr snk.stage_neq [of t] by (auto simp: Let_def t_def)
  next
    case (Inr x)
    note ok = snk.prepareExisting_ok [OF p [unfolded Inr] snk.new_session_ok snk.new_session_inactive]
    obtain e1 invd1 repl W1 where rp: "read_phase R clk load run cur src (Some s1) (W\<lparr> rw_sink := k1 \<rparr>) = (e1, invd1, repl, W1)"
      by (metis prod.exhaust)
    have W1: "\<forall>u. u \<noteq> stage t \<longrightarrow> tables (rw_sink (W\<lparr> rw_sink := k1 \<rparr>)) u = tables (rw_sink W) u"
      "rp_active s1 \<longrightarrow> tables (rw_sink (W\<lparr> rw_sink := k1 \<rparr>)) (stage t) = Some []"
      using fr ok by (auto split: if_splits)
    obtain s where s: "repl = Some s"
      and c: "let T = tables (repl_abort (rw_sink W1, s)) in
      (T t = tables (rw_sink W) t \<or> T t = Some rows) \<and>
      (e1 = None \<longrightarrow> T t = Some rows \<or>
         \<not> rp_active s1 \<and> off (load_config load cur) (rw_sess W) = [] \<and> T t = tables (rw_sink W) t) \<and>
      (\<forall>u. u \<notin> {t, stage t, aside t} \<longrightarrow> T u = tables (rw_sink W) u)"
      using read_phase_replace [OF mode sw [folded t_def] src conjunct1 [OF ok] W1 rp] by (auto simp: rows_def)
    have "e = e1" "rw_sink W' = repl_abort (rw_sink W1, s)"
      using run mode p rp Inr s by (auto simp: started_phase_def t_def)
    moreover have "tables (rw_sink W) t = None" if "\<not> rp_active s1"
      using ok that by (auto split: if_splits)
    ultimately show ?thesis
      using c by (auto simp: Let_def t_def [symmetric])
  qed
qed

end

section \<open>Append and delta runs\<close>

definition rows_in :: "(TargetTable \<rightharpoonup> srow list) \<Rightarrow> TargetTable \<Rightarrow> srow list" where
  "rows_in T t = (case T t of None \<Rightarrow> [] | Some rs \<Rightarrow> rs)"

text \<open>
  The handler of a run that is no replace: the target holds what it held and the rows of the batches
  handled so far, whether or not the last call failed.
\<close>

definition app_acc :: "('k \<Rightarrow> TargetTable \<rightharpoonup> srow list) \<Rightarrow> TargetTable \<Rightarrow> (TargetTable \<rightharpoonup> srow list) \<Rightarrow>
    (Batch \<Rightarrow> gtime \<Rightarrow> srow list) \<Rightarrow> gtime \<Rightarrow> Batch list \<Rightarrow> 'k hstate \<Rightarrow> bool" where
  "app_acc tables t T0 batch_rows ts bs hs \<longleftrightarrow>
     h_writeTo hs = t \<and> h_repl hs = None \<and> (\<forall>u. u \<noteq> t \<longrightarrow> tables (h_sink hs) u = T0 u) \<and>
     rows_in (tables (h_sink hs)) t = rows_in T0 t @ rows_of batch_rows ts bs"

context runner_env
begin

lemma ensure_rows:
  assumes "sk_EnsureTable (rn_sink R) t cs k = (r, k')"
  shows "rows_in (tables k') u = rows_in (tables k) u \<and> (u \<noteq> t \<longrightarrow> tables k' u = tables k u)"
  using assms snk.ensure_err [of t cs k] snk.ensure_ok [of t cs k]
  by (cases r) (auto simp: rows_in_def split: if_splits)

lemma write_rows:
  assumes "sk_WriteBatch (rn_sink R) t b ts k = (r, k')"
  shows "rows_in (tables k') t = rows_in (tables k) t @ (case r of Inl _ \<Rightarrow> [] | Inr _ \<Rightarrow> batch_rows b ts)"
proof (cases r)
  case (Inl e)
  then show ?thesis
    using assms snk.write_err by (simp add: rows_in_def)
next
  case (Inr n)
  note w = snk.write_ok [OF assms [unfolded Inr]]
  then show ?thesis
    using Inr snk.batch_rows_Nil [of b ts] by (cases "b_Rows b = []") (auto simp: rows_in_def)
qed

lemma first_batch_append:
  assumes mode: "ld_Mode load \<noteq> LoadModeReplace" and acc: "app_acc tables t T0 batch_rows ts bs hs"
    and t: "run_target load = t" and run: "first_batch (rn_sink R) load b hs = (r, hs')"
  shows "app_acc tables t T0 batch_rows ts bs hs'"
proof (cases "ld_AutoCreateTable load")
  case True
  obtain q k' where q: "sk_EnsureTable (rn_sink R) t (b_Columns b) (h_sink hs) = (q, k')"
    by fastforce
  have "h_sink hs' = k'" "h_writeTo hs' = h_writeTo hs" "h_repl hs' = h_repl hs"
    using run mode True q t by (auto simp: first_batch_def bindA_def wrapA_def split: sum.splits)
  then show ?thesis
    using acc ensure_rows [OF q] by (auto simp: app_acc_def)
next
  case False
  then show ?thesis
    using run mode acc by (auto simp: first_batch_def app_acc_def)
qed

lemma handler_append:
  assumes mode: "ld_Mode load \<noteq> LoadModeReplace" and acc: "app_acc tables t T0 batch_rows ts bs hs"
    and t: "run_target load = t" and run: "handler (rn_sink R) load ts b hs = (r, hs')"
  shows "app_acc tables t T0 batch_rows ts (case r of Inl _ \<Rightarrow> bs | Inr _ \<Rightarrow> bs @ [b]) hs'"
proof -
  obtain q hs1 where q: "(if h_first hs then first_batch (rn_sink R) load b hs else (Inr (), hs)) = (q, hs1)"
    by fastforce
  have acc1: "app_acc tables t T0 batch_rows ts bs hs1"
    using q acc first_batch_append [OF mode acc t] by (auto split: if_splits)
  show ?thesis
  proof (cases q)
    case (Inl e)
    then show ?thesis
      using run q acc1 by (auto simp: handler_def bindA_def)
  next
    case (Inr x)
    obtain w k1 where w: "sk_WriteBatch (rn_sink R) t b ts (h_sink hs1) = (w, k1)" by fastforce
    have to: "h_writeTo hs1 = t" using acc1 by (simp add: app_acc_def)
    have res: "r = (case w of Inl e \<Rightarrow> Inl e | Inr _ \<Rightarrow> Inr ())"
      "hs' = (case w of Inl e \<Rightarrow> hs1\<lparr> h_sink := k1 \<rparr> | Inr n \<Rightarrow> hs1\<lparr> h_sink := k1, h_written := h_written hs1 + n \<rparr>)"
      using run q Inr w to by (auto simp: handler_def bindA_def split: sum.splits)
    then show ?thesis
      using acc1 write_rows [OF w] snk.write_frame [OF w] by (cases w) (auto simp: app_acc_def)
  qed
qed

text \<open>The count of rows written, in every mode.\<close>

lemma on_repl_written: "on_repl m hs = (r, hs') \<Longrightarrow> h_written hs' = h_written hs"
  by (auto simp: on_repl_def split: option.splits prod.splits)

lemma first_batch_written:
  assumes "first_batch (rn_sink R) load b hs = (r, hs')"
  shows "h_written hs' = h_written hs"
proof (cases "ld_Mode load = LoadModeReplace")
  case True
  obtain q hs1 where q: "on_repl (ensureFirstBatch (rn_sink R) (ld_AutoCreateTable load) (b_Columns b)) hs = (q, hs1)"
    by fastforce
  then show ?thesis
    using assms True on_repl_written [OF q] by (cases q) (auto simp: first_batch_def bindA_def)
next
  case False
  obtain q k' where q: "sk_EnsureTable (rn_sink R) (run_target load) (b_Columns b) (h_sink hs) = (q, k')"
    by fastforce
  then show ?thesis
    using assms False by (cases q) (auto simp: first_batch_def bindA_def wrapA_def split: if_splits)
qed

lemma handler_written:
  assumes "handler (rn_sink R) load ts b hs = (Inr u, hs')"
  shows "h_written hs' = h_written hs + int (length (b_Rows b))"
proof -
  obtain q hs1 where q: "(if h_first hs then first_batch (rn_sink R) load b hs else (Inr (), hs)) = (q, hs1)"
    by fastforce
  then have "h_written hs1 = h_written hs"
    using first_batch_written by (auto split: if_splits)
  moreover obtain x where x: "q = Inr x"
    using assms q by (cases q) (auto simp: handler_def bindA_def)
  obtain w k1 where w: "sk_WriteBatch (rn_sink R) (h_writeTo hs1) b ts (h_sink hs1) = (w, k1)" by fastforce
  have "case w of Inl e \<Rightarrow> False | Inr n \<Rightarrow> h_written hs' = h_written hs1 + n"
    using assms q x w by (auto simp: handler_def bindA_def split: sum.splits)
  then obtain n where n: "w = Inr n" "h_written hs' = h_written hs1 + n"
    by (cases w) auto
  then have "n = int (length (b_Rows b))"
    using snk.write_ok [OF w [unfolded n]] by simp
  ultimately show ?thesis
    using n(2) by simp
qed

end

section \<open>The run row, the registry and the watermark\<close>

definition run_status :: "gerr option \<Rightarrow> string" where
  "run_status e = (if e = None then ''success'' else ''failed'')"

text \<open>
  What a run that was started leaves behind when it returns \<open>e\<close> after writing \<open>n\<close> rows: the registry has it
  finished with the status of \<open>e\<close>; its row is finished with the same status and count, or could not be
  written, and then \<open>e\<close> is an error; the watermark changes for this load only, in delta mode, and the
  row of a success carries the stored value.
\<close>

definition run_outcome :: "('r \<Rightarrow> int \<rightharpoonup> string) \<Rightarrow> ('r \<Rightarrow> int \<rightharpoonup> LoadRun) \<Rightarrow> meta_Load \<Rightarrow> LoadRun \<Rightarrow> int \<Rightarrow>
    gerr option \<Rightarrow> ('r, 'k, 's) rworld \<Rightarrow> ('r, 'k, 's) rworld \<Rightarrow> bool" where
  "run_outcome wmark runs load run n e W W' \<longleftrightarrow>
     (\<exists>a m tm. rw_reg W' = MarkFinished (rw_reg W) (ld_ID load) (run_status e) tm a n m) \<and>
     (runs (rw_repo W') = runs (rw_repo W) \<and> e \<noteq> None \<or>
      (\<exists>run'. runs (rw_repo W') = (runs (rw_repo W))(run_ID run \<mapsto> run') \<and>
         run_Status run' = run_status e \<and> run_RowsWritten run' = n \<and> run_FinishedAt run' \<noteq> None \<and>
         run_LoadID run' = run_LoadID run \<and>
         (e = None \<and> ld_Mode load = LoadModeDelta \<and> run_WatermarkEnd run' \<noteq> [] \<longrightarrow>
          wmark (rw_repo W') (ld_ID load) = Some (run_WatermarkEnd run')))) \<and>
     (wmark (rw_repo W') = wmark (rw_repo W) \<or>
      ld_Mode load = LoadModeDelta \<and>
      (\<exists>v. v \<noteq> [] \<and> wmark (rw_repo W') = (wmark (rw_repo W))(ld_ID load \<mapsto> v)))"

context runner_env
begin

lemma fail_run_outcome:
  assumes row: "runs (rw_repo W) (run_ID run) \<noteq> None"
    and wm: "wmark (rw_repo W) = wmark (rw_repo W0)" "runs (rw_repo W) = runs (rw_repo W0)" "rw_reg W = rw_reg W0"
  shows "run_outcome wmark runs load run n (Some x) W0 (fail_run R clk load run cur a n m obs W)"
proof -
  obtain q r' where q: "rs_FinishRun (rn_repo R) run ''failed'' a n cur m (rw_repo W) = (q, r')"
    by fastforce
  show ?thesis
  proof (cases q)
    case (Inl y)
    then show ?thesis
      using sto.finish_err [OF q [unfolded Inl]] wm q
      by (auto simp: run_outcome_def fail_run_def run_status_def)
  next
    case (Inr y)
    then show ?thesis
      using sto.finish_ok [OF q [unfolded Inr] row] wm q
      by (auto simp: run_outcome_def fail_run_def run_status_def finished_as_def)
  qed
qed

lemma finish_success_outcome:
  assumes row: "runs (rw_repo W) (run_ID run) \<noteq> None"
    and fs: "finish_success R clk load run v a n W = (e, W')"
    and wmv: "ld_Mode load = LoadModeDelta \<Longrightarrow> v \<noteq> [] \<Longrightarrow> wmark (rw_repo W) (ld_ID load) = Some v"
    and W0: "runs (rw_repo W) = runs (rw_repo W0)" "rw_reg W = rw_reg W0"
    and wm: "wmark (rw_repo W) = wmark (rw_repo W0) \<or>
      ld_Mode load = LoadModeDelta \<and> (\<exists>v. v \<noteq> [] \<and> wmark (rw_repo W) = (wmark (rw_repo W0))(ld_ID load \<mapsto> v))"
  shows "run_outcome wmark runs load run n e W0 W'"
proof -
  obtain q r' where q: "rs_FinishRun (rn_repo R) run ''success'' a n v [] (rw_repo W) = (q, r')"
    by fastforce
  show ?thesis
  proof (cases q)
    case (Inl y)
    have "e = Some y" "rw_repo W' = r'"
      "rw_reg W' = MarkFinished (rw_reg W) (ld_ID load) ''failed'' (clk 1) a n (Error y)"
      using fs q Inl by (auto simp: finish_success_def)
    then show ?thesis
      using sto.finish_err [OF q [unfolded Inl]] wm W0
      by (auto simp: run_outcome_def run_status_def)
  next
    case (Inr y)
    have *: "e = None" "rw_repo W' = r'"
      "rw_reg W' = MarkFinished (rw_reg W) (ld_ID load) ''success'' (clk 1) a n []"
      using fs q Inr by (auto simp: finish_success_def Let_def)
    obtain run' where f: "wmark r' = wmark (rw_repo W)" "runs r' = (runs (rw_repo W))(run_ID run \<mapsto> run')"
      "finished_as ''success'' a n v [] run'" "run_LoadID run' = run_LoadID run"
      using sto.finish_ok [OF q [unfolded Inr] row] by blast
    show ?thesis
      unfolding run_outcome_def run_status_def using * f wm W0 wmv
      by (auto simp: finished_as_def)
  qed
qed

lemma settle_outcome:
  assumes row: "runs (rw_repo W) (run_ID run) \<noteq> None"
    and cur: "cur = [] \<or> wmark (rw_repo W) (ld_ID load) = Some cur"
    and st: "settle R clk load run cur rr n W = (e, W')"
  shows "run_outcome wmark runs load run n e W W'"
proof -
  let ?v = "wm_Value (rr_NewWatermark rr)"
  show ?thesis
  proof (cases "ld_Mode load = LoadModeDelta \<and> ?v \<noteq> [] \<and> (rr_WatermarkInit rr \<or> ?v \<noteq> cur)")
    case True
    obtain q r' where q: "rs_UpsertWatermark (rn_repo R) (ld_ID load) ?v (rw_repo W) = (q, r')"
      by fastforce
    show ?thesis
    proof (cases q)
      case (Inl x)
      then have "e = Some (wrapf ''update watermark'' x)"
        "W' = fail_run R clk load run cur (rr_RowsRead rr) n (''update watermark: '' @ Error x) True (W\<lparr> rw_repo := r' \<rparr>)"
        using st True q by (auto simp: settle_def Let_def)
      then show ?thesis
        using fail_run_outcome [of "W\<lparr> rw_repo := r' \<rparr>" run W] sto.upsert_err [OF q [unfolded Inl]] row by simp
    next
      case (Inr x)
      note u = sto.upsert_ok [OF q [unfolded Inr]]
      have "finish_success R clk load run ?v (rr_RowsRead rr) n (W\<lparr> rw_repo := r' \<rparr>) = (e, W')"
        using st True q Inr by (auto simp: settle_def Let_def)
      then show ?thesis
        by (rule finish_success_outcome [rotated]) (use u row True in auto)
    qed
  next
    case False
    then have "finish_success R clk load run ?v (rr_RowsRead rr) n W = (e, W')"
      using st by (auto simp: settle_def Let_def)
    then show ?thesis
      by (rule finish_success_outcome [rotated]) (use row False cur in auto)
  qed
qed

end

text \<open>The ways out of the read phase.\<close>

lemma read_phase_cases:
  assumes "read_phase R clk load run cur src repl W = (e, invd, repl', W')"
  obtains (failed) result err w' hs x k msg where
      "src_Read src (load_config load cur) (handler (rn_sink R) load (clk 0)) (rw_sess W)
         \<lparr> h_sink = rw_sink W, h_repl = repl, h_first = True, h_written = 0,
           h_writeTo = (case repl of None \<Rightarrow> run_target load | Some s \<Rightarrow> rp_writeTo s) \<rparr> = ((result, err), w', hs)"
      "e = Some x" "h_repl hs = None \<longrightarrow> k = h_sink hs"
      "W' = fail_run R clk load run cur (rr_RowsRead result) (h_written hs) msg True (W\<lparr> rw_sess := w', rw_sink := k \<rparr>)"
  | (settled) result w' hs k where
      "src_Read src (load_config load cur) (handler (rn_sink R) load (clk 0)) (rw_sess W)
         \<lparr> h_sink = rw_sink W, h_repl = repl, h_first = True, h_written = 0,
           h_writeTo = (case repl of None \<Rightarrow> run_target load | Some s \<Rightarrow> rp_writeTo s) \<rparr> = ((result, None), w', hs)"
      "h_repl hs = None \<longrightarrow> k = h_sink hs"
      "settle R clk load run cur result (h_written hs) (W\<lparr> rw_sess := w', rw_sink := k \<rparr>) = (e, W')"
proof -
  define hs0 where "hs0 = \<lparr> h_sink = rw_sink W, h_repl = repl, h_first = True, h_written = 0,
           h_writeTo = (case repl of None \<Rightarrow> run_target load | Some s \<Rightarrow> rp_writeTo s) \<rparr>"
  obtain result err w' hs where
    rd: "src_Read src (load_config load cur) (handler (rn_sink R) load (clk 0)) (rw_sess W) hs0 = ((result, err), w', hs)"
    by (metis prod.exhaust)
  show thesis
  proof (cases err)
    case (Some x)
    then show thesis
      using assms rd failed [of result err w' hs x "h_sink hs" "Error x"]
      by (auto simp: read_phase_def Let_def hs0_def)
  next
    case None
    show thesis
    proof (cases "h_repl hs")
      case rn: None
      show thesis
        by (rule settled [of result w' hs "h_sink hs"])
           (use assms rd None rn in \<open>auto simp: read_phase_def Let_def hs0_def split: prod.splits\<close>)
    next
      case (Some s)
      obtain c k1 s1 where c: "repl_commit (h_sink hs, s) = (c, (k1, s1))"
        by (metis prod.exhaust)
      show thesis
      proof (cases c)
        case (Inl x)
        show thesis
          by (rule failed [of result err w' hs x k1 "Error x"])
             (use assms rd None Some c Inl in \<open>auto simp: read_phase_def Let_def hs0_def\<close>)
      next
        case (Inr y)
        show thesis
          by (rule settled [of result w' hs k1])
             (use assms rd None Some c Inr in \<open>auto simp: read_phase_def Let_def hs0_def split: prod.splits\<close>)
      qed
    qed
  qed
qed

definition batch_count :: "Batch list \<Rightarrow> int" where
  "batch_count bs = (\<Sum>b\<leftarrow>bs. int (length (b_Rows b)))"

context runner_env
begin

lemma read_phase_outcome:
  assumes src: "source_reader (src_Read src) off"
    and row: "runs (rw_repo W) (run_ID run) \<noteq> None"
    and cur: "cur = [] \<or> wmark (rw_repo W) (ld_ID load) = Some cur"
    and run: "read_phase R clk load run cur src repl W = (e, invd, repl', W')"
  shows "\<exists>n. run_outcome wmark runs load run n e W W' \<and>
             (e = None \<longrightarrow> n = batch_count (off (load_config load cur) (rw_sess W)))"
  using run
proof (cases rule: read_phase_cases)
  case (failed result err w' hs x k msg)
  have "run_outcome wmark runs load run (h_written hs) (Some x) W W'"
    unfolding failed(4) by (rule fail_run_outcome) (use row in auto)
  then show ?thesis
    using failed(2) by auto
next
  case (settled result w' hs k)
  have "h_written hs = batch_count ([] @ off (load_config load cur) (rw_sess W))"
  proof (rule feed_accumulates [where J = "\<lambda>bs x. h_written x = batch_count bs"])
    show "feed (handler (rn_sink R) load (clk 0)) (off (load_config load cur) (rw_sess W))
       \<lparr> h_sink = rw_sink W, h_repl = repl, h_first = True, h_written = 0,
           h_writeTo = (case repl of None \<Rightarrow> run_target load | Some s \<Rightarrow> rp_writeTo s) \<rparr> = (Inr (), hs)"
      by (rule source_reader.read_success [OF src settled(1)])
  qed (simp_all add: batch_count_def handler_written)
  moreover have "run_outcome wmark runs load run (h_written hs) e W W'"
    using settle_outcome [OF _ _ settled(3)] row cur by (simp add: run_outcome_def)
  ultimately show ?thesis
    by auto
qed

lemma read_phase_append:
  assumes mode: "ld_Mode load \<noteq> LoadModeReplace" and src: "source_reader (src_Read src) off"
    and row: "runs (rw_repo W) (run_ID run) \<noteq> None"
    and run: "read_phase R clk load run cur src None W = (e, invd, repl', W')"
  shows "\<exists>n. rows_in (tables (rw_sink W')) (run_target load) =
               rows_in (tables (rw_sink W)) (run_target load) @
               rows_of batch_rows (clk 0) (take n (off (load_config load cur) (rw_sess W))) \<and>
             (e = None \<or> wmark (rw_repo W') \<noteq> wmark (rw_repo W) \<longrightarrow> n = length (off (load_config load cur) (rw_sess W))) \<and>
             (\<forall>u. u \<noteq> run_target load \<longrightarrow> tables (rw_sink W') u = tables (rw_sink W) u)"
proof -
  let ?t = "run_target load" and ?off = "off (load_config load cur) (rw_sess W)"
  define hs0 where "hs0 = \<lparr> h_sink = rw_sink W, h_repl = None, h_first = True, h_written = 0, h_writeTo = ?t \<rparr>"
  have fed: "\<exists>n. app_acc tables ?t (tables (rw_sink W)) batch_rows (clk 0) (take n ?off) hs \<and> (err = None \<longrightarrow> n = length ?off)"
    if rd: "src_Read src (load_config load cur) (handler (rn_sink R) load (clk 0)) (rw_sess W) hs0 = ((result, err), w', hs)"
    for result err w' hs
  proof -
    define J where "J = app_acc tables ?t (tables (rw_sink W)) batch_rows (clk 0)"
    obtain r where r: "feed (handler (rn_sink R) load (clk 0)) ?off hs0 = (r, hs)" "\<forall>x. r = Inl x \<longrightarrow> err = Some x"
      using source_reader.feeds [OF src rd] by blast
    have step: "J (case r of Inl _ \<Rightarrow> bs | Inr _ \<Rightarrow> bs @ [b]) x'"
      if "J bs x" "handler (rn_sink R) load (clk 0) b x = (r, x')" for bs b x r x'
      using handler_append [OF mode _ refl that(2)] that(1) by (simp add: J_def)
    have "\<exists>n. J ([] @ take n ?off) hs \<and> (r = Inr () \<longrightarrow> n = length ?off)" (is "\<exists>n. ?P n")
    proof (rule feed_prefix [OF r(1)])
      show "J [] hs0" by (simp add: J_def hs0_def app_acc_def)
    qed (use step in \<open>force+\<close>)
    then obtain n where "?P n" ..
    then show ?thesis
      using r(2) by (intro exI [of _ n], cases r) (auto simp: J_def)
  qed
  show ?thesis
    using run
  proof (cases rule: read_phase_cases)
    case (failed result err w' hs x k msg)
    obtain n where n: "app_acc tables ?t (tables (rw_sink W)) batch_rows (clk 0) (take n ?off) hs"
      using fed failed(1) by (auto simp: hs0_def)
    have "wmark (rw_repo W') = wmark (rw_repo W)"
      unfolding failed(4) using sto.finish_wmark [OF surjective_pairing, of "rw_repo W" run] row
      by (simp add: fail_run_def Let_def)
    then show ?thesis
      using failed n by (intro exI [of _ n]) (auto simp: app_acc_def)
  next
    case (settled result w' hs k)
    have n: "app_acc tables ?t (tables (rw_sink W)) batch_rows (clk 0) (take (length ?off) ?off) hs"
      using fed [of result None w' hs] settled(1) by (auto simp: hs0_def)
    moreover have "rw_sink W' = h_sink hs"
      using settle_sink [OF settled(3)] settled(2) n by (auto simp: app_acc_def)
    ultimately show ?thesis
      by (intro exI [of _ "length ?off"]) (auto simp: app_acc_def)
  qed
qed

end

section \<open>Whole runs\<close>

text \<open>
  The batches a run of a load is offered: the source of the resolved parameters is asked for the load
  with the stored watermark, in the state the session manager has after \<^verbatim>\<open>Obtain\<close>.
\<close>

definition stored_value :: "('r \<Rightarrow> int \<rightharpoonup> string) \<Rightarrow> meta_Load \<Rightarrow> ('r, 'k, 's) rworld \<Rightarrow> string" where
  "stored_value wmark load W = (case wmark (rw_repo W) (ld_ID load) of None \<Rightarrow> [] | Some v \<Rightarrow> v)"

definition run_batches :: "('r, 'k, 's) Runner \<Rightarrow> (SourceConfig \<Rightarrow> LoadConfig \<Rightarrow> 's \<Rightarrow> Batch list) \<Rightarrow>
    ('r \<Rightarrow> int \<rightharpoonup> string) \<Rightarrow> meta_Load \<Rightarrow> ('r, 'k, 's) rworld \<Rightarrow> Batch list" where
  "run_batches R offers wmark load0 W =
     (let load = force_append load0 in
      case ResolveParams (rn_getenv R) (ms_ParamsJSON (ld_Source load)) of
        Inl _ \<Rightarrow> []
      | Inr params \<Rightarrow>
          let cfg = source_config R load params in
          offers cfg (load_config load (stored_value wmark load W)) (snd (ss_Obtain (rn_sessions R) cfg (rw_sess W))))"

lemma force_append_simps [simp]:
  "ld_ID (force_append load) = ld_ID load" "run_target (force_append load) = run_target load"
  "ld_Source (force_append load) = ld_Source load"
  by (simp_all add: force_append_def run_target_def)

lemma force_append_mode:
  "ld_Mode (force_append load) = (if telemetry_kind (ms_Kind (ld_Source load)) then LoadModeAppend else ld_Mode load)"
  by (simp add: force_append_def)

context runner_env
begin

lemma started_phase_outcome:
  assumes src: "source_reader (src_Read src) off"
    and row: "runs (rw_repo W) (run_ID run) \<noteq> None"
    and cur: "cur = [] \<or> wmark (rw_repo W) (ld_ID load) = Some cur"
    and run: "started_phase R clk load run cur src W = (e, invd, W')"
  shows "\<exists>n. run_outcome wmark runs load run n e W W' \<and>
             (e = None \<longrightarrow> n = batch_count (off (load_config load cur) (rw_sess W)))"
proof (cases "ld_Mode load = LoadModeReplace")
  case True
  obtain q k1 s1 where p: "prepareExisting (rn_sink R) (rw_sink W, newReplaceSession (rn_sink R) (run_target load)) = (q, (k1, s1))"
    by (metis prod.exhaust)
  show ?thesis
  proof (cases q)
    case (Inl x)
    then have "e = Some x" "W' = fail_run R clk load run cur 0 0 (Error x) False (W\<lparr> rw_sink := k1 \<rparr>)"
      using run True p by (auto simp: started_phase_def)
    then show ?thesis
      using fail_run_outcome [of "W\<lparr> rw_sink := k1 \<rparr>" run W] row by (intro exI [of _ 0]) simp
  next
    case (Inr x)
    obtain e1 invd1 repl W1 where rp: "read_phase R clk load run cur src (Some s1) (W\<lparr> rw_sink := k1 \<rparr>) = (e1, invd1, repl, W1)"
      by (metis prod.exhaust)
    have "e = e1" "rw_repo W' = rw_repo W1" "rw_reg W' = rw_reg W1"
      using run True p rp Inr by (auto simp: started_phase_def split: option.splits)
    then show ?thesis
      using read_phase_outcome [OF src _ _ rp] row cur by (simp add: run_outcome_def)
  qed
next
  case False
  obtain repl where rp: "read_phase R clk load run cur src None W = (e, invd, repl, W')"
    using run False by (auto simp: started_phase_def split: prod.splits)
  show ?thesis
    by (rule read_phase_outcome [OF src row cur rp])
qed

text \<open>A run returns before it is started, and then only the session was touched, or it is started.\<close>

lemma Execute_cases [consumes 2, case_names early started]:
  assumes "Execute R clk load0 W = (e, W')" and sok: "ok (rw_sess W)"
  obtains x where "e = Some x" "rw_sink W' = rw_sink W" "rw_reg W' = rw_reg W" "rw_met W' = rw_met W"
      "wmark (rw_repo W') = wmark (rw_repo W)" "runs (rw_repo W') = runs (rw_repo W)"
  | src release s1 run r2 invd W1 off where
      "started_phase R clk (force_append load0) run (stored_value wmark load0 W) src
         (W\<lparr> rw_sess := s1, rw_repo := r2,
             rw_reg := MarkRunning (rw_reg W) (ld_ID load0) (run_RunUUID run) (run_StartedAt run) \<rparr>) = (e, invd, W1)"
      "W' = W1\<lparr> rw_sess := release invd (rw_sess W1) \<rparr>" "source_reader (src_Read src) off"
      "off (load_config (force_append load0) (stored_value wmark load0 W)) s1 = run_batches R offers wmark load0 W"
      "wmark r2 = wmark (rw_repo W)" "runs r2 = (runs (rw_repo W))(run_ID run \<mapsto> run)"
      "runs (rw_repo W) (run_ID run) = None" "run_LoadID run = ld_ID load0" "run_Status run = ''running''"
proof (cases "ResolveParams (rn_getenv R) (ms_ParamsJSON (ld_Source load0))")
  case (Inl x)
  then show thesis
    using assms(1) that(1) by (auto simp: Execute_def Let_def)
next
  case (Inr params)
  let ?load = "force_append load0"
  obtain ores s1 where ob: "ss_Obtain (rn_sessions R) (source_config R ?load params) (rw_sess W) = (ores, s1)" by fastforce
  show thesis
  proof (cases ores)
    case (Inl x)
    then show thesis
      using assms(1) that(1) Inr ob by (auto simp: Execute_def Let_def)
  next
    case oI: (Inr ow)
    obtain src release where ow: "ow = (src, release)" by fastforce
    obtain invd W1 where rp: "run_phase R clk ?load src (W\<lparr> rw_sess := s1 \<rparr>) = (e, invd, W1)"
      and W': "W' = W1\<lparr> rw_sess := release invd (rw_sess W1) \<rparr>"
      using assms(1) Inr ob oI ow by (auto simp: Execute_def Let_def split: prod.splits)
    obtain g r1 where g: "rs_GetWatermark (rn_repo R) (ld_ID load0) (rw_repo W) = (g, r1)" by fastforce
    note gv = sto.get_view [OF g]
    show thesis
    proof (cases g)
      case (Inl x)
      then have "e = Some x" "W1 = W\<lparr> rw_sess := s1, rw_repo := r1 \<rparr>"
        using rp g by (auto simp: run_phase_def)
      then show thesis
        using that(1) W' gv by auto
    next
      case gI: (Inr wo)
      have cur: "(case wo of None \<Rightarrow> [] | Some w \<Rightarrow> mw_Value w) = stored_value wmark load0 W"
        using sto.get_ok [OF g [unfolded gI]] by (auto simp: stored_value_def split: option.splits)
      obtain q r2 where q: "rs_StartRun (rn_repo R) (ld_ID load0) (stored_value wmark load0 W) r1 = (q, r2)" by fastforce
      show thesis
      proof (cases q)
        case (Inl x)
        then have "e = Some x" "W1 = W\<lparr> rw_sess := s1, rw_repo := r2 \<rparr>"
          using rp g gI cur q by (auto simp: run_phase_def Let_def)
        then show thesis
          using that(1) W' gv sto.start_err [OF q [unfolded Inl]] by auto
      next
        case qI: (Inr run)
        note st = sto.start_ok [OF q [unfolded qI]]
        obtain off where off: "source_reader (src_Read src) off"
          "\<forall>L. off L s1 = offers (source_config R ?load params) L s1"
          using ses.obtained [OF sok] ob oI ow by blast
        show thesis
        proof (rule that(2))
          show "started_phase R clk ?load run (stored_value wmark load0 W) src
             (W\<lparr> rw_sess := s1, rw_repo := r2,
                 rw_reg := MarkRunning (rw_reg W) (ld_ID load0) (run_RunUUID run) (run_StartedAt run) \<rparr>) = (e, invd, W1)"
            using rp g gI cur q qI by (simp add: run_phase_def Let_def)
          show "source_reader (src_Read src) off"
            by (rule off(1))
          show "off (load_config ?load (stored_value wmark load0 W)) s1 = run_batches R offers wmark load0 W"
            using Inr ob off(2) by (simp add: run_batches_def Let_def stored_value_def)
        qed (use W' gv st in auto)
      qed
    qed
  qed
qed

end

context runner_env
begin

lemma Execute_replace:
  assumes sok: "ok (rw_sess W)" and "ld_Mode load = LoadModeReplace" and "\<not> telemetry_kind (ms_Kind (ld_Source load))"
    and sw: "swappable (run_target load)" and run: "Execute R clk load W = (e, W')"
  shows "let t = run_target load; bs = run_batches R offers wmark load W; T0 = tables (rw_sink W); T = tables (rw_sink W') in
      (T t = T0 t \<or> T t = Some (rows_of batch_rows (clk 0) bs)) \<and>
      (e = None \<longrightarrow> T t = Some (rows_of batch_rows (clk 0) bs) \<or> T0 t = None \<and> bs = [] \<and> T t = None) \<and>
      (\<forall>u. u \<notin> {t, stage t, aside t} \<longrightarrow> T u = T0 u)"
  using run sok
proof (cases rule: Execute_cases)
  case early
  then show ?thesis
    by (auto simp: Let_def)
next
  case (started src release s1 run r2 invd W1 off)
  have "ld_Mode (force_append load) = LoadModeReplace"
    using assms(2,3) by (simp add: force_append_mode)
  from started_phase_replace [OF this _ started(3,1)] sw started(2,4) show ?thesis
    by (simp add: Let_def)
qed

lemma Execute_append:
  assumes sok: "ok (rw_sess W)" and mode: "ld_Mode (force_append load) \<noteq> LoadModeReplace" and run: "Execute R clk load W = (e, W')"
  shows "\<exists>n. rows_in (tables (rw_sink W')) (run_target load) =
               rows_in (tables (rw_sink W)) (run_target load) @
               rows_of batch_rows (clk 0) (take n (run_batches R offers wmark load W)) \<and>
             (e = None \<or> wmark (rw_repo W') \<noteq> wmark (rw_repo W) \<longrightarrow> n = length (run_batches R offers wmark load W)) \<and>
             (\<forall>u. u \<noteq> run_target load \<longrightarrow> tables (rw_sink W') u = tables (rw_sink W) u)"
  using run sok
proof (cases rule: Execute_cases)
  case early
  then show ?thesis
    by (intro exI [of _ 0]) auto
next
  case (started src release s1 run r2 invd W1 off)
  obtain repl where rp: "read_phase R clk (force_append load) run (stored_value wmark load W) src None
      (W\<lparr> rw_sess := s1, rw_repo := r2,
          rw_reg := MarkRunning (rw_reg W) (ld_ID load) (run_RunUUID run) (run_StartedAt run) \<rparr>) = (e, invd, repl, W1)"
    using started(1) mode by (auto simp: started_phase_def split: prod.splits)
  from read_phase_append [OF mode started(3) _ rp] started(2,4-6) show ?thesis
    by simp
qed

lemma Execute_outcome:
  assumes sok: "ok (rw_sess W)" and run: "Execute R clk load W = (e, W')"
  shows "rw_reg W' = rw_reg W \<and> runs (rw_repo W') = runs (rw_repo W) \<and> wmark (rw_repo W') = wmark (rw_repo W) \<and> e \<noteq> None \<or>
    (\<exists>run n W0. runs (rw_repo W) (run_ID run) = None \<and> run_LoadID run = ld_ID load \<and> run_Status run = ''running'' \<and>
       rw_reg W0 = MarkRunning (rw_reg W) (ld_ID load) (run_RunUUID run) (run_StartedAt run) \<and>
       runs (rw_repo W0) = (runs (rw_repo W))(run_ID run \<mapsto> run) \<and> wmark (rw_repo W0) = wmark (rw_repo W) \<and>
       run_outcome wmark runs (force_append load) run n e W0 W' \<and>
       (e = None \<longrightarrow> n = batch_count (run_batches R offers wmark load W)))"
  using run sok
proof (cases rule: Execute_cases)
  case early
  then show ?thesis by auto
next
  case (started src release s1 run r2 invd W1 off)
  let ?W0 = "W\<lparr> rw_sess := s1, rw_repo := r2,
          rw_reg := MarkRunning (rw_reg W) (ld_ID load) (run_RunUUID run) (run_StartedAt run) \<rparr>"
  have row: "runs (rw_repo ?W0) (run_ID run) \<noteq> None"
    and cur: "stored_value wmark load W = [] \<or>
      wmark (rw_repo ?W0) (ld_ID (force_append load)) = Some (stored_value wmark load W)"
    using started(5,6) by (auto simp: stored_value_def split: option.splits)
  obtain n where n: "run_outcome wmark runs (force_append load) run n e ?W0 W1"
    "e = None \<longrightarrow> n = batch_count (run_batches R offers wmark load W)"
    using started_phase_outcome [OF started(3) row cur started(1)] started(4) by auto
  have "run_outcome wmark runs (force_append load) run n e ?W0 W'"
    using n(1) started(2) by (simp add: run_outcome_def)
  with n(2) started(5-9) show ?thesis
    by (intro disjI2 exI [of _ run] exI [of _ n] exI [of _ ?W0]) simp
qed

end

end
