(* ===== verification/Fakes.thy ===== *)
theory Fakes
  imports ReplaceSession Session RunStore
begin

text \<open>
  \<^verbatim>\<open>internal/testutil/fakes.go\<close>: the test doubles of the ports, with the calls they count. The fields a
  test sets (results and errors) and the counters are one record, as in the code.
\<close>

section \<open>Sources\<close>

record fake_calls =
  fs_OpenCalls :: int
  fs_CloseCalls :: int

record 'x FakeSource =
  fs_KindName :: string
  fs_OpenErr :: "gerr option"
  fs_PingErr :: "gerr option"
  fs_CloseErr :: "gerr option"
  fs_ReadFn :: "(fake_calls, 'x) ReadFn option"

definition err_res :: "gerr option \<Rightarrow> unit res" where
  "err_res e = (case e of None \<Rightarrow> Inr () | Some x \<Rightarrow> Inl x)"

definition FakeSource_Open :: "'x FakeSource \<Rightarrow> (fake_calls, unit) act" where
  "FakeSource_Open f c = (err_res (fs_OpenErr f), c\<lparr> fs_OpenCalls := fs_OpenCalls c + 1 \<rparr>)"

definition FakeSource_Close :: "'x FakeSource \<Rightarrow> (fake_calls, unit) act" where
  "FakeSource_Close f c = (err_res (fs_CloseErr f), c\<lparr> fs_CloseCalls := fs_CloseCalls c + 1 \<rparr>)"

definition FakeSource_Read :: "'x FakeSource \<Rightarrow> (fake_calls, 'x) ReadFn" where
  "FakeSource_Read f load h c x =
     (case fs_ReadFn f of Some rd \<Rightarrow> rd load h c x | None \<Rightarrow> ((new_ReadResult zero_time, None), c, x))"

definition fake_source :: "'x FakeSource \<Rightarrow> (fake_calls, 'x) Source" where
  "fake_source f = \<lparr> src_obj = 0, src_Kind = fs_KindName f, src_Open = FakeSource_Open f,
     src_Ping = (\<lambda>c. (err_res (fs_PingErr f), c)), src_Read = FakeSource_Read f, src_Close = FakeSource_Close f \<rparr>"

section \<open>Sinks\<close>

record FakeSink =
  fk_Exists :: bool
  fk_ExistsErr :: "gerr option"
  fk_EnsureErr :: "gerr option"
  fk_TruncateErr :: "gerr option"
  fk_WriteErr :: "gerr option"
  fk_BeginErr :: "gerr option"
  fk_CommitErr :: "gerr option"
  fk_AbortErr :: "gerr option"
  fk_EnsureCalls :: int
  fk_TruncateCalls :: int
  fk_WriteCalls :: int
  fk_BeginCalls :: int
  fk_CommitCalls :: int
  fk_AbortCalls :: int
  fk_RowsWritten :: int
  fk_LastTarget :: TargetTable
  fk_LastWriteTo :: TargetTable
  fk_Truncated :: bool

definition FakeSink_TableExists :: "TargetTable \<Rightarrow> (FakeSink, bool) act" where
  "FakeSink_TableExists t s = ((case fk_ExistsErr s of None \<Rightarrow> Inr (fk_Exists s) | Some e \<Rightarrow> Inl e), s)"

definition FakeSink_EnsureTable :: "TargetTable \<Rightarrow> Column list \<Rightarrow> (FakeSink, unit) act" where
  "FakeSink_EnsureTable target cs s =
     (err_res (fk_EnsureErr s), s\<lparr> fk_EnsureCalls := fk_EnsureCalls s + 1, fk_LastTarget := target, fk_Exists := True \<rparr>)"

definition FakeSink_Truncate :: "TargetTable \<Rightarrow> (FakeSink, unit) act" where
  "FakeSink_Truncate target s =
     (err_res (fk_TruncateErr s),
      s\<lparr> fk_TruncateCalls := fk_TruncateCalls s + 1, fk_LastTarget := target, fk_Truncated := True \<rparr>)"

definition FakeSink_WriteBatch :: "TargetTable \<Rightarrow> Batch \<Rightarrow> gtime \<Rightarrow> (FakeSink, int) act" where
  "FakeSink_WriteBatch target b ts s =
     (let s1 = s\<lparr> fk_WriteCalls := fk_WriteCalls s + 1, fk_LastWriteTo := target \<rparr> in
      case fk_WriteErr s of
        Some e \<Rightarrow> (Inl e, s1)
      | None \<Rightarrow> (Inr (int (length (b_Rows b))), s1\<lparr> fk_RowsWritten := fk_RowsWritten s + int (length (b_Rows b)) \<rparr>))"

definition FakeSink_BeginReplace :: "TargetTable \<Rightarrow> Column list \<Rightarrow> (FakeSink, TargetTable) act" where
  "FakeSink_BeginReplace target cs s =
     (let s1 = s\<lparr> fk_BeginCalls := fk_BeginCalls s + 1 \<rparr> in
      case fk_BeginErr s of
        Some e \<Rightarrow> (Inl e, s1)
      | None \<Rightarrow>
          let stg = \<lparr> tt_Schema = tt_Schema target, tt_Name = tt_Name target @ ''_stg'' \<rparr> in
          (Inr stg, s1\<lparr> fk_LastTarget := stg \<rparr>))"

definition FakeSink_CommitReplace :: "TargetTable \<Rightarrow> TargetTable \<Rightarrow> (FakeSink, unit) act" where
  "FakeSink_CommitReplace target stg s =
     (err_res (fk_CommitErr s), s\<lparr> fk_CommitCalls := fk_CommitCalls s + 1, fk_LastTarget := target, fk_Exists := True \<rparr>)"

definition FakeSink_AbortReplace :: "TargetTable \<Rightarrow> (FakeSink, unit) act" where
  "FakeSink_AbortReplace stg s = (err_res (fk_AbortErr s), s\<lparr> fk_AbortCalls := fk_AbortCalls s + 1 \<rparr>)"

definition fake_sink :: "FakeSink Sink" where
  "fake_sink = \<lparr> sk_TableExists = FakeSink_TableExists, sk_EnsureTable = FakeSink_EnsureTable,
     sk_Truncate = FakeSink_Truncate, sk_WriteBatch = FakeSink_WriteBatch,
     sk_Atomic = Some \<lparr> ar_BeginReplace = FakeSink_BeginReplace, ar_CommitReplace = FakeSink_CommitReplace,
                        ar_AbortReplace = FakeSink_AbortReplace \<rparr> \<rparr>"

text \<open>A sink that is no \<^verbatim>\<open>AtomicReplacer\<close>.\<close>

record TruncateOnlySink =
  to_Exists :: bool
  to_TruncateCalls :: int
  to_EnsureCalls :: int
  to_WriteCalls :: int

definition truncate_only_sink :: "TruncateOnlySink Sink" where
  "truncate_only_sink =
     \<lparr> sk_TableExists = (\<lambda>t s. (Inr (to_Exists s), s)),
       sk_EnsureTable = (\<lambda>t cs s. (Inr (), s\<lparr> to_EnsureCalls := to_EnsureCalls s + 1, to_Exists := True \<rparr>)),
       sk_Truncate = (\<lambda>t s. (Inr (), s\<lparr> to_TruncateCalls := to_TruncateCalls s + 1 \<rparr>)),
       sk_WriteBatch = (\<lambda>t b ts s. (Inr (int (length (b_Rows b))), s\<lparr> to_WriteCalls := to_WriteCalls s + 1 \<rparr>)),
       sk_Atomic = None \<rparr>"

section \<open>The run store\<close>

text \<open>
  The runs are shared by pointer: \<^verbatim>\<open>FinishRun\<close> changes the run it is given, which is the one in the list.
  \<open>now\<close> is the time of the call.
\<close>

record FakeRunStore =
  fr_Watermark :: "meta_Watermark option"
  fr_GetWMErr :: "gerr option"
  fr_UpsertErr :: "gerr option"
  fr_StartErr :: "gerr option"
  fr_FinishErr :: "gerr option"
  fr_Runs :: "LoadRun list"
  fr_FinishedStatus :: "string list"
  fr_UpsertCalls :: int
  fr_UpsertValues :: "string list"

definition FakeRunStore_GetWatermark :: "int \<Rightarrow> (FakeRunStore, meta_Watermark option) act" where
  "FakeRunStore_GetWatermark loadID s =
     ((case fr_GetWMErr s of None \<Rightarrow> Inr (fr_Watermark s) | Some e \<Rightarrow> Inl e), s)"

definition FakeRunStore_UpsertWatermark :: "int \<Rightarrow> string \<Rightarrow> (FakeRunStore, unit) act" where
  "FakeRunStore_UpsertWatermark loadID newValue s =
     (let s1 = s\<lparr> fr_UpsertCalls := fr_UpsertCalls s + 1, fr_UpsertValues := fr_UpsertValues s @ [newValue] \<rparr> in
      case fr_UpsertErr s of
        Some e \<Rightarrow> (Inl e, s1)
      | None \<Rightarrow> (Inr (), s1\<lparr> fr_Watermark := Some (zero_Watermark\<lparr> mw_Value := newValue \<rparr>) \<rparr>))"

definition FakeRunStore_StartRun :: "gtime \<Rightarrow> int \<Rightarrow> string \<Rightarrow> (FakeRunStore, LoadRun) act" where
  "FakeRunStore_StartRun now loadID watermarkStart s =
     (case fr_StartErr s of
        Some e \<Rightarrow> (Inl e, s)
      | None \<Rightarrow>
          let n = int (length (fr_Runs s)) + 1;
              run = zero_LoadRun\<lparr> run_ID := n, run_RunUUID := ''run-'' @ itoa n, run_LoadID := loadID,
                      run_Status := ''running'', run_StartedAt := now, run_WatermarkStart := watermarkStart \<rparr> in
          (Inr run, s\<lparr> fr_Runs := fr_Runs s @ [run] \<rparr>))"

definition FakeRunStore_FinishRun :: "gtime \<Rightarrow> LoadRun \<Rightarrow> string \<Rightarrow> int \<Rightarrow> int \<Rightarrow> string \<Rightarrow> string \<Rightarrow> (FakeRunStore, unit) act" where
  "FakeRunStore_FinishRun now run status rowsRead rowsWritten watermarkEnd errMsg s =
     (let run' = run\<lparr> run_Status := status, run_RowsRead := rowsRead, run_RowsWritten := rowsWritten,
                      run_WatermarkEnd := watermarkEnd, run_ErrorMessage := errMsg, run_FinishedAt := Some now \<rparr> in
      (err_res (fr_FinishErr s),
       s\<lparr> fr_FinishedStatus := fr_FinishedStatus s @ [status],
          fr_Runs := map (\<lambda>r. if run_ID r = run_ID run then run' else r) (fr_Runs s) \<rparr>))"

definition fake_store :: "gtime \<Rightarrow> FakeRunStore RunStore" where
  "fake_store now = \<lparr> rs_GetWatermark = FakeRunStore_GetWatermark, rs_UpsertWatermark = FakeRunStore_UpsertWatermark,
     rs_StartRun = FakeRunStore_StartRun now, rs_FinishRun = FakeRunStore_FinishRun now \<rparr>"

end
