(* ===== verification/Runs.thy ===== *)
theory Runs
  imports Runner Sink Repository Fakes
begin

text \<open>
  Runs with the parts the service wires together (\<^verbatim>\<open>cmd/loader/main.go\<close>): the SQL Server sink, the metadata
  repository and a session manager. The hypotheses are the contracts of the code outside the
  repository: the server the sink writes to, the metadata database, and the source drivers.
\<close>

definition wired :: "unicode_tabs \<Rightarrow> 'd sql_db \<Rightarrow> 'g gorm_db \<Rightarrow> TelemetryCatalog option \<Rightarrow>
    ('s, 'd hstate) SourceSession \<Rightarrow> (string \<Rightarrow> string) \<Rightarrow> ('g, 'd, 's) Runner" where
  "wired U D G tel SS env =
     \<lparr> rn_repo = repo_RunStore G, rn_telemetry = tel, rn_sink = MSSQLSink U D, rn_sessions = SS, rn_getenv = env \<rparr>"

context mssql_target
begin

lemma sink_contract: "atomic_sink (MSSQLSink U D) (mssql_replacer U D) committed (stored_rows D) stage_of aside_of dotless"
  by unfold_locales

end

context gorm_store
begin

lemma store_contract: "run_store (repo_RunStore G) (\<lambda>g. stored_wmark (view g)) (\<lambda>g. stored_runs (view g))"
  by unfold_locales

end

lemma wired_env:
  assumes "mssql_server D committed intx bulk" and "gorm_store G view" and "source_session SS ok offers"
  shows "runner_env (wired U D G tel SS env) (mssql_replacer U D) committed (stored_rows D) stage_of aside_of dotless
           (\<lambda>g. stored_wmark (view g)) (\<lambda>g. stored_runs (view g)) ok offers"
proof -
  have "mssql_target D committed intx bulk"
    using assms(1) by (simp add: mssql_target_def)
  then have "atomic_sink (MSSQLSink U D) (mssql_replacer U D) committed (stored_rows D) stage_of aside_of dotless"
    by (rule mssql_target.sink_contract)
  moreover have "run_store (repo_RunStore G) (\<lambda>g. stored_wmark (view g)) (\<lambda>g. stored_runs (view g))"
    using assms(2) by (rule gorm_store.store_contract)
  ultimately show ?thesis
    using assms(3) by (simp add: runner_env_def wired_def)
qed

section \<open>A concrete service\<close>

text \<open>
  The in-memory server and store, and a session manager whose sources offer a fixed list of batches and
  report a fixed new watermark.
\<close>

definition demo_read :: "Batch list \<Rightarrow> string \<Rightarrow> (fake_calls, 'x) ReadFn" where
  "demo_read bs v load h c x =
     (case feed h bs x of (r, x') \<Rightarrow>
       ((\<lparr> rr_RowsRead = batch_count bs, rr_NewWatermark = \<lparr> wm_Type = lc_WatermarkType load, wm_Value = v \<rparr>,
            rr_WatermarkInit = False, rr_StartedAt = 0, rr_FinishedAt = 0 \<rparr>,
         case r of Inl e \<Rightarrow> Some e | Inr _ \<Rightarrow> None), c, x'))"

definition demo_session :: "Batch list \<Rightarrow> string \<Rightarrow> (fake_calls, 'x) SourceSession" where
  "demo_session bs v = NewEphemeral (Some (\<lambda>cfg. retA (fake_source
     \<lparr> fs_KindName = sc_SourceType cfg, fs_OpenErr = None, fs_PingErr = None, fs_CloseErr = None,
       fs_ReadFn = Some (demo_read bs v) \<rparr>)))"

interpretation demo_sess: source_session "demo_session bs v" "\<lambda>_. True" "\<lambda>cfg load c. bs" for bs v
  unfolding demo_session_def
  by (rule Ephemeral_session)
     (auto simp: builds_readers_def retA_def fake_source_def FakeSource_Read_def demo_read_def
       intro!: exI [of _ "\<lambda>_ _. bs"] source_reader.intro split: prod.splits sum.splits)

definition demo_runner :: "Batch list \<Rightarrow> string \<Rightarrow> (memgorm, memdb, fake_calls) Runner" where
  "demo_runner bs v = wired ascii_tabs MemDB MemGorm None (demo_session bs v) (\<lambda>_. [])"

interpretation demo_env: runner_env "demo_runner bs v" "mssql_replacer ascii_tabs MemDB" md_tables "stored_rows MemDB"
    stage_of aside_of dotless "\<lambda>g. stored_wmark (mg_db g)" "\<lambda>g. stored_runs (mg_db g)" "\<lambda>_. True" "\<lambda>cfg load c. bs" for bs v
  unfolding demo_runner_def
  by (rule wired_env [OF memdb.mssql_server_axioms memg.gorm_store_axioms demo_sess.source_session_axioms])

definition demo_job :: "string \<Rightarrow> meta_Load" where
  "demo_job mode = demo_load\<lparr> ld_Mode := mode, ld_Source := demo_source \<rparr>"

definition demo_world :: "(memgorm, memdb, fake_calls) rworld" where
  "demo_world = \<lparr> rw_repo = demo_meta, rw_sink = demo_db, rw_sess = \<lparr> fs_OpenCalls = 0, fs_CloseCalls = 0 \<rparr>,
     rw_reg = Register (runstate_New 0) (demo_state\<lparr> ls_LoadID := 7 \<rparr>), rw_met = [] \<rparr>"

definition demo_clk :: "nat \<Rightarrow> gtime" where
  "demo_clk k = 1000 + int k"

lemma demo_batches [simp]:
  "run_batches (wired ascii_tabs MemDB MemGorm None (demo_session bs v) (\<lambda>_. [])) (\<lambda>cfg load c. bs) wm (demo_job m) W = bs"
proof -
  have "ResolveParams (\<lambda>_. []) ''{}'' = Inr []"
    by code_simp
  then show ?thesis
    by (simp add: run_batches_def wired_def demo_job_def demo_source_def Let_def)
qed

lemma demo_job_simps [simp]:
  "ld_Mode (demo_job m) = m" "ld_ID (demo_job m) = 7" "run_target (demo_job m) = demo_target"
  "\<not> telemetry_kind (ms_Kind (ld_Source (demo_job m)))"
  by (simp_all add: demo_job_def demo_load_def demo_source_def run_target_def demo_target_def telemetry_kind_def)

lemma demo_rows:
  "rows_of (stored_rows MemDB) (demo_clk 0) [demo_batch] =
     [[(''id'', VInt I64 7), (''yb_load_timestamp'', VTime 1000)], [(''id'', VInt I64 8), (''yb_load_timestamp'', VTime 1000)]]"
  "dotless demo_target" "demo_target \<noteq> stage_of demo_target"
  "md_tables demo_db demo_target = Some [[(''id'', VInt I64 1)]]"
  by code_simp+

text \<open>A replace run and a delta run of one batch.\<close>

definition demo_replaced :: "gerr option \<times> (memgorm, memdb, fake_calls) rworld" where
  "demo_replaced = Execute (wired ascii_tabs MemDB MemGorm None (demo_session [demo_batch] []) (\<lambda>_. [])) demo_clk
     (demo_job LoadModeReplace) demo_world"

definition demo_delta :: "gerr option \<times> (memgorm, memdb, fake_calls) rworld" where
  "demo_delta = Execute (wired ascii_tabs MemDB MemGorm None (demo_session [demo_batch] ''8'') (\<lambda>_. [])) demo_clk
     (demo_job LoadModeDelta) demo_world"

lemma demo_replaced_ok: "fst demo_replaced = None"
  by code_simp

lemma demo_delta_ok: "case demo_delta of (e, W) \<Rightarrow> e = None \<and> stored_wmark (mg_db (rw_repo W)) 7 = Some ''8''"
  by code_simp

lemma demo_delta_None: "fst demo_delta = None" "stored_wmark (mg_db (rw_repo (snd demo_delta))) 7 = Some ''8''"
  using demo_delta_ok by (auto simp: split_beta)

lemma demo_session_reads: "source_session (demo_session bs v) (\<lambda>_. True) (\<lambda>cfg load c. bs)"
  by (rule demo_sess.source_session_axioms)

lemmas demo_contracts = memdb.mssql_server_axioms memg.gorm_store_axioms

section \<open>Properties\<close>

text \<open>
  (C1) A replace run is all or nothing. Whatever fails, and wherever, the target is afterwards what it was,
  or it holds exactly the rows of every batch the source offered, with the load timestamp. When the run
  returns no error the second holds, except that no table is created when there was none and the
  source offered nothing. No table but the target, its staging table and the table set aside changes.
\<close>

theorem Execute_replace_atomic:
  assumes "mssql_server D committed intx bulk" and "gorm_store G view" and "source_session SS ok offers"
    and "ok (rw_sess W)"
    and "ld_Mode load = LoadModeReplace" and "\<not> telemetry_kind (ms_Kind (ld_Source load))"
    and "dotless (run_target load)"
    and "Execute (wired U D G tel SS env) clk load W = (e, W')"
  shows "let t = run_target load; T0 = committed (rw_sink W); T = committed (rw_sink W');
             bs = run_batches (wired U D G tel SS env) offers (\<lambda>g. stored_wmark (view g)) load W in
      (T t = T0 t \<or> T t = Some (rows_of (stored_rows D) (clk 0) bs)) \<and>
      (e = None \<longrightarrow> T t = Some (rows_of (stored_rows D) (clk 0) bs) \<or> T0 t = None \<and> bs = [] \<and> T t = None) \<and>
      (\<forall>u. u \<notin> {t, stage_of t, aside_of t} \<longrightarrow> T u = T0 u)"
  using runner_env.Execute_replace [OF wired_env [OF assms(1-3)] assms(4-8)] by (simp add: Let_def)

theorem Execute_replace_atomic_witness:
  "md_tables (rw_sink (snd demo_replaced)) demo_target =
     Some [[(''id'', VInt I64 7), (''yb_load_timestamp'', VTime 1000)], [(''id'', VInt I64 8), (''yb_load_timestamp'', VTime 1000)]]"
  using Execute_replace_atomic [OF demo_contracts demo_session_reads [of "[demo_batch]" "[]"], where U = ascii_tabs and tel = None
      and env = "\<lambda>_. []" and clk = demo_clk and load = "demo_job LoadModeReplace" and W = demo_world,
      folded demo_replaced_def, OF TrueI _ _ _ surjective_pairing]
  by (simp add: Let_def demo_rows demo_replaced_ok)

text \<open>
  (C2) An append or delta run, and every run of a Modbus or OPC UA load, adds to the target the rows of the
  first batches the source offered, in order and without gaps, and changes no other table. A run that
  returns no error has added all of them.
\<close>

theorem Execute_append_prefix:
  assumes "mssql_server D committed intx bulk" and "gorm_store G view" and "source_session SS ok offers"
    and "ok (rw_sess W)"
    and "ld_Mode load \<noteq> LoadModeReplace \<or> telemetry_kind (ms_Kind (ld_Source load))"
    and "Execute (wired U D G tel SS env) clk load W = (e, W')"
  shows "let t = run_target load; bs = run_batches (wired U D G tel SS env) offers (\<lambda>g. stored_wmark (view g)) load W in
      \<exists>n. rows_in (committed (rw_sink W')) t =
            rows_in (committed (rw_sink W)) t @ rows_of (stored_rows D) (clk 0) (take n bs) \<and>
          (e = None \<longrightarrow> n = length bs) \<and>
          (\<forall>u. u \<noteq> t \<longrightarrow> committed (rw_sink W') u = committed (rw_sink W) u)"
proof -
  have "ld_Mode (force_append load) \<noteq> LoadModeReplace"
    using assms(5) by (auto simp: force_append_mode LoadModeAppend_def LoadModeReplace_def)
  from runner_env.Execute_append [OF wired_env [OF assms(1-3)] assms(4) this assms(6)] show ?thesis
    by (auto simp: Let_def)
qed

theorem Execute_append_prefix_witness:
  "rows_in (md_tables (rw_sink (snd demo_delta))) demo_target =
     [[(''id'', VInt I64 1)], [(''id'', VInt I64 7), (''yb_load_timestamp'', VTime 1000)],
      [(''id'', VInt I64 8), (''yb_load_timestamp'', VTime 1000)]]"
  using Execute_append_prefix [OF demo_contracts demo_session_reads [of "[demo_batch]" "''8''"], where U = ascii_tabs and tel = None
      and env = "\<lambda>_. []" and clk = demo_clk and load = "demo_job LoadModeDelta" and W = demo_world,
      folded demo_delta_def, OF TrueI _ surjective_pairing]
  by (auto simp: Let_def demo_rows demo_delta_None demo_world_def rows_in_def LoadModeDelta_def LoadModeReplace_def)

text \<open>
  (C3) A watermark moves only past data that is in the target. A run changes the stored watermark of no
  other load; it changes its own only in delta mode, never for a Modbus or OPC UA load, and then every
  batch the source offered has been written.
\<close>

theorem Execute_watermark:
  assumes "mssql_server D committed intx bulk" and "gorm_store G view" and "source_session SS ok offers"
    and "ok (rw_sess W)"
    and "Execute (wired U D G tel SS env) clk load W = (e, W')"
    and "stored_wmark (view (rw_repo W')) \<noteq> stored_wmark (view (rw_repo W))"
  shows "ld_Mode load = LoadModeDelta \<and> \<not> telemetry_kind (ms_Kind (ld_Source load)) \<and>
    (\<exists>v. v \<noteq> [] \<and> stored_wmark (view (rw_repo W')) = (stored_wmark (view (rw_repo W)))(ld_ID load \<mapsto> v)) \<and>
    (let t = run_target load; bs = run_batches (wired U D G tel SS env) offers (\<lambda>g. stored_wmark (view g)) load W in
     rows_in (committed (rw_sink W')) t = rows_in (committed (rw_sink W)) t @ rows_of (stored_rows D) (clk 0) bs)"
proof -
  note env = wired_env [OF assms(1-3), of U tel env]
  have o: "ld_Mode (force_append load) = LoadModeDelta \<and>
      (\<exists>v. v \<noteq> [] \<and> stored_wmark (view (rw_repo W')) = (stored_wmark (view (rw_repo W)))(ld_ID load \<mapsto> v))"
    using runner_env.Execute_outcome [OF env assms(4,5)] assms(6) by (auto simp: run_outcome_def)
  then have mode: "ld_Mode load = LoadModeDelta" "\<not> telemetry_kind (ms_Kind (ld_Source load))"
    by (auto simp: force_append_mode LoadModeAppend_def LoadModeDelta_def split: if_splits)
  have "ld_Mode (force_append load) \<noteq> LoadModeReplace"
    using o by (simp add: LoadModeDelta_def LoadModeReplace_def)
  from runner_env.Execute_append [OF env assms(4) this assms(5)] assms(6) o mode show ?thesis
    by (auto simp: Let_def)
qed

theorem Execute_watermark_witness:
  "rows_in (md_tables (rw_sink (snd demo_delta))) demo_target =
     rows_in (md_tables demo_db) demo_target @ rows_of (stored_rows MemDB) (demo_clk 0) [demo_batch]"
proof -
  have "stored_wmark (mg_db (rw_repo demo_world)) 7 = None"
    by (simp add: demo_world_def demo_meta_def stored_wmark_def)
  then have "stored_wmark (mg_db (rw_repo (snd demo_delta))) \<noteq> stored_wmark (mg_db (rw_repo demo_world))"
    using demo_delta_None(2) by auto
  from Execute_watermark [OF demo_contracts demo_session_reads [of "[demo_batch]" "''8''"], where U = ascii_tabs and tel = None
      and env = "\<lambda>_. []" and clk = demo_clk and load = "demo_job LoadModeDelta" and W = demo_world,
      folded demo_delta_def, OF TrueI surjective_pairing] this
  show ?thesis
    by (simp add: Let_def) (simp add: demo_world_def)
qed

text \<open>
  (C4) The record of a run. A run leaves the run table as it was and returns an error, or it adds one row, for
  its load, and changes no other. The row of a run that returned no error is a success with the number
  of rows the source offered, and in delta mode its end watermark is the stored one; otherwise the row
  says failed, or still running if it could not be finished.
\<close>

theorem Execute_run_row:
  assumes "mssql_server D committed intx bulk" and "gorm_store G view" and "source_session SS ok offers"
    and "ok (rw_sess W)"
    and "Execute (wired U D G tel SS env) clk load W = (e, W')"
  shows "let old = stored_runs (view (rw_repo W)); new = stored_runs (view (rw_repo W'));
             bs = run_batches (wired U D G tel SS env) offers (\<lambda>g. stored_wmark (view g)) load W in
      new = old \<and> e \<noteq> None \<or>
      (\<exists>i row. old i = None \<and> new = old(i \<mapsto> row) \<and> run_LoadID row = ld_ID load \<and>
         (if e = None
          then run_Status row = ''success'' \<and> run_FinishedAt row \<noteq> None \<and> run_RowsWritten row = batch_count bs \<and>
               (ld_Mode load = LoadModeDelta \<and> \<not> telemetry_kind (ms_Kind (ld_Source load)) \<and> run_WatermarkEnd row \<noteq> []
                \<longrightarrow> stored_wmark (view (rw_repo W')) (ld_ID load) = Some (run_WatermarkEnd row))
          else run_Status row = ''failed'' \<and> run_FinishedAt row \<noteq> None \<or> run_Status row = ''running''))"
  using runner_env.Execute_outcome [OF wired_env [OF assms(1-3)] assms(4,5)]
proof (elim disjE exE conjE)
  fix run n and W0 :: "('b, 'a, 'c) rworld"
  assume run: "stored_runs (view (rw_repo W)) (run_ID run) = None" "run_LoadID run = ld_ID load" "run_Status run = ''running''"
    "stored_runs (view (rw_repo W0)) = (stored_runs (view (rw_repo W)))(run_ID run \<mapsto> run)"
    and n: "e = None \<longrightarrow> n = batch_count (run_batches (wired U D G tel SS env) offers (\<lambda>g. stored_wmark (view g)) load W)"
    and oc: "run_outcome (\<lambda>g. stored_wmark (view g)) (\<lambda>g. stored_runs (view g)) (force_append load) run n e W0 W'"
  show ?thesis
  proof (cases "stored_runs (view (rw_repo W')) = stored_runs (view (rw_repo W0)) \<and> e \<noteq> None")
    case True
    then show ?thesis
      using run by (auto simp: Let_def intro!: exI [of _ "run_ID run"] exI [of _ run])
  next
    case False
    then obtain row where "stored_runs (view (rw_repo W')) = (stored_runs (view (rw_repo W0)))(run_ID run \<mapsto> row)"
      "run_Status row = run_status e" "run_RowsWritten row = n" "run_FinishedAt row \<noteq> None" "run_LoadID row = run_LoadID run"
      "e = None \<and> ld_Mode (force_append load) = LoadModeDelta \<and> run_WatermarkEnd row \<noteq> [] \<longrightarrow>
        stored_wmark (view (rw_repo W')) (ld_ID (force_append load)) = Some (run_WatermarkEnd row)"
      using oc unfolding run_outcome_def by blast
    then show ?thesis
      unfolding Let_def using run n
      by (intro disjI2 exI [of _ "run_ID run"] exI [of _ row]) (auto simp: run_status_def force_append_mode)
  qed
qed (simp add: Let_def)

theorem Execute_run_row_witness:
  "\<exists>i row. stored_runs (mg_db demo_meta) i = None \<and>
     stored_runs (mg_db (rw_repo (snd demo_delta))) = (stored_runs (mg_db demo_meta))(i \<mapsto> row) \<and>
     run_Status row = ''success'' \<and> run_RowsWritten row = 2"
proof -
  have "batch_count [demo_batch] = 2"
    by code_simp
  with Execute_run_row [OF demo_contracts demo_session_reads [of "[demo_batch]" "''8''"], where U = ascii_tabs and tel = None
      and env = "\<lambda>_. []" and clk = demo_clk and load = "demo_job LoadModeDelta" and W = demo_world,
      folded demo_delta_def, OF TrueI surjective_pairing]
  show ?thesis
    by (auto simp: Let_def demo_delta_None demo_world_def)
qed

text \<open>
  (C16) No load is left marked as running. After a run of a registered load that was not running the load is
  not running; its last status is the outcome of the run if the run was started; the running loads are
  those of before.
\<close>

theorem Execute_registry:
  assumes "mssql_server D committed intx bulk" and "gorm_store G view" and "source_session SS ok offers"
    and "ok (rw_sess W)"
    and "Execute (wired U D G tel SS env) clk load W = (e, W')"
    and "\<not> running (rw_reg W) (ld_ID load)"
  shows "(\<forall>j. running (rw_reg W') j = running (rw_reg W) j) \<and>
    (e = None \<longrightarrow> map_of (rg_loads (rw_reg W)) (ld_ID load) \<noteq> None \<longrightarrow>
       map_option ls_LastStatus (map_of (rg_loads (rw_reg W')) (ld_ID load)) = Some ''success'')"
proof -
  consider "rw_reg W' = rw_reg W" "e \<noteq> None"
    | u t a m tm n where "rw_reg W' = MarkFinished (MarkRunning (rw_reg W) (ld_ID load) u t) (ld_ID load) (run_status e) tm a n m"
    using runner_env.Execute_outcome [OF wired_env [OF assms(1-3)] assms(4,5)]
  proof (elim disjE exE conjE)
    fix run n and W0 :: "('b, 'a, 'c) rworld"
    assume reg: "rw_reg W0 = MarkRunning (rw_reg W) (ld_ID load) (run_RunUUID run) (run_StartedAt run)"
      and oc: "run_outcome (\<lambda>g. stored_wmark (view g)) (\<lambda>g. stored_runs (view g)) (force_append load) run n e W0 W'"
    from oc obtain a m tm where "rw_reg W' = MarkFinished (rw_reg W0) (ld_ID load) (run_status e) tm a n m"
      unfolding run_outcome_def by auto
    then show thesis
      using that(2) reg by simp
  qed (rule that(1))
  then show ?thesis
  proof cases
    case (2 u t a m tm n)
    then show ?thesis
      using assms(6) MarkFinished_status [of "MarkRunning (rw_reg W) (ld_ID load) u t"]
      by (auto simp: run_status_def simp del: map_option_eq_Some)
  qed auto
qed

theorem Execute_registry_witness:
  "\<not> running (rw_reg (snd demo_delta)) 7 \<and>
   map_option ls_LastStatus (map_of (rg_loads (rw_reg (snd demo_delta))) 7) = Some ''success''"
proof -
  have "\<not> running (rw_reg demo_world) 7" "map_of (rg_loads (rw_reg demo_world)) 7 \<noteq> None"
    by (simp_all add: demo_world_def Register_def runstate_New_def demo_state_def running_def)
  with Execute_registry [OF demo_contracts demo_session_reads [of "[demo_batch]" "''8''"], where U = ascii_tabs and tel = None
      and env = "\<lambda>_. []" and clk = demo_clk and load = "demo_job LoadModeDelta" and W = demo_world,
      folded demo_delta_def, OF TrueI surjective_pairing]
  show ?thesis
    by (simp add: demo_delta_None)
qed

end
