(* ===== verification/SqlServerSource.thy ===== *)
theory SqlServerSource
  imports SqlSource
begin

text \<open>
  \<^verbatim>\<open>internal/sources/sqlserver/source.go\<close>: a source that reads a table of a SQL Server database. \<open>D\<close> is the
  driver, \<open>obj\<close> the source object.
\<close>

definition sqlserver_Kind :: string where
  "sqlserver_Kind = ''sqlserver''"

section \<open>Helpers\<close>

definition sqlserver_buildDSN :: "strmap \<Rightarrow> string res" where
  "sqlserver_buildDSN p =
     (let server = get_str p ''server''; database = get_str p ''database'' in
      if server = [] \<or> database = [] then
        Inl (Errorf (''sqlserver source requires '' @ [CHR 0x27] @ ''server'' @ [CHR 0x27] @ '' and '' @
                     [CHR 0x27] @ ''database'' @ [CHR 0x27] @ '' params'') [])
      else
        let port = (if get_str p ''port'' = [] then ''1433'' else get_str p ''port'');
            user = get_str p ''user''; password = get_str p ''password'';
            ui = (if user = [] then None else if password \<noteq> [] then Some (user, Some password) else Some (user, None));
            q1 = Values_Set ''database'' database [];
            q2 = (if get_str p ''encrypt'' \<noteq> [] then Values_Set ''encrypt'' (get_str p ''encrypt'') q1 else q1);
            q3 = (if get_str p ''trustservercertificate'' \<noteq> []
                  then Values_Set ''TrustServerCertificate'' (get_str p ''trustservercertificate'') q2 else q2)
        in Inr (URL_String \<lparr> u_Scheme = ''sqlserver'', u_User = ui, u_Host = server @ '':'' @ port, u_Path = [],
                             u_RawQuery = Values_Encode q3 \<rparr>))"

definition quoteObject :: "unicode_tabs \<Rightarrow> string \<Rightarrow> string res" where
  "quoteObject U name = QuoteMSSQLQualified U name"

definition canonicalType :: "string \<Rightarrow> string" where
  "canonicalType dbType =
     (let t = ToUpper dbType in
      if t = ''BIT'' then ''bool''
      else if t \<in> {''TINYINT'', ''SMALLINT'', ''INT''} then ''int32''
      else if t = ''BIGINT'' then ''int64''
      else if t = ''REAL'' then ''float32''
      else if t = ''FLOAT'' then ''float64''
      else if t \<in> {''DECIMAL'', ''NUMERIC'', ''MONEY'', ''SMALLMONEY''} then ''decimal''
      else if t \<in> {''DATE'', ''DATETIME'', ''DATETIME2'', ''SMALLDATETIME'', ''DATETIMEOFFSET'', ''TIME''} then ''datetime''
      else if t \<in> {''BINARY'', ''VARBINARY'', ''IMAGE''} then ''bytes''
      else if t = ''UNIQUEIDENTIFIER'' then ''guid''
      else ''string'')"

text \<open>\<^verbatim>\<open>%X\<close> of a byte slice.\<close>

definition hex_bytes :: "string \<Rightarrow> string" where
  "hex_bytes bs = concat (map (\<lambda>c. let n = of_char c :: nat in [upper_hex (n div 16), upper_hex (n mod 16)]) bs)"

definition formatMSSQLGUID :: "string \<Rightarrow> string res" where
  "formatMSSQLGUID b =
     (if length b \<noteq> 16 then Inl (Errorf ''uniqueidentifier: expected 16 bytes, got %d'' [AInt (int (length b))])
      else
        let g = [b!3, b!2, b!1, b!0, b!5, b!4, b!7, b!6, b!8, b!9, b!10, b!11, b!12, b!13, b!14, b!15] in
        Inr (hex_bytes (take 4 g) @ ''-'' @ hex_bytes (take 2 (drop 4 g)) @ ''-'' @ hex_bytes (take 2 (drop 6 g)) @ ''-'' @
             hex_bytes (take 2 (drop 8 g)) @ ''-'' @ hex_bytes (drop 10 g)))"

definition sqlserver_normalizeValue :: "gval \<Rightarrow> string \<Rightarrow> gval" where
  "sqlserver_normalizeValue v canonical =
     (if v = VNil then VNil
      else if canonical = ''decimal'' then
        (case v of
           VBytes x \<Rightarrow> VString x
         | VString x \<Rightarrow> VString x
         | VFloat64 x \<Rightarrow> VString (FormatFloat x)
         | VInt I64 x \<Rightarrow> VString (itoa x)
         | _ \<Rightarrow> v)
      else if canonical = ''string'' then (case v of VBytes b \<Rightarrow> VString b | _ \<Rightarrow> v)
      else if canonical = ''guid'' then
        (case v of
           VBytes b \<Rightarrow> (case formatMSSQLGUID b of Inl _ \<Rightarrow> VString b | Inr s \<Rightarrow> VString s)
         | _ \<Rightarrow> v)
      else v)"

section \<open>Queries\<close>

definition sqlserver_currentMaxWatermark :: "unicode_tabs \<Rightarrow> 'd sql_driver \<Rightarrow> nat \<Rightarrow> string \<Rightarrow> string \<Rightarrow> string \<Rightarrow>
    ('d objs, Watermark) act" where
  "sqlserver_currentMaxWatermark U D obj table col wmType =
     bindA (liftA (wrap_res (wrapf ''watermark column'') (Validate U col))) (\<lambda>_.
     let quoted = QuoteMSSQL col in
     if wmType = WatermarkDatetime then
       bindA (with_conn nil_deref obj (\<lambda>c. sd_QueryTime D c (''SELECT MAX('' @ quoted @ '') FROM '' @ table))) (\<lambda>t.
       retA \<lparr> wm_Type = wmType, wm_Value = (case t of None \<Rightarrow> [] | Some x \<Rightarrow> format_rfc3339 x) \<rparr>)
     else if wmType = WatermarkNumeric then
       bindA (with_conn nil_deref obj (\<lambda>c.
         sd_QueryString D c (''SELECT CONVERT(varchar(40), MAX('' @ quoted @ '')) FROM '' @ table))) (\<lambda>raw.
       retA \<lparr> wm_Type = wmType, wm_Value = (case raw of None \<Rightarrow> [] | Some s \<Rightarrow> TrimSpace s) \<rparr>)
     else
       bindA (with_conn nil_deref obj (\<lambda>c.
         sd_QueryString D c (''SELECT CONVERT(varchar(400), MAX('' @ quoted @ '')) FROM '' @ table))) (\<lambda>raw.
       retA \<lparr> wm_Type = wmType, wm_Value = (case raw of None \<Rightarrow> [] | Some s \<Rightarrow> s) \<rparr>))"

definition sqlserver_buildQuery :: "unicode_tabs \<Rightarrow> 'd sql_driver \<Rightarrow> nat \<Rightarrow> LoadConfig \<Rightarrow>
    ('d objs, string \<times> gval list \<times> Watermark) act" where
  "sqlserver_buildQuery U D obj load =
     bindA (liftA (quoteObject U (lc_ObjectName load))) (\<lambda>table.
     if lc_Mode load = LoadModeAppend \<or> lc_Mode load = LoadModeReplace then
       retA (''SELECT * FROM '' @ table, [], \<lparr> wm_Type = WatermarkNone, wm_Value = [] \<rparr>)
     else if lc_WatermarkColumn load = [] \<or> lc_WatermarkType load = WatermarkNone then
       failA (Errorf ''delta load requires watermark column and type'' [])
     else
       bindA (liftA (wrap_res (wrapf ''watermark column'') (Validate U (lc_WatermarkColumn load)))) (\<lambda>_.
       let wmCol = QuoteMSSQL (lc_WatermarkColumn load) in
       bindA (sqlserver_currentMaxWatermark U D obj table (lc_WatermarkColumn load) (lc_WatermarkType load)) (\<lambda>upper.
       retA (''SELECT * FROM '' @ table @ '' WHERE '' @ wmCol @ '' > @p1 AND '' @ wmCol @ '' <= @p2 ORDER BY '' @ wmCol,
             [VString (wm_Value (lc_LastWatermark load)), VString (wm_Value upper)], upper))))"

section \<open>The source\<close>

definition sqlserver_Open :: "'d sql_driver \<Rightarrow> SourceConfig \<Rightarrow> nat \<Rightarrow> ('d objs, unit) act" where
  "sqlserver_Open D cfg obj =
     bindA (liftA (sqlserver_buildDSN (sc_Params cfg))) (\<lambda>dsn.
     bindA (wrapA (wrapf ''open sqlserver source'') (on_ext (sd_Open D dsn))) (\<lambda>c.
     bindA (wrapA (wrapf ''ping sqlserver source'') (on_ext (sd_Ping D c))) (\<lambda>_.
     set_conn obj c)))"

definition sqlserver_Ping :: "'d sql_driver \<Rightarrow> nat \<Rightarrow> ('d objs, unit) act" where
  "sqlserver_Ping D obj = with_conn nil_deref obj (sd_Ping D)"

definition sqlserver_Close :: "'d sql_driver \<Rightarrow> nat \<Rightarrow> ('d objs, unit) act" where
  "sqlserver_Close D obj = close_conn (sd_Close D) obj"

text \<open>The result set a read runs over, with the watermark to store after it.\<close>

definition sqlserver_query :: "unicode_tabs \<Rightarrow> 'd sql_driver \<Rightarrow> nat \<Rightarrow> LoadConfig \<Rightarrow> ('d objs, sql_rows \<times> Watermark) act" where
  "sqlserver_query U D obj load =
     bindA (sqlserver_buildQuery U D obj load) (\<lambda>(query, args, newWM).
     bindA (wrapA (wrapf ''query source'') (with_conn nil_deref obj (\<lambda>c. sd_Query D c query args))) (\<lambda>rws.
     retA (rws, newWM)))"

definition sqlserver_columns :: "(string \<times> string \<times> bool) list \<Rightarrow> Column list" where
  "sqlserver_columns cts =
     map (\<lambda>(name, ty, nullable). \<lparr> c_Name = name, c_DataType = canonicalType ty, c_Nullable = nullable \<rparr>) cts"

definition sqlserver_Read :: "unicode_tabs \<Rightarrow> 'd sql_driver \<Rightarrow> nat \<Rightarrow> ('d objs, 'x) ReadFn" where
  "sqlserver_Read U D obj load h w x =
     (case now_ext D w of (t0, w0) \<Rightarrow>
      let result = new_ReadResult t0 in
      if first_run load then
        (case bindA (liftA (quoteObject U (lc_ObjectName load))) (\<lambda>table.
                wrapA (wrapf ''initialize watermark'')
                  (sqlserver_currentMaxWatermark U D obj table (lc_WatermarkColumn load) (lc_WatermarkType load))) w0 of
           (Inl e, w1) \<Rightarrow> ((result, Some e), w1, x)
         | (Inr upper, w1) \<Rightarrow>
             (case now_ext D w1 of (t, w2) \<Rightarrow>
                ((result\<lparr> rr_NewWatermark := upper, rr_WatermarkInit := True, rr_FinishedAt := t \<rparr>, None), w2, x)))
      else
        (case sqlserver_query U D obj load w0 of
           (Inl e, w1) \<Rightarrow> ((result, Some e), w1, x)
         | (Inr (rws, newWM), w1) \<Rightarrow>
             (case rws_cols rws of
                Inl e \<Rightarrow> ((result, Some e), close_rows D obj w1, x)
              | Inr cts \<Rightarrow>
                  let cs = sqlserver_columns cts in
                  (case read_rows (scan_row sqlserver_normalizeValue cs) id id cs (batch_size load) h rws x of
                     (Inl e, x') \<Rightarrow> ((result, Some e), close_rows D obj w1, x')
                   | (Inr n, x') \<Rightarrow>
                       (case now_ext D w1 of (t, w2) \<Rightarrow>
                          ((result\<lparr> rr_RowsRead := n, rr_FinishedAt := t, rr_NewWatermark := newWM \<rparr>, None),
                           close_rows D obj w2, x'))))))"

definition sqlserver_source :: "unicode_tabs \<Rightarrow> 'd sql_driver \<Rightarrow> SourceConfig \<Rightarrow> nat \<Rightarrow> ('d objs, 'x) Source" where
  "sqlserver_source U D cfg obj =
     \<lparr> src_obj = obj, src_Kind = sqlserver_Kind, src_Open = sqlserver_Open D cfg obj, src_Ping = sqlserver_Ping D obj,
       src_Read = sqlserver_Read U D obj, src_Close = sqlserver_Close D obj \<rparr>"

definition sqlserver_New :: "unicode_tabs \<Rightarrow> 'd sql_driver \<Rightarrow> ('d objs, 'x) SourceFactory" where
  "sqlserver_New U D cfg = bindA new_object (\<lambda>obj. retA (sqlserver_source U D cfg obj))"

section \<open>The contract of Read\<close>

definition sqlserver_offers :: "unicode_tabs \<Rightarrow> 'd sql_driver \<Rightarrow> nat \<Rightarrow> LoadConfig \<Rightarrow> 'd objs \<Rightarrow> Batch list" where
  "sqlserver_offers U D obj = sql_offers D (sqlserver_query U D obj) sqlserver_columns sqlserver_normalizeValue"

lemma sqlserver_Read_shape:
  "sqlserver_Read U D obj =
     sql_read D obj
       (\<lambda>load. bindA (liftA (quoteObject U (lc_ObjectName load))) (\<lambda>table. wrapA (wrapf ''initialize watermark'')
          (sqlserver_currentMaxWatermark U D obj table (lc_WatermarkColumn load) (lc_WatermarkType load))))
       (sqlserver_query U D obj) id sqlserver_columns sqlserver_normalizeValue id id"
  by (intro ext) (simp add: sqlserver_Read_def sql_read_def Let_def split: prod.splits sum.splits)

lemma sqlserver_reader: "source_reader (sqlserver_Read U D obj) (sqlserver_offers U D obj)"
  unfolding sqlserver_Read_shape sqlserver_offers_def by (rule sql_reader)

section \<open>What a read reads\<close>

definition mssql_dialect :: dialect where
  "mssql_dialect = \<lparr> dl_open = CHR ''['', dl_close = CHR '']'', dl_p1 = ''@p1'', dl_p2 = ''@p2'', dl_tail = [] \<rparr>"

definition mssql_casts :: "(string \<times> string) list" where
  "mssql_casts = [(''CONVERT(varchar(40), MAX('', ''))''), (''CONVERT(varchar(400), MAX('', ''))'')]"

definition unbracket :: "string \<Rightarrow> string" where
  "unbracket p = Trim p [CHR ''['', CHR '']'']"

interpretation mssql_q: quoting mssql_dialect QuoteMSSQL unbracket
  by unfold_locales (auto simp: mssql_dialect_def unbracket_def lex_QuoteMSSQL)

text \<open>The table a load reads, by the parts of its name.\<close>

definition mssql_object :: "LoadConfig \<Rightarrow> string list" where
  "mssql_object load = map unbracket (split_on CHR ''.'' (lc_ObjectName load))"

lemma quoteObject_text:
  assumes "quoteObject U name = Inr table"
  shows "table = Join (map QuoteMSSQL (split_on CHR ''.'' name)) ''.''" "length (split_on CHR ''.'' name) \<le> 2"
  using assms by (auto simp: quoteObject_def QuoteMSSQLQualified_def ValidateQualified_Inr split: sum.splits)

locale sqlserver_db =
  sql_tables D mssql_dialect "set mssql_casts" "\<lambda>t. VString (format_rfc3339 t)" tab val gt
  for D :: "'d sql_driver" and tab :: "'d \<Rightarrow> string list \<Rightarrow> gval list list"
    and val :: "string list \<Rightarrow> string \<Rightarrow> gval list \<Rightarrow> gval" and gt :: "gval \<Rightarrow> gval \<Rightarrow> bool"
begin

lemma currentMaxWatermark_bounds:
  assumes "sqlserver_currentMaxWatermark U D obj (Join (map QuoteMSSQL ns) ''.'') col ty w = (Inr upper, w')"
    and "ns \<noteq> []" and "length ns \<le> 2" and "r \<in> set (tab (so_ext w) (map unbracket ns))"
  shows "\<not> gt (val (map unbracket ns) col r) (VString (wm_Value upper))"
proof -
  have col: "unbracket col = col"
    using assms(1) Validate_Trim(1) [of U col] by (auto simp: sqlserver_currentMaxWatermark_def unbracket_def wrap_res_def elim!: bindA_InrE split: sum.splits)
  note pm = mssql_q.parse_max_text [OF assms(2,3)]
  show ?thesis
  proof (cases "ty = WatermarkDatetime")
    case True
    then obtain t c where "sd_QueryTime D c (''SELECT MAX('' @ QuoteMSSQL col @ '') FROM '' @ Join (map QuoteMSSQL ns) ''.'') (so_ext w) = (Inr t, so_ext w')"
      and v: "wm_Value upper = (case t of None \<Rightarrow> [] | Some x \<Rightarrow> format_rfc3339 x)"
      using assms(1) by (auto simp: sqlserver_currentMaxWatermark_def Let_def retA_def elim!: bindA_InrE with_conn_InrE)
    then show ?thesis
      using max_time [of c _ "so_ext w" t "so_ext w'" "map unbracket ns" col r] pm [of "'')''" "''MAX(''" col] assms(4) col gt_nil
      by (auto split: option.splits)
  next
    case False
    have *: "\<not> gt (val (map unbracket ns) col r) (VString (case raw of None \<Rightarrow> [] | Some x \<Rightarrow> x)) \<and>
        \<not> gt (val (map unbracket ns) col r) (VString (case raw of None \<Rightarrow> [] | Some x \<Rightarrow> TrimSpace x))"
      if "sd_QueryString D c (''SELECT '' @ pre @ QuoteMSSQL col @ '')) FROM '' @ Join (map QuoteMSSQL ns) ''.'')
        (so_ext w) = (Inr raw, so_ext w')" "(pre, ''))'') \<in> set mssql_casts" for c pre raw
    proof -
      have "parse_max mssql_dialect pre ''))'' (''SELECT '' @ pre @ QuoteMSSQL col @ '')) FROM '' @ Join (map QuoteMSSQL ns) ''.'')
          = Some (map unbracket ns, col)"
        using pm [of "''))''" pre col] col by simp
      from max_text [OF that(1) this that(2) assms(4)] gt_nil show ?thesis
        by (auto split: option.splits)
    qed
    show ?thesis
    proof (cases "ty = WatermarkNumeric")
      case True
      then obtain raw c where "sd_QueryString D c (''SELECT '' @ ''CONVERT(varchar(40), MAX('' @ QuoteMSSQL col @ '')) FROM '' @ Join (map QuoteMSSQL ns) ''.'')
          (so_ext w) = (Inr raw, so_ext w')" and "wm_Value upper = (case raw of None \<Rightarrow> [] | Some x \<Rightarrow> TrimSpace x)"
        using assms(1) False
        by (auto simp: sqlserver_currentMaxWatermark_def Let_def retA_def elim!: bindA_InrE with_conn_InrE)
      then show ?thesis
        using * [of c "''CONVERT(varchar(40), MAX(''" raw] by (auto simp: mssql_casts_def)
    next
      case nn: False
      then obtain raw c where "sd_QueryString D c (''SELECT '' @ ''CONVERT(varchar(400), MAX('' @ QuoteMSSQL col @ '')) FROM '' @ Join (map QuoteMSSQL ns) ''.'')
          (so_ext w) = (Inr raw, so_ext w')" and "wm_Value upper = (case raw of None \<Rightarrow> [] | Some x \<Rightarrow> x)"
        using assms(1) False
        by (auto simp: sqlserver_currentMaxWatermark_def Let_def retA_def elim!: bindA_InrE with_conn_InrE)
      then show ?thesis
        using * [of c "''CONVERT(varchar(400), MAX(''" raw] by (auto simp: mssql_casts_def)
    qed
  qed
qed

lemma currentMaxWatermark_grows:
  assumes "sqlserver_currentMaxWatermark U D obj table col ty w = (Inr upper, w')"
  shows "mset (tab (so_ext w) ps) \<subseteq># mset (tab (so_ext w') ps)"
  using assms grows(2,3)
  by (auto simp: sqlserver_currentMaxWatermark_def Let_def retA_def elim!: bindA_InrE with_conn_InrE split: if_splits)

text \<open>A delta read that is not the first run, from the query to the rows.\<close>

lemma delta_query:
  assumes q: "sqlserver_query U D obj load w0 = (Inr (rws, newWM), w1)"
    and mode: "lc_Mode load \<noteq> LoadModeAppend" "lc_Mode load \<noteq> LoadModeReplace" and co: "complete rws"
  shows "let ps = mssql_object load; col = lc_WatermarkColumn load; rows = good_rows (rws_scans rws);
             lo = VString (wm_Value (lc_LastWatermark load)); hi = VString (wm_Value newWM) in
    (\<forall>r \<in> set rows. gt (val ps col r) lo \<and> \<not> gt (val ps col r) hi) \<and>
    filter_mset (\<lambda>r. gt (val ps col r) lo) (mset (tab (so_ext w0) ps)) \<subseteq># mset rows"
proof -
  let ?ns = "split_on CHR ''.'' (lc_ObjectName load)" and ?col = "lc_WatermarkColumn load"
  let ?table = "Join (map QuoteMSSQL ?ns) ''.''"
  obtain t w2 c where qo: "quoteObject U (lc_ObjectName load) = Inr t" and v: "Validate U ?col = Inr ()"
    and mx': "sqlserver_currentMaxWatermark U D obj t ?col (lc_WatermarkType load) w0 = (Inr newWM, w2)"
    and sq': "sd_Query D c (''SELECT * FROM '' @ t @ '' WHERE '' @ QuoteMSSQL ?col @ '' > @p1 AND '' @ QuoteMSSQL ?col @
        '' <= @p2 ORDER BY '' @ QuoteMSSQL ?col) [VString (wm_Value (lc_LastWatermark load)), VString (wm_Value newWM)]
        (so_ext w2) = (Inr rws, so_ext w1)"
    using q mode
    by (auto simp: sqlserver_query_def sqlserver_buildQuery_def Let_def retA_def failA_def liftA_def wrapA_def wrap_res_def
        elim!: bindA_InrE with_conn_InrE split: if_splits sum.splits prod.splits)
  note t = quoteObject_text(1) [OF qo] and len = quoteObject_text(2) [OF qo]
  note mx = mx' [unfolded t] and sq = sq' [unfolded t]
  have ns: "?ns \<noteq> []" by simp
  have col: "unbracket ?col = ?col"
    using Validate_Trim(1) [OF v] by (simp add: unbracket_def)
  have parse: "parse_select mssql_dialect (''SELECT * FROM '' @ ?table @ '' WHERE '' @ QuoteMSSQL ?col @ '' > @p1 AND '' @
      QuoteMSSQL ?col @ '' <= @p2 ORDER BY '' @ QuoteMSSQL ?col) = Some (mssql_object load, Some ?col)"
    using mssql_q.parse_delta [OF ns len, of ?col] col by (simp add: mssql_dialect_def mssql_object_def)
  show ?thesis
    using delta_rows [OF sq parse co, of "so_ext w0"] currentMaxWatermark_bounds [OF mx ns len] currentMaxWatermark_grows [OF mx]
    by (simp add: Let_def mssql_object_def)
qed

end

interpretation memsql: sqlserver_db "mem_driver mssql_dialect mssql_casts (\<lambda>t. VString (format_rfc3339 t)) cs" mem_tab
    "\<lambda>ps. mem_val cs" mem_gt for cs
  by unfold_locales

section \<open>Properties\<close>

text \<open>A table of five rows, and a delta load of it.\<close>

definition demo_cols :: "(string \<times> string \<times> bool) list" where
  "demo_cols = [(''id'', ''BIGINT'', False), (''note'', ''NVARCHAR'', True)]"

definition demo_table :: "gval list list" where
  "demo_table = map (\<lambda>i. [VInt I64 i, VBytes ''x'']) [1, 2, 3, 4, 5]"

definition demo_driver :: "memsrc sql_driver" where
  "demo_driver = mem_driver mssql_dialect mssql_casts (\<lambda>t. VString (format_rfc3339 t)) demo_cols"

definition demo_src :: "memsrc objs" where
  "demo_src = \<lparr> so_next = 1, so_conn = [0 \<mapsto> 0],
     so_ext = \<lparr> mr_table = [''dbo'', ''orders''], mr_rows = demo_table, mr_next = 1, mr_live = [0], mr_clock = 0, mr_faults = [] \<rparr> \<rparr>"

definition demo_delta_load :: "string \<Rightarrow> LoadConfig" where
  "demo_delta_load v = \<lparr> lc_LoadID = 7, lc_Name = ''orders'', lc_ObjectName = ''dbo.orders'', lc_Mode = LoadModeDelta,
     lc_WatermarkColumn = ''id'', lc_WatermarkType = WatermarkNumeric,
     lc_LastWatermark = \<lparr> wm_Type = WatermarkNumeric, wm_Value = v \<rparr>, lc_BatchSize = 2 \<rparr>"

definition keep_batch :: "Batch list BatchHandler" where
  "keep_batch b bs = (Inr (), bs @ [b])"

definition demo_sql_read :: "string \<Rightarrow> (ReadResult \<times> gerr option) \<times> memsrc objs \<times> Batch list" where
  "demo_sql_read v = sqlserver_Read ascii_tabs demo_driver 0 (demo_delta_load v) keep_batch demo_src []"

lemma demo_sql_read_ok:
  "case demo_sql_read ''2'' of ((rr, e), w, bs) \<Rightarrow> e = None \<and> rr_RowsRead rr = 3 \<and> wm_Value (rr_NewWatermark rr) = ''5'' \<and>
     map (\<lambda>b. length (b_Rows b)) bs = [2, 1]"
  by code_simp





text \<open>The bytes of a formatted GUID, in the order SQL Server stores them.\<close>

fun unhex_bytes :: "string \<Rightarrow> string" where
  "unhex_bytes (a # b # s) = char_of (unhex a * 16 + unhex b) # unhex_bytes s"
| "unhex_bytes _ = []"

definition stored_guid :: "string \<Rightarrow> string" where
  "stored_guid s =
     (let g = unhex_bytes (filter (\<lambda>c. c \<noteq> CHR ''-'') s) in
      rev (take 4 g) @ rev (take 2 (drop 4 g)) @ rev (take 2 (drop 6 g)) @ drop 8 g)"

lemma unhex_bytes_hex: "unhex_bytes (hex_bytes bs @ s) = bs @ unhex_bytes s"
  using unhex_upper_hex [OF byte_div] unhex_upper_hex [of "of_char _ mod 16"]
  by (induction bs) (simp_all add: hex_bytes_def Let_def)

lemma hex_bytes_simps [simp]: "hex_bytes [] = []" "length (hex_bytes bs) = 2 * length bs"
  "filter (\<lambda>c. c \<noteq> CHR ''-'') (hex_bytes bs) = hex_bytes bs"
proof -
  have "upper_hex n \<noteq> CHR ''-''" if "n < 16" for n
  proof
    assume "upper_hex n = CHR ''-''"
    then have "(of_char (upper_hex n) :: nat) = of_char (CHR ''-'')"
      by simp
    with that show False
      by (auto simp: upper_hex_def split: if_splits)
  qed
  then show "filter (\<lambda>c. c \<noteq> CHR ''-'') (hex_bytes bs) = hex_bytes bs"
    using byte_div by (auto simp: hex_bytes_def Let_def filter_id_conv)
  show "length (hex_bytes bs) = 2 * length bs"
    by (induction bs) (simp_all add: hex_bytes_def Let_def)
qed (simp add: hex_bytes_def)

text \<open>
  The text of a GUID determines it: \<^verbatim>\<open>formatMSSQLGUID\<close> of 16 bytes is a text of 36 characters from which
  the bytes can be read back with the first three groups reversed; other lengths are refused.
\<close>

theorem formatMSSQLGUID_reads_back:
  "case formatMSSQLGUID b of
     Inr s \<Rightarrow> length b = 16 \<and> length s = 36 \<and> stored_guid s = b
   | Inl _ \<Rightarrow> length b \<noteq> 16"
proof (cases "length b = 16")
  case True
  then obtain b0 b1 b2 b3 b4 b5 b6 b7 b8 b9 b10 b11 b12 b13 b14 b15
    where b: "b = [b0, b1, b2, b3, b4, b5, b6, b7, b8, b9, b10, b11, b12, b13, b14, b15]"
    by (auto simp: numeral_eq_Suc length_Suc_conv)
  show ?thesis
    unfolding b
    by (simp add: formatMSSQLGUID_def stored_guid_def Let_def unhex_bytes_hex
        unhex_bytes_hex [of "[_, _, _, _, _, _]" "[]", simplified])
qed (simp add: formatMSSQLGUID_def)

end
