(* ===== verification/PostgresSource.thy ===== *)
theory PostgresSource
  imports SqlSource
begin

text \<open>
  \<^verbatim>\<open>internal/sources/postgres/source.go\<close>: a source that reads a table of a PostgreSQL database. \<open>D\<close> is the
  driver, \<open>obj\<close> the source object.
\<close>

definition postgres_kind :: string where
  "postgres_kind = ''postgres''"

section \<open>Helpers\<close>

definition postgres_buildDSN :: "strmap \<Rightarrow> string res" where
  "postgres_buildDSN params =
     (let host = get_str params ''host''; database = get_str params ''database'' in
      if host = [] \<or> database = [] then
        Inl (Errorf (''postgres source requires '' @ [CHR 0x27] @ ''host'' @ [CHR 0x27] @ '' and '' @
                     [CHR 0x27] @ ''database'' @ [CHR 0x27] @ '' params'') [])
      else
        let port = (if get_str params ''port'' = [] then ''5432'' else get_str params ''port'');
            user = get_str params ''user''; password = get_str params ''password'';
            ui = (if user = [] then None else if password \<noteq> [] then Some (user, Some password) else Some (user, None));
            q1 = Values_Set ''sslmode'' (if get_str params ''sslmode'' \<noteq> [] then get_str params ''sslmode'' else ''disable'') [];
            q2 = (if get_str params ''search_path'' \<noteq> [] then Values_Set ''search_path'' (get_str params ''search_path'') q1 else q1);
            q3 = Values_Set ''application_name''
                   (if get_str params ''application_name'' \<noteq> [] then get_str params ''application_name'' else ''data-loader'') q2
        in Inr (URL_String \<lparr> u_Scheme = ''postgres'', u_User = ui, u_Host = host @ '':'' @ port, u_Path = ''/'' @ database,
                             u_RawQuery = Values_Encode q3 \<rparr>))"

definition parseWatermark :: "Watermark \<Rightarrow> gval res" where
  "parseWatermark w =
     (if wm_Type w = WatermarkDatetime then map_sum id VTime (time_Parse (wm_Value w)) else Inr (VString (wm_Value w)))"

definition postgres_normalizeValue :: "gval \<Rightarrow> string \<Rightarrow> gval" where
  "postgres_normalizeValue v canonical =
     (if v = VNil then VNil
      else if canonical = ''decimal'' then
        (case v of
           VBytes x \<Rightarrow> VString x
         | VString x \<Rightarrow> VString x
         | VFloat64 x \<Rightarrow> VString (FormatFloat x)
         | VInt I64 x \<Rightarrow> VString (itoa x)
         | _ \<Rightarrow> v)
      else if canonical = ''string'' then (case v of VBytes b \<Rightarrow> VString b | _ \<Rightarrow> v)
      else v)"

definition mapDriverType :: "string \<Rightarrow> string" where
  "mapDriverType dbType =
     (let t = ToUpper dbType in
      if t \<in> {''INT8'', ''BIGINT''} then ''int64''
      else if t \<in> {''INT4'', ''INTEGER'', ''INT2'', ''SMALLINT''} then ''int32''
      else if t \<in> {''FLOAT4'', ''REAL''} then ''float32''
      else if t \<in> {''FLOAT8'', ''DOUBLE PRECISION''} then ''float64''
      else if t \<in> {''NUMERIC'', ''DECIMAL'', ''MONEY''} then ''decimal''
      else if t \<in> {''BOOL'', ''BOOLEAN''} then ''bool''
      else if t \<in> {''TIMESTAMP'', ''TIMESTAMPTZ'', ''DATE'', ''TIME'', ''TIMETZ''} then ''datetime''
      else if t = ''BYTEA'' then ''bytes''
      else ''string'')"

section \<open>Queries\<close>

definition postgres_currentMaxWatermark :: "unicode_tabs \<Rightarrow> 'd sql_driver \<Rightarrow> nat \<Rightarrow> string \<Rightarrow> string \<Rightarrow> string \<Rightarrow>
    ('d objs, Watermark) act" where
  "postgres_currentMaxWatermark U D obj name col wmType =
     bindA (liftA (wrap_res (wrapf ''watermark column'') (Validate U col))) (\<lambda>_.
     bindA (liftA (QuotePostgresQualified U name)) (\<lambda>quotedObj.
     let quotedCol = QuotePostgres col in
     if wmType = WatermarkDatetime then
       bindA (with_conn nil_deref obj (\<lambda>c. sd_QueryTime D c (''SELECT MAX('' @ quotedCol @ '') FROM '' @ quotedObj))) (\<lambda>t.
       retA \<lparr> wm_Type = wmType, wm_Value = (case t of None \<Rightarrow> [] | Some x \<Rightarrow> format_rfc3339 x) \<rparr>)
     else
       bindA (with_conn nil_deref obj (\<lambda>c.
         sd_QueryString D c (''SELECT MAX('' @ quotedCol @ '')::text FROM '' @ quotedObj))) (\<lambda>raw.
       retA \<lparr> wm_Type = wmType,
              wm_Value = (case raw of None \<Rightarrow> [] | Some s \<Rightarrow> if wmType = WatermarkNumeric then TrimSpace s else s) \<rparr>)))"

definition postgres_buildQuery :: "unicode_tabs \<Rightarrow> 'd sql_driver \<Rightarrow> nat \<Rightarrow> LoadConfig \<Rightarrow>
    ('d objs, string \<times> gval list \<times> Watermark) act" where
  "postgres_buildQuery U D obj load =
     bindA (liftA (QuotePostgresQualified U (lc_ObjectName load))) (\<lambda>table.
     let base = ''SELECT * FROM '' @ table in
     if lc_Mode load = LoadModeAppend \<or> lc_Mode load = LoadModeReplace then
       retA (base, [], \<lparr> wm_Type = WatermarkNone, wm_Value = [] \<rparr>)
     else if lc_WatermarkColumn load = [] \<or> lc_WatermarkType load = WatermarkNone then
       failA (Errorf ''delta load requires watermark column and type'' [])
     else
       bindA (liftA (wrap_res (wrapf ''watermark column'') (Validate U (lc_WatermarkColumn load)))) (\<lambda>_.
       let wm = QuotePostgres (lc_WatermarkColumn load) in
       bindA (postgres_currentMaxWatermark U D obj (lc_ObjectName load) (lc_WatermarkColumn load) (lc_WatermarkType load)) (\<lambda>upper.
       bindA (liftA (parseWatermark (lc_LastWatermark load))) (\<lambda>low.
       bindA (liftA (parseWatermark upper)) (\<lambda>upperArg.
       retA (base @ '' WHERE '' @ wm @ '' > $1 AND '' @ wm @ '' <= $2 ORDER BY '' @ wm @ '' ASC'', [low, upperArg], upper))))))"

section \<open>The source\<close>

definition postgres_Open :: "'d sql_driver \<Rightarrow> SourceConfig \<Rightarrow> nat \<Rightarrow> ('d objs, unit) act" where
  "postgres_Open D cfg obj =
     bindA (liftA (postgres_buildDSN (sc_Params cfg))) (\<lambda>dsn.
     bindA (wrapA (wrapf ''open postgres source'') (on_ext (sd_Open D dsn))) (\<lambda>c w.
     case on_ext (sd_Ping D c) w of
       (Inl e, w1) \<Rightarrow> (Inl (wrapf ''ping postgres source'' e), snd (on_ext (sd_Close D c) w1))
     | (Inr _, w1) \<Rightarrow> set_conn obj c w1))"

definition postgres_Ping :: "'d sql_driver \<Rightarrow> nat \<Rightarrow> ('d objs, unit) act" where
  "postgres_Ping D obj = with_conn (Errorf ''source not open'' []) obj (sd_Ping D)"

definition postgres_Close :: "'d sql_driver \<Rightarrow> nat \<Rightarrow> ('d objs, unit) act" where
  "postgres_Close D obj = close_conn (sd_Close D) obj"

text \<open>The result set a read runs over, with the watermark to store after it.\<close>

definition postgres_query :: "unicode_tabs \<Rightarrow> 'd sql_driver \<Rightarrow> nat \<Rightarrow> LoadConfig \<Rightarrow> ('d objs, sql_rows \<times> Watermark) act" where
  "postgres_query U D obj load =
     bindA (postgres_buildQuery U D obj load) (\<lambda>(query, args, newWM).
     bindA (wrapA (wrapf ''execute source query'') (with_conn nil_deref obj (\<lambda>c. sd_Query D c query args))) (\<lambda>rws.
     retA (rws, newWM)))"

definition postgres_columns :: "(string \<times> string \<times> bool) list \<Rightarrow> Column list" where
  "postgres_columns cts =
     map (\<lambda>(name, ty, nullable). \<lparr> c_Name = name, c_DataType = mapDriverType ty, c_Nullable = nullable \<rparr>) cts"

definition postgres_Read :: "unicode_tabs \<Rightarrow> 'd sql_driver \<Rightarrow> nat \<Rightarrow> ('d objs, 'x) ReadFn" where
  "postgres_Read U D obj load h w x =
     (case now_ext D w of (start, w0) \<Rightarrow>
      let result = new_ReadResult start in
      if first_run load then
        (case wrapA (wrapf ''initialize watermark'')
                (postgres_currentMaxWatermark U D obj (lc_ObjectName load) (lc_WatermarkColumn load) (lc_WatermarkType load)) w0 of
           (Inl e, w1) \<Rightarrow> ((result, Some e), w1, x)
         | (Inr upper, w1) \<Rightarrow>
             (case now_ext D w1 of (t, w2) \<Rightarrow>
                ((result\<lparr> rr_NewWatermark := upper, rr_WatermarkInit := True, rr_FinishedAt := t \<rparr>, None), w2, x)))
      else
        (case postgres_query U D obj load w0 of
           (Inl e, w1) \<Rightarrow> ((result, Some e), w1, x)
         | (Inr (rws, newWM), w1) \<Rightarrow>
             (case rws_cols rws of
                Inl e \<Rightarrow> ((result, Some (wrapf ''column types'' e)), close_rows D obj w1, x)
              | Inr cts \<Rightarrow>
                  let cs = postgres_columns cts in
                  (case read_rows (scan_row postgres_normalizeValue cs) (wrapf ''scan row'') (wrapf ''iterate rows'') cs
                          (batch_size load) h rws x of
                     (Inl e, x') \<Rightarrow> ((result, Some e), close_rows D obj w1, x')
                   | (Inr n, x') \<Rightarrow>
                       (case now_ext D w1 of (t, w2) \<Rightarrow>
                          ((result\<lparr> rr_RowsRead := n, rr_NewWatermark := newWM, rr_FinishedAt := t \<rparr>, None),
                           close_rows D obj w2, x'))))))"

definition postgres_source :: "unicode_tabs \<Rightarrow> 'd sql_driver \<Rightarrow> SourceConfig \<Rightarrow> nat \<Rightarrow> ('d objs, 'x) Source" where
  "postgres_source U D cfg obj =
     \<lparr> src_obj = obj, src_Kind = postgres_kind, src_Open = postgres_Open D cfg obj, src_Ping = postgres_Ping D obj,
       src_Read = postgres_Read U D obj, src_Close = postgres_Close D obj \<rparr>"

definition postgres_New :: "unicode_tabs \<Rightarrow> 'd sql_driver \<Rightarrow> ('d objs, 'x) SourceFactory" where
  "postgres_New U D cfg = bindA new_object (\<lambda>obj. retA (postgres_source U D cfg obj))"

section \<open>The contract of Read\<close>

definition postgres_offers :: "unicode_tabs \<Rightarrow> 'd sql_driver \<Rightarrow> nat \<Rightarrow> LoadConfig \<Rightarrow> 'd objs \<Rightarrow> Batch list" where
  "postgres_offers U D obj = sql_offers D (postgres_query U D obj) postgres_columns postgres_normalizeValue"

lemma postgres_Read_shape:
  "postgres_Read U D obj =
     sql_read D obj
       (\<lambda>load. wrapA (wrapf ''initialize watermark'')
          (postgres_currentMaxWatermark U D obj (lc_ObjectName load) (lc_WatermarkColumn load) (lc_WatermarkType load)))
       (postgres_query U D obj) (wrapf ''column types'') postgres_columns postgres_normalizeValue
       (wrapf ''scan row'') (wrapf ''iterate rows'')"
  by (intro ext) (simp add: postgres_Read_def sql_read_def Let_def split: prod.splits sum.splits)

lemma postgres_reader: "source_reader (postgres_Read U D obj) (postgres_offers U D obj)"
  unfolding postgres_Read_shape postgres_offers_def by (rule sql_reader)

section \<open>What a read reads\<close>

definition pg_dialect :: dialect where
  "pg_dialect = \<lparr> dl_open = CHR 0x22, dl_close = CHR 0x22, dl_p1 = ''$1'', dl_p2 = ''$2'', dl_tail = '' ASC'' \<rparr>"

definition pg_casts :: "(string \<times> string) list" where
  "pg_casts = [(''MAX('', '')::text'')]"

definition unquote :: "string \<Rightarrow> string" where
  "unquote p = Trim p [CHR 0x22]"

interpretation pg_q: quoting pg_dialect QuotePostgres unquote
  by unfold_locales (auto simp: pg_dialect_def unquote_def lex_QuotePostgres)

definition pg_object :: "LoadConfig \<Rightarrow> string list" where
  "pg_object load = map unquote (split_on CHR ''.'' (lc_ObjectName load))"

lemma QuotePostgresQualified_text:
  assumes "QuotePostgresQualified U name = Inr table"
  shows "table = Join (map QuotePostgres (split_on CHR ''.'' name)) ''.''" "length (split_on CHR ''.'' name) \<le> 2"
  using assms by (auto simp: QuotePostgresQualified_def ValidateQualified_Inr split: sum.splits)

text \<open>The database: its times are of the years 1 to 9999, which RFC 3339 can write.\<close>

locale postgres_db =
  sql_tables D pg_dialect "set pg_casts" VTime tab val gt
  for D :: "'d sql_driver" and tab :: "'d \<Rightarrow> string list \<Rightarrow> gval list list"
    and val :: "string list \<Rightarrow> string \<Rightarrow> gval list \<Rightarrow> gval" and gt :: "gval \<Rightarrow> gval \<Rightarrow> bool" +
  assumes years: "sd_QueryTime D c q d = (Inr (Some u), d') \<Longrightarrow> min_time \<le> u \<and> u < max_time"
begin

lemma currentMaxWatermark_bounds:
  assumes mx: "postgres_currentMaxWatermark U D obj name col ty w = (Inr upper, w')"
    and hi: "parseWatermark upper = Inr a"
    and r: "r \<in> set (tab (so_ext w) (map unquote (split_on CHR ''.'' name)))"
  shows "\<not> gt (val (map unquote (split_on CHR ''.'' name)) col r) a"
proof -
  let ?ns = "split_on CHR ''.'' name"
  obtain table where qo: "QuotePostgresQualified U name = Inr table" and v: "Validate U col = Inr ()"
    using mx by (auto simp: postgres_currentMaxWatermark_def liftA_def wrap_res_def elim!: bindA_InrE split: sum.splits)
  note t = QuotePostgresQualified_text(1) [OF qo] and len = QuotePostgresQualified_text(2) [OF qo]
  have ns: "?ns \<noteq> []" by simp
  have col: "unquote col = col"
    using Validate_Trim(2) [OF v] by (simp add: unquote_def)
  note pm = pg_q.parse_max_text [OF ns len]
  show ?thesis
  proof (cases "ty = WatermarkDatetime")
    case True
    then obtain u c where q: "sd_QueryTime D c (''SELECT MAX('' @ QuotePostgres col @ '') FROM '' @ table) (so_ext w) = (Inr u, so_ext w')"
      and up: "upper = \<lparr> wm_Type = ty, wm_Value = (case u of None \<Rightarrow> [] | Some x \<Rightarrow> format_rfc3339 x) \<rparr>"
      using mx qo by (auto simp: postgres_currentMaxWatermark_def Let_def retA_def liftA_def elim!: bindA_InrE with_conn_InrE)
    have p: "parse_max pg_dialect ''MAX('' '')'' (''SELECT MAX('' @ QuotePostgres col @ '') FROM '' @ table) = Some (map unquote ?ns, col)"
      using pm [of "'')''" "''MAX(''" col] col t by simp
    show ?thesis
    proof (cases u)
      case None
      then show ?thesis
        using max_time [OF q p r] gt_nil by simp
    next
      case (Some x)
      then have "a = VTime x"
        using hi up True parse_format [of x] years [OF q [unfolded Some]] by (simp add: parseWatermark_def time_Parse_def)
      then show ?thesis
        using max_time [OF q p r] Some by simp
    qed
  next
    case False
    then obtain raw c where q: "sd_QueryString D c (''SELECT MAX('' @ QuotePostgres col @ '')::text FROM '' @ table) (so_ext w) = (Inr raw, so_ext w')"
      and up: "upper = \<lparr> wm_Type = ty, wm_Value = (case raw of None \<Rightarrow> [] | Some s \<Rightarrow> if ty = WatermarkNumeric then TrimSpace s else s) \<rparr>"
      using mx qo by (auto simp: postgres_currentMaxWatermark_def Let_def retA_def liftA_def elim!: bindA_InrE with_conn_InrE)
    have p: "parse_max pg_dialect ''MAX('' '')::text'' (''SELECT MAX('' @ QuotePostgres col @ '')::text FROM '' @ table) = Some (map unquote ?ns, col)"
      using pm [of "'')::text''" "''MAX(''" col] col t by simp
    have "a = VString (wm_Value upper)"
      using hi up False by (simp add: parseWatermark_def)
    then show ?thesis
      using max_text [OF q p _ r] gt_nil up by (auto simp: pg_casts_def split: option.splits)
  qed
qed

lemma currentMaxWatermark_grows:
  assumes "postgres_currentMaxWatermark U D obj name col ty w = (Inr upper, w')"
  shows "mset (tab (so_ext w) ps) \<subseteq># mset (tab (so_ext w') ps)"
  using assms grows(2,3)
  by (auto simp: postgres_currentMaxWatermark_def Let_def retA_def liftA_def elim!: bindA_InrE with_conn_InrE split: if_splits)

lemma delta_query:
  assumes q: "postgres_query U D obj load w0 = (Inr (rws, newWM), w1)"
    and mode: "lc_Mode load \<noteq> LoadModeAppend" "lc_Mode load \<noteq> LoadModeReplace" and co: "complete rws"
  shows "\<exists>lo hi. parseWatermark (lc_LastWatermark load) = Inr lo \<and> parseWatermark newWM = Inr hi \<and>
    (let ps = pg_object load; col = lc_WatermarkColumn load; rows = good_rows (rws_scans rws) in
    (\<forall>r \<in> set rows. gt (val ps col r) lo \<and> \<not> gt (val ps col r) hi) \<and>
    filter_mset (\<lambda>r. gt (val ps col r) lo) (mset (tab (so_ext w0) ps)) \<subseteq># mset rows)"
proof -
  let ?ns = "split_on CHR ''.'' (lc_ObjectName load)" and ?col = "lc_WatermarkColumn load"
  obtain t w2 c lo hi where qo: "QuotePostgresQualified U (lc_ObjectName load) = Inr t" and v: "Validate U ?col = Inr ()"
    and mx: "postgres_currentMaxWatermark U D obj (lc_ObjectName load) ?col (lc_WatermarkType load) w0 = (Inr newWM, w2)"
    and wm: "parseWatermark (lc_LastWatermark load) = Inr lo" "parseWatermark newWM = Inr hi"
    and sq': "sd_Query D c (''SELECT * FROM '' @ t @ '' WHERE '' @ QuotePostgres ?col @ '' > $1 AND '' @ QuotePostgres ?col @
        '' <= $2 ORDER BY '' @ QuotePostgres ?col @ '' ASC'') [lo, hi] (so_ext w2) = (Inr rws, so_ext w1)"
    using q mode
    by (auto simp: postgres_query_def postgres_buildQuery_def Let_def retA_def failA_def liftA_def wrapA_def wrap_res_def
        elim!: bindA_InrE with_conn_InrE split: if_splits sum.splits prod.splits)
  note t = QuotePostgresQualified_text(1) [OF qo] and len = QuotePostgresQualified_text(2) [OF qo]
  note sq = sq' [unfolded t]
  have ns: "?ns \<noteq> []" by simp
  have col: "unquote ?col = ?col"
    using Validate_Trim(2) [OF v] by (simp add: unquote_def)
  have parse: "parse_select pg_dialect (''SELECT * FROM '' @ Join (map QuotePostgres ?ns) ''.'' @ '' WHERE '' @ QuotePostgres ?col @
      '' > $1 AND '' @ QuotePostgres ?col @ '' <= $2 ORDER BY '' @ QuotePostgres ?col @ '' ASC'') = Some (pg_object load, Some ?col)"
    using pg_q.parse_delta [OF ns len, of ?col] col by (simp add: pg_dialect_def pg_object_def)
  have "let rows = good_rows (rws_scans rws) in
    (\<forall>r \<in> set rows. gt (val (pg_object load) ?col r) lo \<and> \<not> gt (val (pg_object load) ?col r) hi) \<and>
    filter_mset (\<lambda>r. gt (val (pg_object load) ?col r) lo) (mset (tab (so_ext w0) (pg_object load))) \<subseteq># mset rows"
    by (rule delta_rows [OF sq parse co])
       (use currentMaxWatermark_bounds [OF mx wm(2)] currentMaxWatermark_grows [OF mx] in \<open>simp_all add: pg_object_def\<close>)
  with wm show ?thesis
    by (auto simp: Let_def)
qed

end

interpretation mempg: postgres_db "mem_driver pg_dialect pg_casts VTime cs" mem_tab "\<lambda>ps. mem_val cs" mem_gt for cs
proof
  fix c q d u d'
  assume "sd_QueryTime (mem_driver pg_dialect pg_casts VTime cs) c q d = (Inr (Some u), d')"
  then obtain fs where "mem_query_time pg_dialect VTime cs q (d\<lparr> mr_faults := fs \<rparr>) = Inr (Some u)"
    using mcall_read [of "mem_query_time pg_dialect VTime cs q" d] by (auto simp: mem_driver_def)
  then show "min_time \<le> u \<and> u < max_time"
    by (auto simp: mem_query_time_def mem_max_time_def Let_def split: option.splits list.splits if_splits)
qed

section \<open>Properties\<close>


text \<open>A table of three rows with a time, and a delta load of it.\<close>

definition pg_cols :: "(string \<times> string \<times> bool) list" where
  "pg_cols = [(''at'', ''TIMESTAMPTZ'', False), (''n'', ''INT4'', True)]"

definition pg_table :: "gval list list" where
  "pg_table = [[VTime 0, VInt I32 1], [VTime 86400000000000, VInt I32 2], [VTime 172800000000000, VInt I32 3]]"

definition pg_state :: "gval list list \<Rightarrow> memsrc objs" where
  "pg_state rows = \<lparr> so_next = 1, so_conn = [0 \<mapsto> 0],
     so_ext = \<lparr> mr_table = [''public'', ''events''], mr_rows = rows, mr_next = 1, mr_live = [0], mr_clock = 0, mr_faults = [] \<rparr> \<rparr>"

definition pg_load :: "string \<Rightarrow> LoadConfig" where
  "pg_load v = \<lparr> lc_LoadID = 8, lc_Name = ''events'', lc_ObjectName = ''public.events'', lc_Mode = LoadModeDelta,
     lc_WatermarkColumn = ''at'', lc_WatermarkType = WatermarkDatetime,
     lc_LastWatermark = \<lparr> wm_Type = WatermarkDatetime, wm_Value = v \<rparr>, lc_BatchSize = 10 \<rparr>"

definition pg_read :: "gval list list \<Rightarrow> string \<Rightarrow> (ReadResult \<times> gerr option) \<times> memsrc objs \<times> nat" where
  "pg_read rows v = postgres_Read ascii_tabs (mem_driver pg_dialect pg_casts VTime pg_cols) 0 (pg_load v)
     (\<lambda>b n. (Inr (), n + length (b_Rows b))) (pg_state rows) 0"

lemma pg_read_ok:
  "case pg_read pg_table ''1970-01-01T00:00:00Z'' of ((rr, e), w, n) \<Rightarrow>
     e = None \<and> rr_RowsRead rr = 2 \<and> wm_Value (rr_NewWatermark rr) = ''1970-01-03T00:00:00Z'' \<and> n = 2"
  by code_simp




text \<open>
  The connection string of a PostgreSQL source carries its parameters: reading the text as a URL gives back
  the user, the password, the host with its port, 5432 if none was given, and the database as the path.
\<close>

theorem postgres_DSN_reads_back:
  assumes "postgres_buildDSN p = Inr dsn"
  shows "\<exists>q. read_url dsn =
      (''postgres'',
       if get_str p ''user'' = [] then None
       else Some (get_str p ''user'', if get_str p ''password'' = [] then None else Some (get_str p ''password'')),
       get_str p ''host'' @ '':'' @ (if get_str p ''port'' = [] then ''5432'' else get_str p ''port''),
       ''/'' @ get_str p ''database'', q) \<and>
     map_of q ''sslmode'' = Some (if get_str p ''sslmode'' \<noteq> [] then get_str p ''sslmode'' else ''disable'')"
proof -
  define q where "q = Values_Set ''application_name''
       (if get_str p ''application_name'' \<noteq> [] then get_str p ''application_name'' else ''data-loader'')
       (let q1 = Values_Set ''sslmode'' (if get_str p ''sslmode'' \<noteq> [] then get_str p ''sslmode'' else ''disable'') []
        in if get_str p ''search_path'' \<noteq> [] then Values_Set ''search_path'' (get_str p ''search_path'') q1 else q1)"
  define u where "u = \<lparr> u_Scheme = ''postgres'',
       u_User = (if get_str p ''user'' = [] then None
         else if get_str p ''password'' \<noteq> [] then Some (get_str p ''user'', Some (get_str p ''password''))
         else Some (get_str p ''user'', None)),
       u_Host = get_str p ''host'' @ '':'' @ (if get_str p ''port'' = [] then ''5432'' else get_str p ''port''),
       u_Path = ''/'' @ get_str p ''database'', u_RawQuery = Values_Encode q \<rparr>"
  have dsn: "dsn = URL_String u"
    using assms by (auto simp: postgres_buildDSN_def Let_def u_def q_def split: if_splits)
  have "read_url dsn = (u_Scheme u, u_User u, u_Host u, u_Path u, map (\<lambda>k. (k, get_str q k)) (sorted_keys q))"
    unfolding dsn by (rule read_url_String) (simp_all add: u_def)
  moreover have "map_of (map (\<lambda>k. (k, get_str q k)) (sorted_keys q)) ''sslmode'' =
      Some (if get_str p ''sslmode'' \<noteq> [] then get_str p ''sslmode'' else ''disable'')"
    by (subst read_query_value) (auto simp: q_def Let_def)
  ultimately show ?thesis
    by (auto simp: u_def)
qed

theorem postgres_DSN_reads_back_witness:
  "fst (snd (snd (snd (read_url (projr (postgres_buildDSN [(''host'', ''db2''), (''database'', ''m?es'')])))))) = ''/m?es''"
proof -
  let ?p = "[(''host'', ''db2''), (''database'', ''m?es'')]"
  have "postgres_buildDSN ?p = Inr (projr (postgres_buildDSN ?p))"
    by (simp add: postgres_buildDSN_def Let_def get_str_def)
  from postgres_DSN_reads_back [OF this] show ?thesis
    by (auto simp: get_str_def)
qed

end
