(* ===== verification/Modbus.thy ===== *)
theory Modbus
  imports SourceObjects Metrics Url
begin

text \<open>
  \<^verbatim>\<open>internal/sources/modbus/source.go\<close>: one poll of a load's Modbus tags. The client library is a parameter, a
  record of its operations on the state \<open>'d\<close> behind the connections; so are the clock and the place where
  the process keeps its metrics. Registers are 16-bit words, the buffer is a list of bytes, and the
  integers decoded from it have their width.
\<close>

unbundle bit_operations_syntax

definition modbus_kind :: string where
  "modbus_kind = ''modbus''"

section \<open>Bytes and words\<close>

type_synonym byte = "8 word"

definition PutUint16_BE :: "16 word \<Rightarrow> byte list" where
  "PutUint16_BE r = [ucast (drop_bit 8 r), ucast r]"

text \<open>
  \<^verbatim>\<open>binary.BigEndian\<close> and \<^verbatim>\<open>binary.LittleEndian\<close>: the first \<open>n\<close> bytes as an unsigned integer of the width of the
  result.
\<close>

definition Uint_BE :: "nat \<Rightarrow> byte list \<Rightarrow> 'a::len word" where
  "Uint_BE n buf = foldl (\<lambda>v b. push_bit 8 v OR ucast b) 0 (take n buf)"

definition Uint_LE :: "nat \<Rightarrow> byte list \<Rightarrow> 'a::len word" where
  "Uint_LE n buf = foldr (\<lambda>b v. push_bit 8 v OR ucast b) (take n buf) 0"

definition Uint :: "bool \<Rightarrow> nat \<Rightarrow> byte list \<Rightarrow> 'a::len word" where
  "Uint le n buf = (if le then Uint_LE n buf else Uint_BE n buf)"

text \<open>The loop of \<^verbatim>\<open>swapWords\<close>, writing two bytes at a time; an odd last byte of the output stays zero.\<close>

fun swap_loop :: "byte list \<Rightarrow> nat \<Rightarrow> nat \<Rightarrow> nat \<Rightarrow> byte list \<Rightarrow> byte list" where
  "swap_loop buf words i 0 out = out"
| "swap_loop buf words i (Suc k) out =
     (let srcHi = (words - 1 - i) * 2
      in swap_loop buf words (i + 1) k (out[i * 2 := buf ! srcHi, i * 2 + 1 := buf ! (srcHi + 1)]))"

definition swapWords :: "byte list \<Rightarrow> byte list" where
  "swapWords buf = (let words = length buf div 2 in swap_loop buf words 0 words (replicate (length buf) 0))"

section \<open>The client library\<close>

datatype Endianness = BIG_ENDIAN | LITTLE_ENDIAN
datatype WordOrder = HIGH_WORD_FIRST | LOW_WORD_FIRST
datatype RegType = HOLDING_REGISTER | INPUT_REGISTER

record 'd modbus_lib =
  mb_NewClient :: "string \<Rightarrow> int \<Rightarrow> ('d, nat) act"
  mb_Open :: "nat \<Rightarrow> ('d, unit) act"
  mb_Close :: "nat \<Rightarrow> ('d, unit) act"
  mb_SetUnitId :: "nat \<Rightarrow> byte \<Rightarrow> ('d, unit) act"
  mb_SetEncoding :: "nat \<Rightarrow> Endianness \<Rightarrow> WordOrder \<Rightarrow> ('d, unit) act"
  mb_ReadCoils :: "nat \<Rightarrow> 16 word \<Rightarrow> 16 word \<Rightarrow> ('d, bool list) act"
  mb_ReadDiscreteInputs :: "nat \<Rightarrow> 16 word \<Rightarrow> 16 word \<Rightarrow> ('d, bool list) act"
  mb_ReadRegisters :: "nat \<Rightarrow> 16 word \<Rightarrow> 16 word \<Rightarrow> RegType \<Rightarrow> ('d, 16 word list) act"
  mb_Now :: "'d \<Rightarrow> gtime \<times> 'd"
  mb_Metrics :: "(metrics \<Rightarrow> metrics) \<Rightarrow> 'd \<Rightarrow> 'd"

section \<open>Decoding\<close>

definition endianness :: "string \<Rightarrow> Endianness" where
  "endianness s = (if EqualFold s ''little'' then LITTLE_ENDIAN else BIG_ENDIAN)"

definition wordOrder :: "string \<Rightarrow> WordOrder" where
  "wordOrder s = (if EqualFold s ''low_first'' then LOW_WORD_FIRST else HIGH_WORD_FIRST)"

definition nullIfEmpty :: "string \<Rightarrow> gval" where
  "nullIfEmpty s = (if s = [] then VNil else VString s)"

definition quantityFor :: "string \<Rightarrow> 16 word \<Rightarrow> 16 word" where
  "quantityFor dataType override =
     (if 0 < override then override
      else let ty = ToLower dataType in
        if ty = ''int16'' \<or> ty = ''uint16'' then 1
        else if ty = ''int32'' \<or> ty = ''uint32'' \<or> ty = ''float32'' then 2
        else if ty = ''int64'' \<or> ty = ''uint64'' \<or> ty = ''float64'' then 4
        else 1)"

definition decodeNumeric :: "byte list \<Rightarrow> string \<Rightarrow> string \<Rightarrow> f64 res" where
  "decodeNumeric buf dataType byteOrder =
     (let le = EqualFold byteOrder ''little''; ty = ToLower dataType;
          needs = (\<lambda>n v. if length buf < n then Inl (Errorf (ty @ '' needs '' @ itoa (int n) @ '' bytes'') []) else Inr v)
      in if ty = ''int16'' then needs 2 (f64_of_int (sint (Uint le 2 buf :: 16 word)))
         else if ty = ''uint16'' then needs 2 (f64_of_int (uint (Uint le 2 buf :: 16 word)))
         else if ty = ''int32'' then needs 4 (f64_of_int (sint (Uint le 4 buf :: 32 word)))
         else if ty = ''uint32'' then needs 4 (f64_of_int (uint (Uint le 4 buf :: 32 word)))
         else if ty = ''int64'' then needs 8 (f64_of_int (sint (Uint le 8 buf :: 64 word)))
         else if ty = ''uint64'' then needs 8 (f64_of_int (uint (Uint le 8 buf :: 64 word)))
         else if ty = ''float32'' then needs 4 (f64_of_f32bits (Uint le 4 buf))
         else if ty = ''float64'' then needs 8 (f64_of_bits (Uint le 8 buf))
         else Inl (Errorf ''unsupported data type %q'' [AStr dataType]))"

text \<open>
  Reading a tag: the value is the row, completed, and the error the function returns; the error of the
  action is a panic, here of an index into an empty slice.
\<close>

definition index_panic :: gerr where
  "index_panic = ErrExt ''index out of range''"

definition first_bit :: "('d, bool list) act \<Rightarrow> Row \<Rightarrow> ('d, Row \<times> gerr option) act" where
  "first_bit m row d =
     (case m d of
        (Inl e, d1) \<Rightarrow> (Inr (row, Some e), d1)
      | (Inr [], d1) \<Rightarrow> (Inl index_panic, d1)
      | (Inr (v # _), d1) \<Rightarrow> (Inr (row(''value_bool'' \<mapsto> VBool v), None), d1))"

definition reg_buffer :: "ModbusPoint \<Rightarrow> 16 word list \<Rightarrow> byte list" where
  "reg_buffer tag regs =
     (let buf = concat (map PutUint16_BE regs) in
      if EqualFold (mp_WordOrder tag) ''low_first'' \<and> 2 \<le> length regs then swapWords buf else buf)"

definition reg_value :: "ModbusPoint \<Rightarrow> 16 word list \<Rightarrow> f64 res" where
  "reg_value tag regs =
     bind_res (decodeNumeric (reg_buffer tag regs) (mp_DataType tag) (mp_ByteOrder tag)) (\<lambda>raw.
     let scaled = f64_add (f64_mul raw (mp_Scale tag)) (mp_Offset tag) in
     if IsNaN scaled \<or> IsInf scaled then Inl (Errorf ''decoded value is NaN/Inf'' []) else Inr scaled)"

definition readRegisters :: "'d modbus_lib \<Rightarrow> nat \<Rightarrow> ModbusPoint \<Rightarrow> Row \<Rightarrow> ('d, Row \<times> gerr option) act" where
  "readRegisters L c tag row d =
     (let regType = (if ToLower (mp_RegisterType tag) = ''input'' then INPUT_REGISTER else HOLDING_REGISTER);
          quantity = quantityFor (mp_DataType tag) (mp_Quantity tag)
      in case mb_ReadRegisters L c (mp_Address tag) quantity regType d of
           (Inl e, d1) \<Rightarrow> (Inr (row, Some e), d1)
         | (Inr regs, d1) \<Rightarrow>
             (case reg_value tag regs of
                Inl e \<Rightarrow> (Inr (row, Some e), d1)
              | Inr scaled \<Rightarrow> (Inr (row(''value_num'' \<mapsto> VFloat64 scaled), None), d1)))"

definition readTagInto :: "'d modbus_lib \<Rightarrow> nat \<Rightarrow> ModbusPoint \<Rightarrow> Row \<Rightarrow> ('d, Row \<times> gerr option) act" where
  "readTagInto L c tag row =
     (let ty = ToLower (mp_RegisterType tag) in
      if ty = ''coil'' then first_bit (mb_ReadCoils L c (mp_Address tag) 1) row
      else if ty = ''discrete'' then first_bit (mb_ReadDiscreteInputs L c (mp_Address tag) 1) row
      else if ty = ''holding'' \<or> ty = ''input'' then readRegisters L c tag row
      else retA (row, Some (Errorf ''unknown register type %q'' [AStr (mp_RegisterType tag)])))"

section \<open>A poll\<close>

definition modbus_columns :: "Column list" where
  "modbus_columns =
     [\<lparr> c_Name = ''correlation_id'', c_DataType = ''string'', c_Nullable = True \<rparr>,
      \<lparr> c_Name = ''tag_name'', c_DataType = ''string'', c_Nullable = False \<rparr>,
      \<lparr> c_Name = ''ts'', c_DataType = ''datetime'', c_Nullable = False \<rparr>,
      \<lparr> c_Name = ''value_num'', c_DataType = ''float64'', c_Nullable = True \<rparr>,
      \<lparr> c_Name = ''value_bool'', c_DataType = ''bool'', c_Nullable = True \<rparr>,
      \<lparr> c_Name = ''value_text'', c_DataType = ''string'', c_Nullable = True \<rparr>,
      \<lparr> c_Name = ''quality'', c_DataType = ''string'', c_Nullable = False \<rparr>]"

definition tag_row :: "gtime \<Rightarrow> ModbusPoint \<Rightarrow> Row" where
  "tag_row pollTS tag =
     [''correlation_id'' \<mapsto> nullIfEmpty (mp_CorrelationID tag), ''tag_name'' \<mapsto> VString (mp_TagName tag),
      ''ts'' \<mapsto> VTime pollTS, ''value_num'' \<mapsto> VNil, ''value_bool'' \<mapsto> VNil, ''value_text'' \<mapsto> VNil,
      ''quality'' \<mapsto> VString ''good'']"

definition bad_tag :: "Row \<Rightarrow> string \<Rightarrow> Row" where
  "bad_tag row msg = row(''quality'' \<mapsto> VString ''bad'', ''value_text'' \<mapsto> VString msg)"

text \<open>One tag: its row and what is added to \<^verbatim>\<open>RowsRead\<close>.\<close>

definition poll_tag :: "'d modbus_lib \<Rightarrow> nat \<Rightarrow> gtime \<Rightarrow> ModbusPoint \<Rightarrow> ('d, Row \<times> int) act" where
  "poll_tag L c pollTS tag d =
     (let row = tag_row pollTS tag in
      case mb_SetUnitId L c (mp_UnitID tag) d of
        (Inl e, d1) \<Rightarrow> (Inr (bad_tag row (''set unit: '' @ Error e), 0), d1)
      | (Inr _, d1) \<Rightarrow>
          (case mb_SetEncoding L c (endianness (mp_ByteOrder tag)) (wordOrder (mp_WordOrder tag)) d1 of
             (Inl e, d2) \<Rightarrow> (Inr (bad_tag row (''set encoding: '' @ Error e), 0), d2)
           | (Inr _, d2) \<Rightarrow>
               (case readTagInto L c tag row d2 of
                  (Inl p, d3) \<Rightarrow> (Inl p, d3)
                | (Inr (row', None), d3) \<Rightarrow> (Inr (row', 1), d3)
                | (Inr (row', Some e), d3) \<Rightarrow> (Inr (bad_tag row' (Error e), 1), d3))))"

fun poll_tags :: "'d modbus_lib \<Rightarrow> nat \<Rightarrow> gtime \<Rightarrow> ModbusPoint list \<Rightarrow> ('d, Row list \<times> int) act" where
  "poll_tags L c pollTS [] = retA ([], 0)"
| "poll_tags L c pollTS (tag # tags) =
     bindA (poll_tag L c pollTS tag) (\<lambda>(row, n).
     bindA (poll_tags L c pollTS tags) (\<lambda>(rows, m). retA (row # rows, n + m)))"

definition modbus_now :: "'d modbus_lib \<Rightarrow> 'd objs \<Rightarrow> gtime \<times> 'd objs" where
  "modbus_now L w = (case mb_Now L (so_ext w) of (t, d) \<Rightarrow> (t, w\<lparr> so_ext := d \<rparr>))"

definition modbus_poll :: "'d modbus_lib \<Rightarrow> SourceConfig \<Rightarrow> nat \<Rightarrow> LoadConfig \<Rightarrow> 'd objs \<Rightarrow> (ReadResult \<times> polled) \<times> 'd objs" where
  "modbus_poll L cfg obj load w =
     (case modbus_now L w of (start, w0) \<Rightarrow>
      let result = new_ReadResult start in
      case sc_Telemetry cfg of
        None \<Rightarrow> ((result, PollFails (Errorf ''modbus telemetry catalog not configured'' [])), w0)
      | Some cat \<Rightarrow>
          (case tc_ListModbusTags cat (lc_LoadID load) of
             Inl e \<Rightarrow> ((result, PollFails (wrapf ''load tags'' e)), w0)
           | Inr tags \<Rightarrow>
               (case modbus_now L w0 of (t, w1) \<Rightarrow>
                if tags = [] then ((result, PollNothing t), w1)
                else
                  (case with_conn nil_deref obj (\<lambda>c. poll_tags L c t tags) w1 of
                     (Inl p, w2) \<Rightarrow> ((result, PollFails p), w2)
                   | (Inr (rows, n), w2) \<Rightarrow>
                       ((result\<lparr> rr_RowsRead := n \<rparr>, PollBatch \<lparr> b_Columns = modbus_columns, b_Rows = rows \<rparr>),
                        w2\<lparr> so_ext := mb_Metrics L (ObserveBadQuality (lc_Name load) (bad_rows rows)) (so_ext w2) \<rparr>)))))"

definition modbus_Read :: "'d modbus_lib \<Rightarrow> SourceConfig \<Rightarrow> nat \<Rightarrow> ('d objs, 'x) ReadFn" where
  "modbus_Read L cfg obj = poll_read (modbus_now L) (modbus_poll L cfg obj)"

section \<open>The source\<close>

text \<open>\<^verbatim>\<open>Atoi\<close> returns 0 with a syntax error and the nearest bound with a range error.\<close>

definition Atoi_value :: "string \<Rightarrow> int" where
  "Atoi_value s =
     (case atoi s of
        Inr v \<Rightarrow> v
      | Inl e \<Rightarrow> if e = ErrExt ''value out of range'' then (if hd s = CHR ''-'' then - (2 ^ 63) else 2 ^ 63 - 1) else 0)"

definition millisecond_ns :: int where
  "millisecond_ns = 1000000"

definition modbus_Open :: "'d modbus_lib \<Rightarrow> SourceConfig \<Rightarrow> nat \<Rightarrow> ('d objs, unit) act" where
  "modbus_Open L cfg obj =
     (let host = get_str (sc_Params cfg) ''host'';
          port0 = get_str (sc_Params cfg) ''port'';
          port = (if port0 = [] then ''502'' else port0);
          ms0 = Atoi_value (get_str (sc_Params cfg) ''timeout_ms'');
          timeoutMS = (if ms0 \<le> 0 then 2000 else ms0);
          u = \<lparr> u_Scheme = ''tcp'', u_User = None, u_Host = host @ '':'' @ port, u_Path = [], u_RawQuery = [] \<rparr>
      in if host = [] then failA (Errorf ''modbus source requires 'host' param'' [])
         else
           bindA (wrapA (wrapf ''build modbus client'') (on_ext (mb_NewClient L (URL_String u) (wrap64 (timeoutMS * millisecond_ns))))) (\<lambda>c.
           bindA (wrapA (wrapf ''open modbus client'') (on_ext (mb_Open L c))) (\<lambda>_.
           set_conn obj c)))"

definition modbus_Ping :: "nat \<Rightarrow> ('d objs, unit) act" where
  "modbus_Ping obj = with_conn (Errorf ''source not open'' []) obj (\<lambda>_. retA ())"

definition modbus_Close :: "'d modbus_lib \<Rightarrow> nat \<Rightarrow> ('d objs, unit) act" where
  "modbus_Close L obj = close_conn (mb_Close L) obj"

definition modbus_source :: "'d modbus_lib \<Rightarrow> SourceConfig \<Rightarrow> nat \<Rightarrow> ('d objs, 'x) Source" where
  "modbus_source L cfg obj =
     \<lparr> src_obj = obj, src_Kind = modbus_kind, src_Open = modbus_Open L cfg obj, src_Ping = modbus_Ping obj,
       src_Read = modbus_Read L cfg obj, src_Close = modbus_Close L obj \<rparr>"

definition modbus_New :: "'d modbus_lib \<Rightarrow> ('d objs, 'x) SourceFactory" where
  "modbus_New L cfg = bindA new_object (\<lambda>obj. retA (modbus_source L cfg obj))"

section \<open>Words in another order\<close>

lemma swap_loop_nth:
  assumes "i + k = words" and "2 * words \<le> length out"
  shows "length (swap_loop buf words i k out) = length out \<and>
    (\<forall>j < length out. swap_loop buf words i k out ! j =
      (if 2 * i \<le> j \<and> j < 2 * words then buf ! ((words - 1 - j div 2) * 2 + j mod 2) else out ! j))"
  using assms
proof (induction k arbitrary: i out)
  case (Suc k)
  let ?out = "out[i * 2 := buf ! ((words - 1 - i) * 2), i * 2 + 1 := buf ! ((words - 1 - i) * 2 + 1)]"
  have IH: "length (swap_loop buf words (i + 1) k ?out) = length ?out \<and>
    (\<forall>j < length ?out. swap_loop buf words (i + 1) k ?out ! j =
      (if 2 * (i + 1) \<le> j \<and> j < 2 * words then buf ! ((words - 1 - j div 2) * 2 + j mod 2) else ?out ! j))"
    using Suc.prems by (intro Suc.IH) auto
  have step: "swap_loop buf words i (Suc k) out = swap_loop buf words (i + 1) k ?out"
    by (simp add: Let_def)
  show ?case
    unfolding step
  proof (intro conjI allI impI)
    fix j assume j: "j < length out"
    have "j = 2 * i \<or> j = 2 * i + 1 \<or> j < 2 * i \<or> 2 * (i + 1) \<le> j" by arith
    then show "swap_loop buf words (i + 1) k ?out ! j =
      (if 2 * i \<le> j \<and> j < 2 * words then buf ! ((words - 1 - j div 2) * 2 + j mod 2) else out ! j)"
      using IH j Suc.prems by (elim disjE) (auto simp: nth_list_update)
  qed (use IH in simp)
qed auto

definition two_bytes :: "byte \<times> byte \<Rightarrow> byte list" where
  "two_bytes = (\<lambda>(a, b). [a, b])"

lemma length_two_bytes [simp]: "length (concat (map two_bytes ps)) = 2 * length ps"
  by (induction ps) (auto simp: two_bytes_def)

lemma nth_two_bytes:
  "j < 2 * length ps \<Longrightarrow> concat (map two_bytes ps) ! j = (if even j then fst else snd) (ps ! (j div 2))"
proof (induction ps arbitrary: j)
  case (Cons p ps)
  obtain a b where p: "p = (a, b)" by fastforce
  consider "j = 0" | "j = 1" | k where "j = k + 2" by (metis One_nat_def add_2_eq_Suc' not0_implies_Suc)
  then show ?case
    by cases (use Cons p in \<open>auto simp: two_bytes_def\<close>)
qed simp

lemma swapWords_pairs: "swapWords (concat (map two_bytes ps)) = concat (map two_bytes (rev ps))"
proof (rule nth_equalityI)
  let ?buf = "concat (map two_bytes ps)" and ?n = "length ps"
  note sl = swap_loop_nth [of 0 ?n ?n "replicate (2 * ?n) 0" ?buf, simplified]
  have sw: "swapWords ?buf = swap_loop ?buf ?n 0 ?n (replicate (2 * ?n) 0)"
    by (simp add: swapWords_def Let_def)
  show "length (swapWords ?buf) = length (concat (map two_bytes (rev ps)))"
    using sl by (simp only: sw) simp
  fix j assume "j < length (swapWords ?buf)"
  then have j: "j < 2 * ?n" using sl by (simp add: sw)
  then have d: "j div 2 < ?n" by simp
  have "(?n - 1 - j div 2) * 2 + j mod 2 < 2 * ?n"
    using d by linarith
  then have "swapWords ?buf ! j = (if even ((?n - 1 - j div 2) * 2 + j mod 2) then fst else snd) (ps ! (((?n - 1 - j div 2) * 2 + j mod 2) div 2))"
    using sl j by (simp only: sw) (simp add: nth_two_bytes)
  also have "((?n - 1 - j div 2) * 2 + j mod 2) div 2 = ?n - 1 - j div 2"
    by simp
  also have "even ((?n - 1 - j div 2) * 2 + j mod 2) = even j"
    by (simp add: even_iff_mod_2_eq_zero)
  also have "(if even j then fst else snd) (ps ! (?n - 1 - j div 2)) = concat (map two_bytes (rev ps)) ! j"
    using j d by (simp add: nth_two_bytes rev_nth)
  finally show "swapWords ?buf ! j = concat (map two_bytes (rev ps)) ! j" .
qed

definition reg_bytes :: "16 word \<Rightarrow> byte \<times> byte" where
  "reg_bytes r = (ucast (drop_bit 8 r), ucast r)"

lemma PutUint16_pairs: "concat (map PutUint16_BE regs) = concat (map two_bytes (map reg_bytes regs))"
  by (induction regs) (simp_all add: PutUint16_BE_def two_bytes_def reg_bytes_def)

lemma reg_buffer_order:
  "reg_buffer tag regs =
     concat (map PutUint16_BE (if EqualFold (mp_WordOrder tag) ''low_first'' then rev regs else regs))"
proof (cases "2 \<le> length regs")
  case True
  then show ?thesis
    by (simp add: reg_buffer_def Let_def PutUint16_pairs swapWords_pairs rev_map del: map_map)
next
  case False
  then have "rev regs = regs"
    by (cases regs) (auto simp: Suc_le_eq)
  then show ?thesis
    using False by (simp add: reg_buffer_def Let_def)
qed

section \<open>Decoding what was encoded\<close>

text \<open>The bytes and the registers of a word, most significant first.\<close>

definition be_bytes :: "nat \<Rightarrow> 'a::len word \<Rightarrow> byte list" where
  "be_bytes n w = map (\<lambda>i. ucast (drop_bit (8 * i) w)) (rev [0..<n])"

definition be_regs :: "nat \<Rightarrow> 'a::len word \<Rightarrow> 16 word list" where
  "be_regs n w = map (\<lambda>i. ucast (drop_bit (16 * i) w)) (rev [0..<n])"

lemma length_be [simp]: "length (be_bytes n w) = n" "length (be_regs n w) = n"
  by (simp_all add: be_bytes_def be_regs_def)

lemma rev_upt_Suc: "rev [0..<Suc n] = map Suc (rev [0..<n]) @ [0]"
  by (simp only: rev_map [symmetric] map_Suc_upt upt_conv_Cons rev.simps zero_less_Suc One_nat_def)

lemma be_bytes_Suc: "be_bytes (Suc n) w = be_bytes n (drop_bit 8 w) @ [ucast w]"
  unfolding be_bytes_def rev_upt_Suc by (simp add: comp_def add.commute)

lemma be_regs_Suc: "be_regs (Suc n) w = be_regs n (drop_bit 16 w) @ [ucast w]"
  unfolding be_regs_def rev_upt_Suc by (simp add: comp_def add.commute)

lemma byte_shift: "push_bit 8 (take_bit (8 * n) (drop_bit 8 w)) OR ucast (ucast w :: byte) = take_bit (8 * Suc n) (w :: 'a::len word)"
  by (rule bit_word_eqI) (auto simp: bit_simps)

lemma fold_be_bytes: "foldl (\<lambda>v b. push_bit 8 v OR ucast b) 0 (be_bytes n w) = take_bit (8 * n) (w :: 'a::len word)"
proof (induction n arbitrary: w)
  case 0
  then show ?case by (simp add: be_bytes_def)
next
  case (Suc n)
  show ?case
    unfolding be_bytes_Suc by (simp add: Suc.IH byte_shift del: mult_Suc_right)
qed

lemma Uint_BE_be_bytes: "LENGTH('a) = 8 * n \<Longrightarrow> Uint_BE n (be_bytes n w @ rest) = (w :: 'a::len word)"
  by (simp add: Uint_BE_def fold_be_bytes) (metis take_bit_length_eq)

lemma Uint_LE_BE: "Uint_LE n buf = Uint_BE n (rev (take n buf))"
  by (simp add: Uint_LE_def Uint_BE_def foldl_conv_foldr)

lemma be_regs_bytes: "concat (map PutUint16_BE (be_regs n w)) = be_bytes (2 * n) w"
proof (induction n arbitrary: w)
  case 0
  then show ?case by (simp add: be_regs_def be_bytes_def)
next
  case (Suc n)
  have "ucast (drop_bit 8 (ucast w :: 16 word)) = (ucast (drop_bit 8 w) :: byte)"
    by (rule bit_word_eqI) (auto simp: bit_simps)
  moreover have "ucast (ucast w :: 16 word) = (ucast w :: byte)"
    by (rule bit_word_eqI) (auto simp: bit_simps)
  ultimately show ?case
    by (simp add: be_regs_Suc Suc.IH be_bytes_Suc) (simp add: PutUint16_BE_def)
qed

text \<open>The values a tag can have, with their data type, their registers and the number they stand for.\<close>

datatype reg_num =
    RInt16 "16 word" | RUint16 "16 word" | RInt32 "32 word" | RUint32 "32 word"
  | RInt64 "64 word" | RUint64 "64 word" | RFloat32 "32 word" | RFloat64 "64 word"

fun num_type :: "reg_num \<Rightarrow> string" where
  "num_type (RInt16 _) = ''int16''"
| "num_type (RUint16 _) = ''uint16''"
| "num_type (RInt32 _) = ''int32''"
| "num_type (RUint32 _) = ''uint32''"
| "num_type (RInt64 _) = ''int64''"
| "num_type (RUint64 _) = ''uint64''"
| "num_type (RFloat32 _) = ''float32''"
| "num_type (RFloat64 _) = ''float64''"

fun num_regs :: "reg_num \<Rightarrow> 16 word list" where
  "num_regs (RInt16 w) = be_regs 1 w"
| "num_regs (RUint16 w) = be_regs 1 w"
| "num_regs (RInt32 w) = be_regs 2 w"
| "num_regs (RUint32 w) = be_regs 2 w"
| "num_regs (RInt64 w) = be_regs 4 w"
| "num_regs (RUint64 w) = be_regs 4 w"
| "num_regs (RFloat32 w) = be_regs 2 w"
| "num_regs (RFloat64 w) = be_regs 4 w"

fun num_float :: "reg_num \<Rightarrow> f64" where
  "num_float (RInt16 w) = f64_of_int (sint w)"
| "num_float (RUint16 w) = f64_of_int (uint w)"
| "num_float (RInt32 w) = f64_of_int (sint w)"
| "num_float (RUint32 w) = f64_of_int (uint w)"
| "num_float (RInt64 w) = f64_of_int (sint w)"
| "num_float (RUint64 w) = f64_of_int (uint w)"
| "num_float (RFloat32 w) = f64_of_f32bits w"
| "num_float (RFloat64 w) = f64_of_bits w"

lemma decode_num_regs:
  assumes "ToLower ty = num_type v" and "\<not> EqualFold bo ''little''"
  shows "decodeNumeric (concat (map PutUint16_BE (num_regs v))) ty bo = Inr (num_float v)"
proof -
  have b: "Uint False 2 (be_bytes 2 w) = (w :: 16 word)" "Uint False 4 (be_bytes 4 u) = (u :: 32 word)"
    "Uint False 8 (be_bytes 8 x) = (x :: 64 word)" for w u x
    using Uint_BE_be_bytes [of 2 w "[]"] Uint_BE_be_bytes [of 4 u "[]"] Uint_BE_be_bytes [of 8 x "[]"]
    by (simp_all add: Uint_def)
  show ?thesis
    using assms by (cases v) (simp_all add: decodeNumeric_def Let_def be_regs_bytes b)
qed

text \<open>
  (C19) A tag is decoded as what it is. Let the registers of a tag hold a value of its data type, high word
  first, or low word first if the tag says so, with big-endian bytes. Then \<^verbatim>\<open>quantityFor\<close> asks for just as
  many registers (unless the tag overrides it), and the decoded value is the number scaled and shifted, or
  the NaN/Inf error when that is no finite number.
\<close>

theorem reg_value_decodes:
  assumes "ToLower (mp_DataType tag) = num_type v" and "\<not> EqualFold (mp_ByteOrder tag) ''little''"
    and "regs = (if EqualFold (mp_WordOrder tag) ''low_first'' then rev (num_regs v) else num_regs v)"
  shows "reg_value tag regs =
      (let scaled = f64_add (f64_mul (num_float v) (mp_Scale tag)) (mp_Offset tag) in
       if IsNaN scaled \<or> IsInf scaled then Inl (Errorf ''decoded value is NaN/Inf'' []) else Inr scaled) \<and>
    quantityFor (mp_DataType tag) 0 = of_nat (length regs)"
proof
  have "reg_buffer tag regs = concat (map PutUint16_BE (num_regs v))"
    unfolding reg_buffer_order using assms(3) by simp
  then show "reg_value tag regs =
      (let scaled = f64_add (f64_mul (num_float v) (mp_Scale tag)) (mp_Offset tag) in
       if IsNaN scaled \<or> IsInf scaled then Inl (Errorf ''decoded value is NaN/Inf'' []) else Inr scaled)"
    using decode_num_regs [OF assms(1,2)] by (simp add: reg_value_def)
  show "quantityFor (mp_DataType tag) 0 = of_nat (length regs)"
    using assms(1,3) by (cases v) (simp_all add: quantityFor_def Let_def)
qed

definition demo_tag :: ModbusPoint where
  "demo_tag = \<lparr> mp_CorrelationID = [], mp_TagName = ''t1'', mp_UnitID = 1, mp_RegisterType = ''holding'', mp_Address = 100,
     mp_Quantity = 0, mp_DataType = ''int32'', mp_ByteOrder = ''big'', mp_WordOrder = ''low_first'',
     mp_Scale = f64_one, mp_Offset = f64_one \<rparr>"

theorem reg_value_decodes_witness: "reg_value demo_tag [0xFFFE, 0xFFFF] = Inr (f64_of_int (- 1))"
proof -
  have s: "ToLower ''int32'' = ''int32''" "\<not> EqualFold ''big'' ''little''" "EqualFold ''low_first'' ''low_first''"
    by code_simp+
  then have d: "ToLower (mp_DataType demo_tag) = num_type (RInt32 (- 2))" "\<not> EqualFold (mp_ByteOrder demo_tag) ''little''"
    "EqualFold (mp_WordOrder demo_tag) ''low_first''"
    by (simp_all add: demo_tag_def)
  have "be_regs 2 (- 2 :: 32 word) = [0xFFFF, 0xFFFE]"
    by code_simp
  with d(3) have r: "[0xFFFE, 0xFFFF] = (if EqualFold (mp_WordOrder demo_tag) ''low_first'' then rev (num_regs (RInt32 (- 2)))
      else num_regs (RInt32 (- 2)))"
    by simp
  have v: "f64_add (f64_mul (num_float (RInt32 (- 2))) (mp_Scale demo_tag)) (mp_Offset demo_tag) = f64_of_int (- 1)"
    by (simp add: demo_tag_def float_simps)
  have f: "\<not> (IsNaN (f64_of_int (- 1)) \<or> IsInf (f64_of_int (- 1)))"
    by (simp add: IsNaN_def IsInf_def float_simps)
  show ?thesis
    using reg_value_decodes [OF d(1,2) r] unfolding Let_def v using f by simp
qed

section \<open>The rows of a poll\<close>

definition finite_float :: "f64 \<Rightarrow> bool" where
  "finite_float v \<longleftrightarrow> \<not> IsNaN v \<and> \<not> IsInf v"

text \<open>
  What the row of a tag is like: every column has a value; a good row has exactly one of a finite number and
  a truth value and no text, a bad row has the reason as its text and neither.
\<close>

definition tag_fields :: "gtime \<Rightarrow> ModbusPoint \<Rightarrow> Row \<Rightarrow> bool" where
  "tag_fields ts tag row \<longleftrightarrow>
     dom row = c_Name ` set modbus_columns \<and> row ''correlation_id'' = Some (nullIfEmpty (mp_CorrelationID tag)) \<and>
     row ''tag_name'' = Some (VString (mp_TagName tag)) \<and> row ''ts'' = Some (VTime ts)"

definition good_point :: "Row \<Rightarrow> bool" where
  "good_point row \<longleftrightarrow>
     row ''quality'' = Some (VString ''good'') \<and> row ''value_text'' = Some VNil \<and>
     ((\<exists>v. finite_float v \<and> row ''value_num'' = Some (VFloat64 v) \<and> row ''value_bool'' = Some VNil) \<or>
      (\<exists>b. row ''value_num'' = Some VNil \<and> row ''value_bool'' = Some (VBool b)))"

definition bad_point :: "Row \<Rightarrow> bool" where
  "bad_point row \<longleftrightarrow>
     row ''quality'' = Some (VString ''bad'') \<and> row ''value_num'' = Some VNil \<and> row ''value_bool'' = Some VNil \<and>
     (\<exists>msg. row ''value_text'' = Some (VString msg))"

definition tag_ok :: "gtime \<Rightarrow> ModbusPoint \<Rightarrow> Row \<Rightarrow> bool" where
  "tag_ok ts tag row \<longleftrightarrow> tag_fields ts tag row \<and> (good_point row \<or> bad_point row)"

lemma modbus_names: "c_Name ` set modbus_columns =
    {''correlation_id'', ''tag_name'', ''ts'', ''value_num'', ''value_bool'', ''value_text'', ''quality''}"
  by (simp add: modbus_columns_def)

lemma tag_fields_row: "tag_fields ts tag (tag_row ts tag)"
  unfolding tag_fields_def modbus_names by (auto simp: tag_row_def)

lemma tag_fields_upd:
  "tag_fields ts tag row \<Longrightarrow> k \<in> {''value_num'', ''value_bool'', ''value_text'', ''quality''} \<Longrightarrow> tag_fields ts tag (row(k \<mapsto> v))"
  unfolding tag_fields_def modbus_names by auto

lemma bad_tag_ok: "tag_ok ts tag (bad_tag (tag_row ts tag) msg)"
  by (auto simp: tag_ok_def bad_tag_def bad_point_def intro!: tag_fields_upd tag_fields_row) (auto simp: tag_row_def)

lemma num_tag_ok: "finite_float v \<Longrightarrow> tag_ok ts tag ((tag_row ts tag)(''value_num'' \<mapsto> VFloat64 v))"
  unfolding tag_ok_def
  by (intro conjI disjI1 tag_fields_upd tag_fields_row) (auto simp: good_point_def tag_row_def)

lemma bool_tag_ok: "tag_ok ts tag ((tag_row ts tag)(''value_bool'' \<mapsto> VBool v))"
  unfolding tag_ok_def
  by (intro conjI disjI1 tag_fields_upd tag_fields_row) (auto simp: good_point_def tag_row_def)

lemma reg_value_finite: "reg_value tag regs = Inr v \<Longrightarrow> finite_float v"
  by (auto simp: reg_value_def finite_float_def bind_res_Inr_iff Let_def split: if_splits)

lemma readTagInto_ok:
  assumes "readTagInto L c tag (tag_row ts tag) d = (Inr (row, err), d')"
  shows "if err = None then tag_ok ts tag row else row = tag_row ts tag"
  using assms
  by (auto simp: readTagInto_def readRegisters_def first_bit_def Let_def reg_value_finite num_tag_ok bool_tag_ok
      split: if_splits prod.splits sum.splits list.splits)

lemma poll_tag_ok: "poll_tag L c ts tag d = (Inr (row, n), d') \<Longrightarrow> tag_ok ts tag row \<and> 0 \<le> n \<and> n \<le> 1"
  by (auto simp: poll_tag_def Let_def bad_tag_ok split: prod.splits sum.splits option.splits dest!: readTagInto_ok)

lemma poll_tags_ok:
  "poll_tags L c ts tags d = (Inr (rows, n), d') \<Longrightarrow> list_all2 (tag_ok ts) tags rows \<and> 0 \<le> n \<and> n \<le> int (length tags)"
proof (induction tags arbitrary: d rows n)
  case (Cons tag tags)
  then obtain row k rows' m d1 where "poll_tag L c ts tag d = (Inr (row, k), d1)"
    "poll_tags L c ts tags d1 = (Inr (rows', m), d')" "rows = row # rows'" "n = k + m"
    by (auto elim!: bindA_InrE)
  then show ?case
    using Cons.IH [of d1 rows' m] poll_tag_ok [of L c ts tag d row k d1] by auto
qed simp

definition modbus_offers :: "'d modbus_lib \<Rightarrow> SourceConfig \<Rightarrow> nat \<Rightarrow> LoadConfig \<Rightarrow> 'd objs \<Rightarrow> Batch list" where
  "modbus_offers L cfg obj = poll_offers (modbus_poll L cfg obj)"

lemma modbus_reader: "source_reader (modbus_Read L cfg obj) (modbus_offers L cfg obj)"
  unfolding modbus_Read_def modbus_offers_def by (rule poll_reader)

text \<open>
  (C21) A poll gives one row for each tag. A Modbus read without error, of a load with tags, has called the
  handler once, with one batch that has the telemetry columns and one row for each tag, in the order of the
  tags. Every row has all columns, the tag's name and the time of the poll; it is good, with exactly one of
  a finite number and a truth value, or bad, with the reason as its text and no value.
\<close>

theorem modbus_Read_rows:
  assumes "modbus_Read L cfg obj load h w x = ((rr, None), w', x')"
    and "sc_Telemetry cfg = Some cat" and "tc_ListModbusTags cat (lc_LoadID load) = Inr tags" and "tags \<noteq> []"
  shows "\<exists>b ts. modbus_offers L cfg obj load w = [b] \<and> h b x = (Inr (), x') \<and> b_Columns b = modbus_columns \<and>
    list_all2 (tag_ok ts) tags (b_Rows b) \<and> 0 \<le> rr_RowsRead rr \<and> rr_RowsRead rr \<le> int (length tags)"
proof -
  obtain t0 w0 where n0: "modbus_now L w = (t0, w0)" by fastforce
  obtain ts w1 where n1: "modbus_now L w0 = (ts, w1)" by fastforce
  obtain r w2 where p: "with_conn nil_deref obj (\<lambda>c. poll_tags L c ts tags) w1 = (r, w2)" by fastforce
  show ?thesis
  proof (cases r)
    case (Inl e)
    then show ?thesis
      using assms n0 n1 p by (simp add: modbus_Read_def poll_read_def modbus_poll_def Let_def)
  next
    case (Inr rn)
    obtain rows n where rn: "rn = (rows, n)" by fastforce
    let ?b = "\<lparr> b_Columns = modbus_columns, b_Rows = rows \<rparr>"
    have off: "modbus_offers L cfg obj load w = [?b]"
      using assms n0 n1 p Inr rn by (simp add: modbus_offers_def poll_offers_def modbus_poll_def Let_def)
    have hb: "h ?b x = (Inr (), x') \<and> rr_RowsRead rr = n"
      using assms n0 n1 p Inr rn
      by (auto simp: modbus_Read_def poll_read_def modbus_poll_def Let_def emit_batch_def split: prod.splits sum.splits)
    have "list_all2 (tag_ok ts) tags rows \<and> 0 \<le> n \<and> n \<le> int (length tags)"
      using p Inr rn by (auto elim!: with_conn_InrE dest: poll_tags_ok)
    then show ?thesis
      using off hb by (intro exI [of _ ?b] exI [of _ ts]) simp
  qed
qed

section \<open>The byte order on the wire\<close>

text \<open>
  What the client library does with the registers it receives: \<^verbatim>\<open>SetEncoding\<close> chooses the byte order in which
  the 16-bit registers of the following requests are decoded; it does not change what the device sends.
  \<open>payload\<close> is the two bytes of each register as they are on the wire.
\<close>

definition lib_regs :: "Endianness \<Rightarrow> (byte \<times> byte) list \<Rightarrow> 16 word list" where
  "lib_regs e ps = map (\<lambda>p. if e = LITTLE_ENDIAN then Uint_LE 2 (two_bytes p) else Uint_BE 2 (two_bytes p)) ps"

locale modbus_wire =
  fixes L :: "'d modbus_lib"
    and encode :: "nat \<Rightarrow> Endianness \<Rightarrow> WordOrder \<Rightarrow> 'd \<Rightarrow> 'd"
    and payload :: "nat \<Rightarrow> 16 word \<Rightarrow> 16 word \<Rightarrow> RegType \<Rightarrow> ('d, (byte \<times> byte) list) act"
  assumes set_encoding: "mb_SetEncoding L c e wo d = (Inr (), encode c e wo d)"
    and read_registers: "mb_ReadRegisters L c a q rt (encode c e wo d) =
      (case payload c a q rt d of (r, d') \<Rightarrow> (map_sum id (lib_regs e) r, encode c e wo d'))"

lemma two_uints: "Uint_LE 2 (b # a # xs) = (Uint_BE 2 (a # b # ys) :: 'a::len word)"
  by (simp add: Uint_LE_def Uint_BE_def numeral_2_eq_2)

lemma reg_bytes_Uint: "reg_bytes (Uint_BE 2 [a, b]) = (a, b)" "reg_bytes (Uint_LE 2 [a, b]) = (b, a)"
  unfolding reg_bytes_def Uint_BE_def Uint_LE_def
  by (auto simp: numeral_2_eq_2 intro!: bit_word_eqI) (auto simp: bit_simps dest: bit_imp_le_length)

lemma lib_regs_buffer:
  "concat (map PutUint16_BE (lib_regs e ps)) =
     concat (map two_bytes (if e = LITTLE_ENDIAN then map prod.swap ps else ps))"
proof -
  have "map reg_bytes (lib_regs e ps) = (if e = LITTLE_ENDIAN then map prod.swap ps else ps)"
    by (induction ps) (auto simp: lib_regs_def two_bytes_def reg_bytes_Uint)
  then show ?thesis
    by (simp add: PutUint16_pairs)
qed

lemma reg_buffer_lib:
  "reg_buffer tag (lib_regs e ps) =
     (let qs = (if EqualFold (mp_WordOrder tag) ''low_first'' then rev ps else ps)
      in concat (map two_bytes (if e = LITTLE_ENDIAN then map prod.swap qs else qs)))"
proof -
  have "rev (lib_regs e ps) = lib_regs e (rev ps)" for e
    by (simp add: lib_regs_def rev_map)
  then show ?thesis
    unfolding reg_buffer_order Let_def by (simp add: lib_regs_buffer del: map_map)
qed

lemma decode16_swap:
  assumes "ToLower ty = ''int16'' \<or> ToLower ty = ''uint16''" and "EqualFold lo ''little''" and "\<not> EqualFold bo ''little''"
  shows "decodeNumeric (concat (map two_bytes (map prod.swap ps))) ty lo = decodeNumeric (concat (map two_bytes ps)) ty bo"
proof (cases ps)
  case Nil
  then show ?thesis using assms by (auto simp: decodeNumeric_def Let_def)
next
  case (Cons p qs)
  obtain a b where "p = (a, b)" by fastforce
  then show ?thesis
    using assms Cons by (auto simp: decodeNumeric_def Let_def Uint_def two_bytes_def two_uints [where ys = "concat (map two_bytes qs)"])
qed

context modbus_wire
begin

lemma poll_tag_16:
  assumes "ToLower (mp_DataType tag) = ''int16'' \<or> ToLower (mp_DataType tag) = ''uint16''"
    and "ToLower (mp_RegisterType tag) = ''holding'' \<or> ToLower (mp_RegisterType tag) = ''input''"
    and "EqualFold lo ''little''" and "\<not> EqualFold bo ''little''"
  shows "fst (poll_tag L c ts (tag\<lparr> mp_ByteOrder := lo \<rparr>) d) = fst (poll_tag L c ts (tag\<lparr> mp_ByteOrder := bo \<rparr>) d)"
proof -
  have v: "reg_value (tag\<lparr> mp_ByteOrder := lo \<rparr>) (lib_regs LITTLE_ENDIAN ps) = reg_value (tag\<lparr> mp_ByteOrder := bo \<rparr>) (lib_regs BIG_ENDIAN ps)" for ps
    unfolding reg_value_def reg_buffer_lib using decode16_swap [OF assms(1,3,4)] by (simp add: Let_def)
  have ni: "''holding'' \<noteq> ''coil''" "''input'' \<noteq> ''coil''" "''holding'' \<noteq> ''discrete''" "''input'' \<noteq> ''discrete''"
    by simp_all
  have r: "readTagInto L c (tag\<lparr> mp_ByteOrder := o1 \<rparr>) row = readRegisters L c (tag\<lparr> mp_ByteOrder := o1 \<rparr>) row" for o1 row
    using assms(2) by (auto simp: readTagInto_def Let_def)
  show ?thesis
    using assms(3,4) v
    by (auto simp: poll_tag_def Let_def set_encoding r readRegisters_def read_registers endianness_def tag_row_def map_sum_def
        split: prod.splits sum.splits)
qed

end

section \<open>A device in memory\<close>

text \<open>A device that answers all units but the dead ones, with its registers as wire bytes and its coils.\<close>

record memplc =
  mq_enc :: Endianness
  mq_bytes :: "16 word \<Rightarrow> byte \<times> byte"
  mq_coils :: "16 word \<Rightarrow> bool"
  mq_dead :: "byte list"
  mq_time :: gtime
  mq_metrics :: metrics

definition plc_encode :: "nat \<Rightarrow> Endianness \<Rightarrow> WordOrder \<Rightarrow> memplc \<Rightarrow> memplc" where
  "plc_encode c e wo d = d\<lparr> mq_enc := e \<rparr>"

definition plc_payload :: "nat \<Rightarrow> 16 word \<Rightarrow> 16 word \<Rightarrow> RegType \<Rightarrow> (memplc, (byte \<times> byte) list) act" where
  "plc_payload c a q rt d = (Inr (map (\<lambda>i. mq_bytes d (a + of_nat i)) [0..<unat q]), d)"

definition plc_bits :: "nat \<Rightarrow> 16 word \<Rightarrow> 16 word \<Rightarrow> (memplc, bool list) act" where
  "plc_bits c a q d = (Inr (map (\<lambda>i. mq_coils d (a + of_nat i)) [0..<unat q]), d)"

definition mem_plc :: "memplc modbus_lib" where
  "mem_plc =
     \<lparr> mb_NewClient = (\<lambda>url timeout. retA 0), mb_Open = (\<lambda>c. retA ()), mb_Close = (\<lambda>c. retA ()),
       mb_SetUnitId = (\<lambda>c u d. if u \<in> set (mq_dead d) then (Inl (ErrExt ''no such unit''), d) else (Inr (), d)),
       mb_SetEncoding = (\<lambda>c e wo d. (Inr (), plc_encode c e wo d)),
       mb_ReadCoils = plc_bits, mb_ReadDiscreteInputs = plc_bits,
       mb_ReadRegisters = (\<lambda>c a q rt d. case plc_payload c a q rt d of (r, d') \<Rightarrow> (map_sum id (lib_regs (mq_enc d)) r, d')),
       mb_Now = (\<lambda>d. (mq_time d, d\<lparr> mq_time := mq_time d + 1 \<rparr>)),
       mb_Metrics = (\<lambda>f d. d\<lparr> mq_metrics := f (mq_metrics d) \<rparr>) \<rparr>"

interpretation plc: modbus_wire mem_plc plc_encode plc_payload
  by unfold_locales (simp_all add: mem_plc_def plc_encode_def plc_payload_def)

definition demo_plc :: memplc where
  "demo_plc = \<lparr> mq_enc = BIG_ENDIAN, mq_bytes = (\<lambda>a. (1, 0)), mq_coils = (\<lambda>a. True), mq_dead = [9], mq_time = 0, mq_metrics = [] \<rparr>"

definition coil_tag :: "byte \<Rightarrow> ModbusPoint" where
  "coil_tag u = \<lparr> mp_CorrelationID = [], mp_TagName = ''c'', mp_UnitID = u, mp_RegisterType = ''coil'', mp_Address = 3,
     mp_Quantity = 0, mp_DataType = ''int16'', mp_ByteOrder = ''big'', mp_WordOrder = ''high_first'', mp_Scale = NaN, mp_Offset = NaN \<rparr>"

definition demo_plc_cfg :: SourceConfig where
  "demo_plc_cfg = \<lparr> sc_SourceID = 1, sc_SourceType = ''modbus'', sc_Name = ''plc'', sc_Params = [(''host'', ''h'')],
     sc_Telemetry = Some \<lparr> tc_ListModbusTags = (\<lambda>_. Inr [coil_tag 1, coil_tag 9]), tc_ListOPCUANodes = (\<lambda>_. Inr []) \<rparr> \<rparr>"

definition demo_plc_load :: LoadConfig where
  "demo_plc_load = \<lparr> lc_LoadID = 1, lc_Name = ''l'', lc_ObjectName = [], lc_Mode = ''append'', lc_WatermarkColumn = [],
     lc_WatermarkType = ''none'', lc_LastWatermark = no_watermark, lc_BatchSize = 0 \<rparr>"

definition demo_plc_world :: "memplc objs" where
  "demo_plc_world = \<lparr> so_next = 1, so_conn = (\<lambda>_. Some 0), so_ext = demo_plc \<rparr>"

definition keep_batch :: "Batch list BatchHandler" where
  "keep_batch b bs = (Inr (), bs @ [b])"

theorem modbus_Read_rows_witness:
  "\<exists>b ts. snd (snd (modbus_Read mem_plc demo_plc_cfg 0 demo_plc_load keep_batch demo_plc_world [])) = [b] \<and>
     list_all2 (tag_ok ts) [coil_tag 1, coil_tag 9] (b_Rows b)"
proof -
  obtain rr err w' x' where rd: "modbus_Read mem_plc demo_plc_cfg 0 demo_plc_load keep_batch demo_plc_world [] = ((rr, err), w', x')"
    by (metis prod.collapse)
  have "snd (fst (modbus_Read mem_plc demo_plc_cfg 0 demo_plc_load keep_batch demo_plc_world [])) = None"
    by code_simp
  with rd have "modbus_Read mem_plc demo_plc_cfg 0 demo_plc_load keep_batch demo_plc_world [] = ((rr, None), w', x')"
    by simp
  from modbus_Read_rows [OF this, of _ "[coil_tag 1, coil_tag 9]"] rd show ?thesis
    by (auto simp: demo_plc_cfg_def keep_batch_def)
qed

text \<open>
  (C36) The byte order of a 16-bit tag has no effect. With a client library that decodes registers in the byte
  order that \<^verbatim>\<open>SetEncoding\<close> was given, \<^verbatim>\<open>readRegisters\<close> applies the byte order a second time, so an \<^verbatim>\<open>int16\<close> or
  \<^verbatim>\<open>uint16\<close> tag declared little-endian is read as if it were big-endian.
\<close>

theorem poll_tag_byte_order_ignored:
  assumes "modbus_wire L encode payload"
    and "ToLower (mp_DataType tag) = ''int16'' \<or> ToLower (mp_DataType tag) = ''uint16''"
    and "ToLower (mp_RegisterType tag) = ''holding'' \<or> ToLower (mp_RegisterType tag) = ''input''"
    and "EqualFold lo ''little''" and "\<not> EqualFold bo ''little''"
  shows "fst (poll_tag L c ts (tag\<lparr> mp_ByteOrder := lo \<rparr>) d) = fst (poll_tag L c ts (tag\<lparr> mp_ByteOrder := bo \<rparr>) d)"
  by (rule modbus_wire.poll_tag_16 [OF assms])

definition reg_tag :: ModbusPoint where
  "reg_tag = (coil_tag 1)\<lparr> mp_RegisterType := ''holding'' \<rparr>"

theorem poll_tag_byte_order_ignored_witness:
  "fst (poll_tag mem_plc 0 0 (reg_tag\<lparr> mp_ByteOrder := ''little'' \<rparr>) demo_plc) =
     fst (poll_tag mem_plc 0 0 (reg_tag\<lparr> mp_ByteOrder := ''big'' \<rparr>) demo_plc) \<and>
   mq_bytes demo_plc (mp_Address reg_tag) = (1, 0) \<and> (Uint_LE 2 [1, 0] :: 16 word) = 1 \<and> (Uint_BE 2 [1, 0] :: 16 word) = 256"
proof -
  have "ToLower (mp_DataType reg_tag) = ''int16''" "ToLower (mp_RegisterType reg_tag) = ''holding''"
    "EqualFold ''little'' ''little''" "\<not> EqualFold ''big'' ''little''"
    by code_simp+
  then have "fst (poll_tag mem_plc 0 0 (reg_tag\<lparr> mp_ByteOrder := ''little'' \<rparr>) demo_plc) =
     fst (poll_tag mem_plc 0 0 (reg_tag\<lparr> mp_ByteOrder := ''big'' \<rparr>) demo_plc)"
    by (intro poll_tag_byte_order_ignored [OF plc.modbus_wire_axioms]) simp_all
  moreover have "mq_bytes demo_plc (mp_Address reg_tag) = (1, 0)"
    by (simp add: demo_plc_def)
  moreover have "(Uint_LE 2 [1, 0] :: 16 word) = 1" "(Uint_BE 2 [1, 0] :: 16 word) = 256"
    by code_simp+
  ultimately show ?thesis by simp
qed

end
