(* ===== verification/Opcua.thy ===== *)
theory Opcua
  imports SourceObjects Metrics
begin

text \<open>
  \<^verbatim>\<open>internal/sources/opcua/source.go\<close>: one poll of a load's OPC UA nodes. The client library \<^verbatim>\<open>gopcua\<close> is a
  parameter: its operations on the state \<open>'d\<close> behind the connections, the parser of node ids, the status
  codes the source names and the text of a status. \<^verbatim>\<open>Read\<close> of the library gives the response, which may be
  nil, with a result, which may be nil too, for each node that was asked for.
\<close>

definition opcua_kind :: string where
  "opcua_kind = ''opcua''"

section \<open>The client library\<close>

record DataValue =
  dv_Value :: "gval option"
  dv_Status :: "32 word"
  dv_SourceTimestamp :: gtime
  dv_ServerTimestamp :: gtime

datatype ua_option =
    SecurityPolicy string | SecurityModeString string | AuthAnonymous | AuthUsername string string
  | SessionTimeout int | RequestTimeout int

record 'd opcua_lib =
  uo_NewClient :: "string \<Rightarrow> ua_option list \<Rightarrow> ('d, nat) act"
  uo_Connect :: "nat \<Rightarrow> ('d, unit) act"
  uo_Close :: "nat \<Rightarrow> ('d, unit) act"
  uo_Read :: "nat \<Rightarrow> string list \<Rightarrow> ('d, DataValue option list option) act"
  uo_ParseNodeID :: "string \<Rightarrow> string res"
  uo_ServerStatus :: string
  uo_StatusOK :: "32 word"
  uo_StatusBad :: "32 word"
  uo_StatusUncertain :: "32 word"
  uo_StatusText :: "32 word \<Rightarrow> string"
  uo_Now :: "'d \<Rightarrow> gtime \<times> 'd"
  uo_Metrics :: "(metrics \<Rightarrow> metrics) \<Rightarrow> 'd \<Rightarrow> 'd"

section \<open>Options\<close>

definition valueOr :: "strmap \<Rightarrow> string \<Rightarrow> string \<Rightarrow> string" where
  "valueOr m k def = (case map_of m k of Some v \<Rightarrow> if v \<noteq> [] then v else def | None \<Rightarrow> def)"

definition policyURI :: "string \<Rightarrow> string" where
  "policyURI short =
     (let s = ToLower short; uri = (\<lambda>n. ''http://opcfoundation.org/UA/SecurityPolicy#'' @ n) in
      if s = ''none'' then uri ''None''
      else if s = ''basic128rsa15'' then uri ''Basic128Rsa15''
      else if s = ''basic256'' then uri ''Basic256''
      else if s = ''basic256sha256'' then uri ''Basic256Sha256''
      else if s = ''aes128_sha256_rsaoaep'' then uri ''Aes128_Sha256_RsaOaep''
      else if s = ''aes256_sha256_rsapss'' then uri ''Aes256_Sha256_RsaPss''
      else uri ''None'')"

definition timeout_option :: "strmap \<Rightarrow> string \<Rightarrow> (int \<Rightarrow> ua_option) \<Rightarrow> ua_option list" where
  "timeout_option p k f =
     (let v = get_str p k in
      if v = [] then []
      else case atoi v of Inr ms \<Rightarrow> [f (wrap64 (ms * 1000000))] | Inl _ \<Rightarrow> [])"

definition buildClientOptions :: "strmap \<Rightarrow> ua_option list res" where
  "buildClientOptions p =
     (let opts = [SecurityPolicy (policyURI (valueOr p ''security_policy'' ''None'')),
                  SecurityModeString (valueOr p ''security_mode'' ''None'')];
          auth = ToLower (valueOr p ''auth'' ''anonymous'');
          rest = timeout_option p ''session_timeout_ms'' SessionTimeout @ timeout_option p ''request_timeout_ms'' RequestTimeout
      in if auth = ''anonymous'' then Inr (opts @ [AuthAnonymous] @ rest)
         else if auth = ''username'' then
           (if get_str p ''username'' = [] then Inl (Errorf ''auth=username requires 'username' param'' [])
            else Inr (opts @ [AuthUsername (get_str p ''username'') (get_str p ''password'')] @ rest))
         else Inl (Errorf ''unsupported auth type %q'' [AStr (get_str p ''auth'')]))"

section \<open>Rows\<close>

definition opcua_columns :: "Column list" where
  "opcua_columns =
     [\<lparr> c_Name = ''tag_name'', c_DataType = ''string'', c_Nullable = False \<rparr>,
      \<lparr> c_Name = ''node_id'', c_DataType = ''string'', c_Nullable = False \<rparr>,
      \<lparr> c_Name = ''ts'', c_DataType = ''datetime'', c_Nullable = False \<rparr>,
      \<lparr> c_Name = ''value_num'', c_DataType = ''float64'', c_Nullable = True \<rparr>,
      \<lparr> c_Name = ''value_bool'', c_DataType = ''bool'', c_Nullable = True \<rparr>,
      \<lparr> c_Name = ''value_text'', c_DataType = ''string'', c_Nullable = True \<rparr>,
      \<lparr> c_Name = ''quality'', c_DataType = ''string'', c_Nullable = False \<rparr>]"

definition badRow :: "OPCUAPoint \<Rightarrow> gtime \<Rightarrow> string \<Rightarrow> Row" where
  "badRow n ts msg =
     [''tag_name'' \<mapsto> VString (op_TagName n), ''node_id'' \<mapsto> VString (op_NodeID n), ''ts'' \<mapsto> VTime ts,
      ''value_num'' \<mapsto> VNil, ''value_bool'' \<mapsto> VNil, ''value_text'' \<mapsto> VString msg, ''quality'' \<mapsto> VString ''bad'']"

definition qualityFromStatus :: "'d opcua_lib \<Rightarrow> 32 word \<Rightarrow> string" where
  "qualityFromStatus L s =
     (if s = uo_StatusOK L then ''good''
      else if s = uo_StatusBad L then ''bad''
      else if s = uo_StatusUncertain L then ''uncertain''
      else ''good'')"

definition pickTimestamp :: "DataValue \<Rightarrow> gtime \<Rightarrow> gtime" where
  "pickTimestamp dv fallback =
     (if dv_SourceTimestamp dv \<noteq> zero_time then dv_SourceTimestamp dv
      else if dv_ServerTimestamp dv \<noteq> zero_time then dv_ServerTimestamp dv
      else fallback)"

text \<open>\<^verbatim>\<open>%v\<close> of the values that are not handled by their type: byte slices and arrays print their elements.\<close>

fun sprint_v :: "gval \<Rightarrow> string" where
  "sprint_v (VBytes bs) = ''['' @ Join (map (\<lambda>c. itoa (of_char c)) bs) '' '' @ '']''"
| "sprint_v (VArr16 bs) = ''['' @ Join (map (\<lambda>c. itoa (of_char c)) bs) '' '' @ '']''"
| "sprint_v (VGuid s) = s"
| "sprint_v (VOther ty s) = s"
| "sprint_v v = []"

definition scaled :: "f64 \<Rightarrow> f64 \<Rightarrow> f64 \<Rightarrow> gval" where
  "scaled x scale off = VFloat64 (f64_add (f64_mul x scale) off)"

definition assignValue :: "Row \<Rightarrow> gval \<Rightarrow> f64 \<Rightarrow> f64 \<Rightarrow> Row" where
  "assignValue row v scale off =
     (case v of
        VNil \<Rightarrow> row(''quality'' \<mapsto> VString ''bad'', ''value_text'' \<mapsto> VString ''null value'')
      | VBool x \<Rightarrow> row(''value_bool'' \<mapsto> VBool x)
      | VString x \<Rightarrow> row(''value_text'' \<mapsto> VString x)
      | VFloat32 x \<Rightarrow> row(''value_num'' \<mapsto> scaled (f64_of_f32bits x) scale off)
      | VFloat64 x \<Rightarrow> row(''value_num'' \<mapsto> scaled x scale off)
      | VInt k x \<Rightarrow> row(''value_num'' \<mapsto> scaled (f64_of_int x) scale off)
      | VTime x \<Rightarrow> row(''value_text'' \<mapsto> VString (format_rfc3339 x))
      | _ \<Rightarrow> row(''value_text'' \<mapsto> VString (sprint_v v)))"

definition node_row :: "'d opcua_lib \<Rightarrow> gtime \<Rightarrow> OPCUAPoint \<Rightarrow> DataValue \<Rightarrow> Row" where
  "node_row L pollTS n dv =
     (let row = [''tag_name'' \<mapsto> VString (op_TagName n), ''node_id'' \<mapsto> VString (op_NodeID n),
                 ''ts'' \<mapsto> VTime (pickTimestamp dv pollTS), ''value_num'' \<mapsto> VNil, ''value_bool'' \<mapsto> VNil,
                 ''value_text'' \<mapsto> VNil, ''quality'' \<mapsto> VString (qualityFromStatus L (dv_Status dv))]
      in if dv_Status dv \<noteq> uo_StatusOK L then row(''value_text'' \<mapsto> VString (uo_StatusText L (dv_Status dv)))
         else case dv_Value dv of
           Some v \<Rightarrow> assignValue row v (op_Scale n) (op_Offset n)
         | None \<Rightarrow> row(''quality'' \<mapsto> VString ''bad'', ''value_text'' \<mapsto> VString ''null value''))"

section \<open>A poll\<close>

text \<open>
  The walk over the nodes and the response: \<open>respIdx\<close> runs over the results, \<open>ids\<close> are the parsed node ids.
  A nil result panics.
\<close>

fun walk :: "'d opcua_lib \<Rightarrow> gtime \<Rightarrow> DataValue option list option \<Rightarrow> nat \<Rightarrow> OPCUAPoint list \<Rightarrow> string option list \<Rightarrow> Row list res" where
  "walk L pollTS resp respIdx (n # ns) (None # ids) =
     bind_res (walk L pollTS resp respIdx ns ids) (\<lambda>rows. Inr (badRow n pollTS ''invalid node id'' # rows))"
| "walk L pollTS resp respIdx (n # ns) (Some nid # ids) =
     (case resp of
        None \<Rightarrow> bind_res (walk L pollTS resp (respIdx + 1) ns ids) (\<lambda>rows. Inr (badRow n pollTS ''no response for node'' # rows))
      | Some results \<Rightarrow>
          if length results \<le> respIdx
          then bind_res (walk L pollTS resp (respIdx + 1) ns ids) (\<lambda>rows. Inr (badRow n pollTS ''no response for node'' # rows))
          else case results ! respIdx of
            None \<Rightarrow> Inl nil_deref
          | Some dv \<Rightarrow> bind_res (walk L pollTS resp (respIdx + 1) ns ids) (\<lambda>rows. Inr (node_row L pollTS n dv # rows)))"
| "walk L pollTS resp respIdx _ _ = Inr []"

definition parse_ids :: "'d opcua_lib \<Rightarrow> OPCUAPoint list \<Rightarrow> string option list" where
  "parse_ids L nodes = map (\<lambda>n. case uo_ParseNodeID L (op_NodeID n) of Inl _ \<Rightarrow> None | Inr nid \<Rightarrow> Some nid) nodes"

definition opcua_now :: "'d opcua_lib \<Rightarrow> 'd objs \<Rightarrow> gtime \<times> 'd objs" where
  "opcua_now L w = (case uo_Now L (so_ext w) of (t, d) \<Rightarrow> (t, w\<lparr> so_ext := d \<rparr>))"

definition opcua_batch :: "'d opcua_lib \<Rightarrow> LoadConfig \<Rightarrow> ReadResult \<Rightarrow> Row list \<Rightarrow> 'd objs \<Rightarrow> (ReadResult \<times> polled) \<times> 'd objs" where
  "opcua_batch L load result rows w =
     ((result\<lparr> rr_RowsRead := int (length rows) \<rparr>, PollBatch \<lparr> b_Columns = opcua_columns, b_Rows = rows \<rparr>),
      w\<lparr> so_ext := uo_Metrics L (ObserveBadQuality (lc_Name load) (bad_rows rows)) (so_ext w) \<rparr>)"

definition opcua_request :: "'d opcua_lib \<Rightarrow> nat \<Rightarrow> string list \<Rightarrow> 'd objs \<Rightarrow> (DataValue option list option) res option \<times> 'd objs" where
  "opcua_request L obj ids w =
     (if ids = [] then (Some (Inr None), w)
      else case so_conn w obj of
        None \<Rightarrow> (None, w)
      | Some c \<Rightarrow> (case on_ext (uo_Read L c ids) w of (r, w') \<Rightarrow> (Some r, w')))"

definition opcua_poll :: "'d opcua_lib \<Rightarrow> SourceConfig \<Rightarrow> nat \<Rightarrow> LoadConfig \<Rightarrow> 'd objs \<Rightarrow> (ReadResult \<times> polled) \<times> 'd objs" where
  "opcua_poll L cfg obj load w =
     (case opcua_now L w of (start, w0) \<Rightarrow>
      let result = new_ReadResult start in
      case sc_Telemetry cfg of
        None \<Rightarrow> ((result, PollFails (Errorf ''opcua telemetry catalog not configured'' [])), w0)
      | Some cat \<Rightarrow>
          (case tc_ListOPCUANodes cat (lc_LoadID load) of
             Inl e \<Rightarrow> ((result, PollFails (wrapf ''load nodes'' e)), w0)
           | Inr nodes \<Rightarrow>
               (case opcua_now L w0 of (t, w1) \<Rightarrow>
                if nodes = [] then ((result, PollNothing t), w1)
                else
                  let ids = parse_ids L nodes in
                  (case opcua_request L obj (List.map_filter id ids) w1 of
                     (None, w2) \<Rightarrow> ((result, PollFails nil_deref), w2)
                   | (Some (Inl e), w2) \<Rightarrow> opcua_batch L load result (map (\<lambda>n. badRow n t (Error e)) nodes) w2
                   | (Some (Inr resp), w2) \<Rightarrow>
                       (case walk L t resp 0 nodes ids of
                          Inl p \<Rightarrow> ((result, PollFails p), w2)
                        | Inr rows \<Rightarrow> opcua_batch L load result rows w2)))))"

definition opcua_Read :: "'d opcua_lib \<Rightarrow> SourceConfig \<Rightarrow> nat \<Rightarrow> ('d objs, 'x) ReadFn" where
  "opcua_Read L cfg obj = poll_read (opcua_now L) (opcua_poll L cfg obj)"

section \<open>The source\<close>

definition opcua_Open :: "'d opcua_lib \<Rightarrow> SourceConfig \<Rightarrow> nat \<Rightarrow> ('d objs, unit) act" where
  "opcua_Open L cfg obj =
     (let endpoint = get_str (sc_Params cfg) ''endpoint'' in
      if endpoint = [] then failA (Errorf ''opcua source requires 'endpoint' param, e.g. opc.tcp://host:4840'' [])
      else
        bindA (liftA (wrap_res (wrapf ''build opcua options'') (buildClientOptions (sc_Params cfg)))) (\<lambda>opts.
        bindA (wrapA (wrapf ''new opcua client'') (on_ext (uo_NewClient L endpoint opts))) (\<lambda>c.
        bindA (wrapA (wrapf ''connect opcua'') (on_ext (uo_Connect L c))) (\<lambda>_.
        set_conn obj c))))"

definition opcua_Ping :: "'d opcua_lib \<Rightarrow> nat \<Rightarrow> ('d objs, unit) act" where
  "opcua_Ping L obj =
     bindA (with_conn (Errorf ''source not open'' []) obj (\<lambda>c. uo_Read L c [uo_ServerStatus L])) (\<lambda>_. retA ())"

definition opcua_Close :: "'d opcua_lib \<Rightarrow> nat \<Rightarrow> ('d objs, unit) act" where
  "opcua_Close L obj = close_conn (uo_Close L) obj"

definition opcua_source :: "'d opcua_lib \<Rightarrow> SourceConfig \<Rightarrow> nat \<Rightarrow> ('d objs, 'x) Source" where
  "opcua_source L cfg obj =
     \<lparr> src_obj = obj, src_Kind = opcua_kind, src_Open = opcua_Open L cfg obj, src_Ping = opcua_Ping L obj,
       src_Read = opcua_Read L cfg obj, src_Close = opcua_Close L obj \<rparr>"

definition opcua_New :: "'d opcua_lib \<Rightarrow> ('d objs, 'x) SourceFactory" where
  "opcua_New L cfg = bindA new_object (\<lambda>obj. retA (opcua_source L cfg obj))"

section \<open>Nodes and results in step\<close>

definition valid_node :: "'d opcua_lib \<Rightarrow> OPCUAPoint \<Rightarrow> bool" where
  "valid_node L n \<longleftrightarrow> (case uo_ParseNodeID L (op_NodeID n) of Inl _ \<Rightarrow> False | Inr _ \<Rightarrow> True)"

definition node_ids :: "'d opcua_lib \<Rightarrow> OPCUAPoint list \<Rightarrow> string list" where
  "node_ids L nodes = List.map_filter id (parse_ids L nodes)"

text \<open>
  The row of the \<open>i\<close>-th node, from the answer to the request for the valid nodes: the result of a valid node
  is the one at the number of valid nodes before it.
\<close>

definition result_row :: "'d opcua_lib \<Rightarrow> gtime \<Rightarrow> DataValue option list option \<Rightarrow> nat \<Rightarrow> OPCUAPoint \<Rightarrow> Row" where
  "result_row L ts resp k n =
     (case resp of
        Some results \<Rightarrow>
          (if k < length results then (case results ! k of Some dv \<Rightarrow> node_row L ts n dv | None \<Rightarrow> Map.empty)
           else badRow n ts ''no response for node'')
      | None \<Rightarrow> badRow n ts ''no response for node'')"

definition node_point :: "'d opcua_lib \<Rightarrow> gtime \<Rightarrow> (DataValue option list option) res \<Rightarrow> OPCUAPoint list \<Rightarrow> nat \<Rightarrow> Row" where
  "node_point L ts answer nodes i =
     (let n = nodes ! i in
      case answer of
        Inl e \<Rightarrow> badRow n ts (Error e)
      | Inr resp \<Rightarrow>
          if valid_node L n then result_row L ts resp (length (filter (valid_node L) (take i nodes))) n
          else badRow n ts ''invalid node id'')"

lemma walk_rows:
  assumes "walk L ts resp k nodes (parse_ids L nodes) = Inr rows"
  shows "length rows = length nodes \<and>
    (\<forall>i < length nodes. rows ! i =
      (if valid_node L (nodes ! i) then result_row L ts resp (k + length (filter (valid_node L) (take i nodes))) (nodes ! i)
       else badRow (nodes ! i) ts ''invalid node id''))"
  using assms
proof (induction nodes arbitrary: k rows)
  case (Cons n ns)
  have ids: "parse_ids L (n # ns) = (case uo_ParseNodeID L (op_NodeID n) of Inl _ \<Rightarrow> None | Inr nid \<Rightarrow> Some nid) # parse_ids L ns"
    by (simp add: parse_ids_def)
  show ?case
  proof (cases "uo_ParseNodeID L (op_NodeID n)")
    case (Inl e)
    then have v: "\<not> valid_node L n" by (simp add: valid_node_def)
    obtain rows' where r: "walk L ts resp k ns (parse_ids L ns) = Inr rows'" "rows = badRow n ts ''invalid node id'' # rows'"
      using Cons.prems Inl by (auto simp: ids bind_res_Inr_iff)
    show ?thesis
      using Cons.IH [OF r(1)] r(2) v by (auto simp: less_Suc_eq_0_disj)
  next
    case (Inr nid)
    then have v: "valid_node L n" by (simp add: valid_node_def)
    obtain rows' where r: "walk L ts resp (k + 1) ns (parse_ids L ns) = Inr rows'" "rows = result_row L ts resp k n # rows'"
      using Cons.prems Inr by (auto simp: ids bind_res_Inr_iff result_row_def split: option.splits if_splits)
    show ?thesis
      using Cons.IH [OF r(1)] r(2) v by (auto simp: less_Suc_eq_0_disj)
  qed
qed (auto simp: parse_ids_def)

definition opcua_offers :: "'d opcua_lib \<Rightarrow> SourceConfig \<Rightarrow> nat \<Rightarrow> LoadConfig \<Rightarrow> 'd objs \<Rightarrow> Batch list" where
  "opcua_offers L cfg obj = poll_offers (opcua_poll L cfg obj)"

lemma opcua_reader: "source_reader (opcua_Read L cfg obj) (opcua_offers L cfg obj)"
  unfolding opcua_Read_def opcua_offers_def by (rule poll_reader)

lemma node_ids_valid: "node_ids L nodes = [] \<longleftrightarrow> filter (valid_node L) nodes = []"
  by (induction nodes) (auto simp: node_ids_def parse_ids_def valid_node_def map_filter_simps split: sum.splits)

text \<open>
  (C20) Nodes and results stay in step. An OPC UA read without error, of a load with nodes, has called the
  handler once, with one batch of the telemetry columns and one row for each node, in the order of the
  nodes. There is one answer of the server, to one request for all nodes with a valid id. The row of a
  node comes from the result at the number of valid nodes before it; an invalid node, a node without result
  and every node of a failed request have a bad row with the reason.
\<close>

theorem opcua_Read_rows:
  assumes "opcua_Read L cfg obj load h w x = ((rr, None), w', x')"
    and "sc_Telemetry cfg = Some cat" and "tc_ListOPCUANodes cat (lc_LoadID load) = Inr nodes" and "nodes \<noteq> []"
  shows "\<exists>b ts answer. opcua_offers L cfg obj load w = [b] \<and> h b x = (Inr (), x') \<and> b_Columns b = opcua_columns \<and>
    length (b_Rows b) = length nodes \<and> rr_RowsRead rr = int (length nodes) \<and>
    (\<forall>i < length nodes. b_Rows b ! i = node_point L ts answer nodes i) \<and>
    (if node_ids L nodes = [] then answer = Inr None
     else \<exists>c d d'. so_conn w obj = Some c \<and> uo_Read L c (node_ids L nodes) d = (answer, d'))"
proof -
  obtain t0 w0 where n0: "opcua_now L w = (t0, w0)" by fastforce
  obtain ts w1 where n1: "opcua_now L w0 = (ts, w1)" by fastforce
  have conn: "so_conn w1 = so_conn w"
    using n0 n1 by (auto simp: opcua_now_def split: prod.splits)
  obtain q w2 where q: "opcua_request L obj (List.map_filter id (parse_ids L nodes)) w1 = (q, w2)" by fastforce
  have poll: "opcua_poll L cfg obj load w =
      (case q of
         None \<Rightarrow> ((new_ReadResult t0, PollFails nil_deref), w2)
       | Some (Inl e) \<Rightarrow> opcua_batch L load (new_ReadResult t0) (map (\<lambda>n. badRow n ts (Error e)) nodes) w2
       | Some (Inr resp) \<Rightarrow>
           (case walk L ts resp 0 nodes (parse_ids L nodes) of
              Inl p \<Rightarrow> ((new_ReadResult t0, PollFails p), w2)
            | Inr rows \<Rightarrow> opcua_batch L load (new_ReadResult t0) rows w2))"
    using assms(2-4) n0 n1 q by (simp add: opcua_poll_def Let_def split: option.splits sum.splits)
  then obtain answer rows where a: "q = Some answer"
    "opcua_poll L cfg obj load w = opcua_batch L load (new_ReadResult t0) rows w2"
    "length rows = length nodes" "\<forall>i < length nodes. rows ! i = node_point L ts answer nodes i"
  proof -
    note ret = that
    show thesis
    proof (cases q)
      case None
      then show thesis
        using assms(1) poll by (simp add: opcua_Read_def poll_read_def)
    next
      case (Some answer)
      show thesis
      proof (cases answer)
        case (Inl e)
        then show thesis
          using ret [of answer "map (\<lambda>n. badRow n ts (Error e)) nodes"] Some poll by (simp add: node_point_def)
      next
        case (Inr resp)
        show thesis
        proof (cases "walk L ts resp 0 nodes (parse_ids L nodes)")
          case wl: (Inl p)
          then show thesis
            using assms(1) poll Some Inr by (simp add: opcua_Read_def poll_read_def)
        next
          case wr: (Inr rows)
          then show thesis
            using ret [of answer rows] Some Inr poll walk_rows [OF wr] by (simp add: node_point_def Let_def)
        qed
      qed
    qed
  qed
  let ?b = "\<lparr> b_Columns = opcua_columns, b_Rows = rows \<rparr>"
  have off: "opcua_offers L cfg obj load w = [?b]"
    using a(2) by (simp add: opcua_offers_def poll_offers_def opcua_batch_def)
  have hb: "h ?b x = (Inr (), x') \<and> rr_RowsRead rr = int (length nodes)"
    using assms(1) a(2,3) by (auto simp: opcua_Read_def poll_read_def opcua_batch_def emit_batch_def split: prod.splits sum.splits)
  have ans: "if node_ids L nodes = [] then answer = Inr None
     else \<exists>c d d'. so_conn w obj = Some c \<and> uo_Read L c (node_ids L nodes) d = (answer, d')"
    using q a(1) conn by (auto simp: opcua_request_def node_ids_def on_ext_def split: if_splits option.splits prod.splits)
  show ?thesis
    using off hb a(3,4) ans by (intro exI [of _ ?b] exI [of _ ts] exI [of _ answer]) simp
qed


section \<open>A server in memory\<close>

record memua =
  mu_values :: "(string \<times> DataValue) list"
  mu_time :: gtime
  mu_metrics :: metrics

text \<open>The status codes of the standard: good is 0, uncertain \<open>0x40000000\<close>, bad \<open>0x80000000\<close>.\<close>

definition mem_ua :: "memua opcua_lib" where
  "mem_ua =
     \<lparr> uo_NewClient = (\<lambda>e opts. retA 0), uo_Connect = (\<lambda>c. retA ()), uo_Close = (\<lambda>c. retA ()),
       uo_Read = (\<lambda>c ids d. (Inr (Some (map (map_of (mu_values d)) ids)), d)),
       uo_ParseNodeID = (\<lambda>s. if s = [] then Inl (ErrExt ''invalid node id'') else Inr s),
       uo_ServerStatus = ''i=2259'', uo_StatusOK = 0, uo_StatusBad = 0x80000000, uo_StatusUncertain = 0x40000000,
       uo_StatusText = (\<lambda>s. ''status''), uo_Now = (\<lambda>d. (mu_time d, d\<lparr> mu_time := mu_time d + 1 \<rparr>)),
       uo_Metrics = (\<lambda>f d. d\<lparr> mu_metrics := f (mu_metrics d) \<rparr>) \<rparr>"

definition demo_dv :: "32 word \<Rightarrow> DataValue" where
  "demo_dv st = \<lparr> dv_Value = Some (VBool True), dv_Status = st, dv_SourceTimestamp = zero_time, dv_ServerTimestamp = 7 \<rparr>"

definition demo_node :: "string \<Rightarrow> OPCUAPoint" where
  "demo_node i = \<lparr> op_TagName = ''t'', op_NodeID = i, op_Scale = NaN, op_Offset = NaN \<rparr>"

definition demo_nodes :: "OPCUAPoint list" where
  "demo_nodes = [demo_node [], demo_node ''a'', demo_node ''b'']"

definition demo_ua_cfg :: SourceConfig where
  "demo_ua_cfg = \<lparr> sc_SourceID = 1, sc_SourceType = ''opcua'', sc_Name = ''ua'', sc_Params = [],
     sc_Telemetry = Some \<lparr> tc_ListModbusTags = (\<lambda>_. Inr []), tc_ListOPCUANodes = (\<lambda>_. Inr demo_nodes) \<rparr> \<rparr>"

definition demo_ua_load :: LoadConfig where
  "demo_ua_load = \<lparr> lc_LoadID = 1, lc_Name = ''l'', lc_ObjectName = [], lc_Mode = ''append'', lc_WatermarkColumn = [],
     lc_WatermarkType = ''none'', lc_LastWatermark = no_watermark, lc_BatchSize = 0 \<rparr>"

definition demo_ua_world :: "memua objs" where
  "demo_ua_world = \<lparr> so_next = 1, so_conn = (\<lambda>_. Some 0),
     so_ext = \<lparr> mu_values = [(''a'', demo_dv 0), (''b'', demo_dv 0x80340000)], mu_time = 0, mu_metrics = [] \<rparr> \<rparr>"

definition collect :: "Batch list BatchHandler" where
  "collect b bs = (Inr (), bs @ [b])"

theorem opcua_Read_rows_witness:
  "\<exists>b ts answer. snd (snd (opcua_Read mem_ua demo_ua_cfg 0 demo_ua_load collect demo_ua_world [])) = [b] \<and>
     b_Rows b ! 2 = node_point mem_ua ts answer demo_nodes 2"
proof -
  obtain rr err w' x' where rd: "opcua_Read mem_ua demo_ua_cfg 0 demo_ua_load collect demo_ua_world [] = ((rr, err), w', x')"
    by (metis prod.collapse)
  have "snd (fst (opcua_Read mem_ua demo_ua_cfg 0 demo_ua_load collect demo_ua_world [])) = None"
    by code_simp
  with rd have "opcua_Read mem_ua demo_ua_cfg 0 demo_ua_load collect demo_ua_world [] = ((rr, None), w', x')"
    by simp
  from opcua_Read_rows [OF this, of _ demo_nodes] obtain b ts answer where
    "collect b [] = (Inr (), x')" "length demo_nodes = 3 \<Longrightarrow> b_Rows b ! 2 = node_point mem_ua ts answer demo_nodes 2"
    by (auto simp: demo_ua_cfg_def demo_nodes_def)
  then show ?thesis
    using rd by (intro exI [of _ b] exI [of _ ts] exI [of _ answer]) (auto simp: collect_def demo_nodes_def)
qed


end
