(* ===== verification/Pool.thy ===== *)
theory Pool
  imports Fakes GoTime "HOL-Library.AList"
begin

text \<open>
  \<^verbatim>\<open>internal/pipeline/pool.go\<close>: the pool of opened sources, one for each source id. The state is the entries
  and the state \<open>'w\<close> of the sources' connections. An entry's mutex is held for the duration of a lease:
  \<open>pe_lease\<close> is the lease that holds it. A call that finds the mutex held waits, so the operations on an
  entry below are what happens once the mutex is free; the step relation has that as its guard. \<open>clk\<close> is
  \<^verbatim>\<open>time.Now\<close> and \<open>digest\<close> the hexadecimal SHA-256.
\<close>

section \<open>The state\<close>

record ('w, 'x) poolEntry =
  pe_src :: "('w, 'x) Source option"
  pe_fp :: string
  pe_openedAt :: gtime
  pe_lastUsed :: gtime
  pe_lease :: "nat option"

record ('w, 'x) pool =
  pl_entries :: "(int \<times> ('w, 'x) poolEntry) list"
  pl_next :: nat
  pl_w :: 'w

record PoolConfig =
  pc_IdleTimeout :: int
  pc_MaxAge :: int

record ('w, 'x) SourcePool =
  sp_build :: "('w, 'x) SourceFactory"
  sp_idle :: int
  sp_maxAge :: int
  sp_clk :: "'w \<Rightarrow> gtime"
  sp_digest :: "string \<Rightarrow> string"

definition NewSourcePool :: "('w, 'x) SourceFactory \<Rightarrow> PoolConfig \<Rightarrow> ('w \<Rightarrow> gtime) \<Rightarrow> (string \<Rightarrow> string) \<Rightarrow> ('w, 'x) SourcePool" where
  "NewSourcePool build cfg clk digest =
     \<lparr> sp_build = build, sp_idle = (if pc_IdleTimeout cfg \<le> 0 then 5 * 60 * second_ns else pc_IdleTimeout cfg),
       sp_maxAge = pc_MaxAge cfg, sp_clk = clk, sp_digest = digest \<rparr>"

definition new_pool :: "'w \<Rightarrow> ('w, 'x) pool" where
  "new_pool w = \<lparr> pl_entries = [], pl_next = 0, pl_w = w \<rparr>"

definition empty_entry :: "('w, 'x) poolEntry" where
  "empty_entry = \<lparr> pe_src = None, pe_fp = [], pe_openedAt = zero_time, pe_lastUsed = zero_time, pe_lease = None \<rparr>"

definition entry :: "('w, 'x) pool \<Rightarrow> int \<Rightarrow> ('w, 'x) poolEntry" where
  "entry s i = (case map_of (pl_entries s) i of Some e \<Rightarrow> e | None \<Rightarrow> empty_entry)"

definition set_entry :: "int \<Rightarrow> ('w, 'x) poolEntry \<Rightarrow> ('w, 'x) pool \<Rightarrow> ('w, 'x) pool" where
  "set_entry i e s = s\<lparr> pl_entries := AList.update i e (pl_entries s) \<rparr>"

section \<open>The operations\<close>

definition reusable :: "('w, 'x) SourcePool \<Rightarrow> ('w, 'x) poolEntry \<Rightarrow> string \<Rightarrow> gtime \<Rightarrow> bool" where
  "reusable P ent fp now \<longleftrightarrow>
     pe_fp ent = fp \<and> \<not> (0 < sp_idle P \<and> sp_idle P < time_Sub now (pe_lastUsed ent)) \<and>
     \<not> (0 < sp_maxAge P \<and> sp_maxAge P < time_Sub now (pe_openedAt ent))"

definition closeEntry :: "int \<Rightarrow> ('w, 'x) pool \<Rightarrow> ('w, 'x) pool" where
  "closeEntry i s =
     (case pe_src (entry s i) of
        None \<Rightarrow> s
      | Some src \<Rightarrow>
          set_entry i ((entry s i)\<lparr> pe_src := None, pe_fp := [] \<rparr>) (s\<lparr> pl_w := snd (src_Close src (pl_w s)) \<rparr>))"

text \<open>A pooled source works on the state of the connections inside the pool.\<close>

definition on_w :: "('w, 'a) act \<Rightarrow> (('w, 'x) pool, 'a) act" where
  "on_w m s = (case m (pl_w s) of (r, w) \<Rightarrow> (r, s\<lparr> pl_w := w \<rparr>))"

definition pooled :: "('w, 'x) Source \<Rightarrow> (('w, 'x) pool, 'x) Source" where
  "pooled src =
     \<lparr> src_obj = src_obj src, src_Kind = src_Kind src, src_Open = on_w (src_Open src), src_Ping = on_w (src_Ping src),
       src_Read = (\<lambda>L h s x. case src_Read src L h (pl_w s) x of (r, w, x') \<Rightarrow> (r, s\<lparr> pl_w := w \<rparr>, x')),
       src_Close = on_w (src_Close src) \<rparr>"

text \<open>
  The release function of lease \<open>n\<close>: \<^verbatim>\<open>released\<close> is that the lease does not hold the entry any more.
\<close>

definition pool_release :: "('w, 'x) SourcePool \<Rightarrow> int \<Rightarrow> nat \<Rightarrow> bool \<Rightarrow> ('w, 'x) pool \<Rightarrow> ('w, 'x) pool" where
  "pool_release P i n invalidate s =
     (if pe_lease (entry s i) \<noteq> Some n then s
      else
        let s1 = (if invalidate then closeEntry i s
                  else set_entry i ((entry s i)\<lparr> pe_lastUsed := sp_clk P (pl_w s) \<rparr>) s)
        in set_entry i ((entry s1 i)\<lparr> pe_lease := None \<rparr>) s1)"

text \<open>
  The first half of \<^verbatim>\<open>Obtain\<close>: the slot of the source id, with a source that may not be reused closed.
\<close>

definition checked_slot :: "('w, 'x) SourcePool \<Rightarrow> SourceConfig \<Rightarrow> ('w, 'x) pool \<Rightarrow> ('w, 'x) pool" where
  "checked_slot P cfg s0 =
     (let fp = ParamsFingerprint (sp_digest P) (sc_SourceType cfg) (sc_Params cfg);
          i = sc_SourceID cfg;
          s = set_entry i (entry s0 i) s0
      in if pe_src (entry s i) \<noteq> None \<and> \<not> reusable P (entry s i) fp (sp_clk P (pl_w s)) then closeEntry i s else s)"

definition lease :: "('w, 'x) SourcePool \<Rightarrow> int \<Rightarrow> ('w, 'x) Source \<Rightarrow> ('w, 'x) poolEntry \<Rightarrow>
    (('w, 'x) pool, (('w, 'x) pool, 'x) Source \<times> (bool \<Rightarrow> ('w, 'x) pool \<Rightarrow> ('w, 'x) pool)) act" where
  "lease P i src ent s =
     (Inr (pooled src, pool_release P i (pl_next s)),
      set_entry i (ent\<lparr> pe_lease := Some (pl_next s) \<rparr>) (s\<lparr> pl_next := pl_next s + 1 \<rparr>))"

definition pool_Obtain :: "('w, 'x) SourcePool \<Rightarrow> SourceConfig \<Rightarrow>
    (('w, 'x) pool, (('w, 'x) pool, 'x) Source \<times> (bool \<Rightarrow> ('w, 'x) pool \<Rightarrow> ('w, 'x) pool)) act" where
  "pool_Obtain P cfg s0 =
     (let fp = ParamsFingerprint (sp_digest P) (sc_SourceType cfg) (sc_Params cfg);
          i = sc_SourceID cfg;
          now = sp_clk P (pl_w s0);
          s = checked_slot P cfg s0
      in case pe_src (entry s i) of
           Some src \<Rightarrow> lease P i src (entry s i) s
         | None \<Rightarrow>
             (case sp_build P cfg (pl_w s) of
                (Inl e, w1) \<Rightarrow> (Inl e, s\<lparr> pl_w := w1 \<rparr>)
              | (Inr src, w1) \<Rightarrow>
                  (case src_Open src w1 of
                     (Inl e, w2) \<Rightarrow> (Inl e, s\<lparr> pl_w := snd (src_Close src w2) \<rparr>)
                   | (Inr _, w2) \<Rightarrow>
                       lease P i src ((entry s i)\<lparr> pe_src := Some src, pe_fp := fp, pe_openedAt := now, pe_lastUsed := now \<rparr>)
                         (s\<lparr> pl_w := w2 \<rparr>))))"

definition Invalidate :: "int \<Rightarrow> ('w, 'x) pool \<Rightarrow> ('w, 'x) pool" where
  "Invalidate i s = (case map_of (pl_entries s) i of None \<Rightarrow> s | Some _ \<Rightarrow> closeEntry i s)"

definition InvalidateAll :: "('w, 'x) pool \<Rightarrow> ('w, 'x) pool" where
  "InvalidateAll s = fold Invalidate (map fst (pl_entries s)) s"

definition pool_Close :: "(('w, 'x) pool, unit) act" where
  "pool_Close s = (Inr (), InvalidateAll s)"

fun ping_entries :: "(int \<times> ('w, 'x) poolEntry) list \<Rightarrow> (('w, 'x) pool, unit) act" where
  "ping_entries [] s = (Inr (), s)"
| "ping_entries ((i, ent) # es) s =
     (case pe_src ent of
        None \<Rightarrow> ping_entries es s
      | Some src \<Rightarrow>
          (case on_w (src_Ping src) s of
             (Inl e, s') \<Rightarrow> (Inl (Errorf ''source_id %d: %w'' [AInt i, AErr e]), s')
           | (Inr _, s') \<Rightarrow> ping_entries es s'))"

definition pool_PingAll :: "(('w, 'x) pool, unit) act" where
  "pool_PingAll s = ping_entries (pl_entries s) s"

definition pool_Len :: "('w, 'x) pool \<Rightarrow> nat" where
  "pool_Len s = length (pl_entries s)"

definition LiveCount :: "('w, 'x) pool \<Rightarrow> nat" where
  "LiveCount s = length (filter (\<lambda>(i, e). pe_src e \<noteq> None) (pl_entries s))"

definition pool_session :: "('w, 'x) SourcePool \<Rightarrow> (('w, 'x) pool, 'x) SourceSession" where
  "pool_session P = \<lparr> ss_Obtain = pool_Obtain P, ss_Close = pool_Close, ss_PingAll = pool_PingAll \<rparr>"

section \<open>Looking at entries\<close>

lemma entry_set_entry [simp]: "entry (set_entry i e s) j = (if j = i then e else entry s j)"
  by (simp add: entry_def set_entry_def AList.update_conv')

lemma entry_w [simp]: "entry (s\<lparr> pl_w := w \<rparr>) i = entry s i" "entry (s\<lparr> pl_next := n \<rparr>) i = entry s i"
  by (simp_all add: entry_def)

lemma set_entry_simps [simp]: "pl_w (set_entry i e s) = pl_w s" "pl_next (set_entry i e s) = pl_next s"
  "pl_entries (s\<lparr> pl_w := w \<rparr>) = pl_entries s"
  by (simp_all add: set_entry_def)

lemma entry_closeEntry [simp]:
  "entry (closeEntry i s) j = (if j = i \<and> pe_src (entry s i) \<noteq> None then (entry s i)\<lparr> pe_src := None, pe_fp := [] \<rparr> else entry s j)"
  by (simp add: closeEntry_def split: option.splits)

lemma pl_next_closeEntry [simp]: "pl_next (closeEntry i s) = pl_next s"
  by (simp add: closeEntry_def split: option.splits)

lemma on_w_entry: "on_w m s = (r, s') \<Longrightarrow> entry s' = entry s \<and> pl_next s' = pl_next s \<and> pl_entries s' = pl_entries s"
  by (auto simp: on_w_def entry_def fun_eq_iff split: prod.splits)

lemma Invalidate_closeEntry: "Invalidate i s = closeEntry i s"
  by (simp add: Invalidate_def closeEntry_def entry_def empty_entry_def split: option.splits)

text \<open>The sources in the pool, and the ids that have one.\<close>

definition pooled_srcs :: "('w, 'x) pool \<Rightarrow> ('w, 'x) Source set" where
  "pooled_srcs s = {src. \<exists>i. pe_src (entry s i) = Some src}"

definition live_ids :: "('w, 'x) pool \<Rightarrow> int set" where
  "live_ids s = {i. pe_src (entry s i) \<noteq> None}"

definition distinct_ids :: "('w, 'x) pool \<Rightarrow> bool" where
  "distinct_ids s \<longleftrightarrow> distinct (map fst (pl_entries s))"

lemma live_ids_in: "live_ids s \<subseteq> fst ` set (pl_entries s)"
  by (auto simp: live_ids_def entry_def empty_entry_def split: option.splits dest!: map_of_SomeD intro: rev_image_eqI)

lemma finite_live [simp]: "finite (live_ids s)"
  by (rule finite_subset [OF live_ids_in]) simp

lemma LiveCount_card: "distinct_ids s \<Longrightarrow> LiveCount s = card (live_ids s)"
proof -
  assume d: "distinct_ids s"
  let ?L = "filter (\<lambda>(i, e). pe_src e \<noteq> None) (pl_entries s)"
  have "distinct (map fst ?L)"
    using d by (simp add: distinct_ids_def distinct_map_filter)
  moreover have "i \<in> set (map fst ?L) \<longleftrightarrow> i \<in> live_ids s" for i
  proof (cases "map_of (pl_entries s) i")
    case None
    then have "i \<notin> live_ids s"
      by (simp add: live_ids_def entry_def empty_entry_def)
    moreover have "i \<notin> fst ` set (pl_entries s)"
      using None by (simp add: map_of_eq_None_iff)
    ultimately show ?thesis
      by auto
  next
    case (Some e)
    then have "(i, e') \<in> set (pl_entries s) \<longleftrightarrow> e' = e" for e'
      using d map_of_is_SomeI [of "pl_entries s" i e'] map_of_SomeD [of "pl_entries s" i e]
      by (auto simp: distinct_ids_def)
    then show ?thesis
      using Some by (force simp: live_ids_def entry_def)
  qed
  then have "set (map fst ?L) = live_ids s"
    by blast
  ultimately show ?thesis
    by (metis LiveCount_def distinct_card length_map)
qed

lemma distinct_set_entry [simp]: "distinct_ids s \<Longrightarrow> distinct_ids (set_entry i e s)"
  by (simp add: distinct_ids_def set_entry_def distinct_update)

lemma distinct_w [simp]: "distinct_ids (s\<lparr> pl_w := w \<rparr>) = distinct_ids s" "distinct_ids (s\<lparr> pl_next := n \<rparr>) = distinct_ids s"
  by (simp_all add: distinct_ids_def)

lemma distinct_closeEntry [simp]: "distinct_ids s \<Longrightarrow> distinct_ids (closeEntry i s)"
  by (simp add: closeEntry_def split: option.splits)

lemma live_set_entry [simp]: "live_ids (set_entry i e s) = (if pe_src e = None then live_ids s - {i} else insert i (live_ids s))"
  by (auto simp: live_ids_def)

lemma live_w [simp]: "live_ids (s\<lparr> pl_w := w \<rparr>) = live_ids s" "live_ids (s\<lparr> pl_next := n \<rparr>) = live_ids s"
  by (simp_all add: live_ids_def)

lemma live_closeEntry [simp]: "live_ids (closeEntry i s) = live_ids s - {i}"
  by (auto simp: live_ids_def)

lemma Invalidates_simps: "distinct_ids s \<Longrightarrow> distinct_ids (fold Invalidate is s) \<and> live_ids (fold Invalidate is s) = live_ids s - set is"
  by (induction "is" arbitrary: s) (auto simp: Invalidate_closeEntry)

lemma InvalidateAll_live: "distinct_ids s \<Longrightarrow> live_ids (InvalidateAll s) = {} \<and> distinct_ids (InvalidateAll s)"
  using Invalidates_simps [of s "map fst (pl_entries s)"] live_ids_in [of s] by (auto simp: InvalidateAll_def)

text \<open>The ways out of \<^verbatim>\<open>Obtain\<close>.\<close>

lemma checked_slot_simps [simp]: "pl_next (checked_slot P cfg s) = pl_next s"
  "distinct_ids s \<Longrightarrow> distinct_ids (checked_slot P cfg s)"
  "j \<noteq> sc_SourceID cfg \<Longrightarrow> entry (checked_slot P cfg s) j = entry s j"
  by (simp_all add: checked_slot_def Let_def)

lemma checked_slot_lease [simp]: "pe_lease (entry (checked_slot P cfg s) i) = pe_lease (entry s i)"
  by (simp add: checked_slot_def Let_def)

lemma checked_slot_cases:
  obtains (kept) "checked_slot P cfg s = set_entry (sc_SourceID cfg) (entry s (sc_SourceID cfg)) s"
  | (closed) "checked_slot P cfg s = closeEntry (sc_SourceID cfg) (set_entry (sc_SourceID cfg) (entry s (sc_SourceID cfg)) s)"
  unfolding checked_slot_def Let_def by (metis (full_types))

lemma checked_slot_src:
  "pe_src (entry (checked_slot P cfg s) (sc_SourceID cfg)) = Some src \<longleftrightarrow>
   pe_src (entry s (sc_SourceID cfg)) = Some src \<and>
   reusable P (entry s (sc_SourceID cfg)) (ParamsFingerprint (sp_digest P) (sc_SourceType cfg) (sc_Params cfg)) (sp_clk P (pl_w s))"
  by (auto simp: checked_slot_def Let_def)

lemma pool_Obtain_cases [consumes 1, case_names build_fails open_fails reused opened]:
  assumes "pool_Obtain P cfg s0 = (r, s')"
  obtains e w1 where "pe_src (entry (checked_slot P cfg s0) (sc_SourceID cfg)) = None"
      "sp_build P cfg (pl_w (checked_slot P cfg s0)) = (Inl e, w1)"
      "r = Inl e" "s' = (checked_slot P cfg s0)\<lparr> pl_w := w1 \<rparr>"
  | src e w1 w2 where "pe_src (entry (checked_slot P cfg s0) (sc_SourceID cfg)) = None"
      "sp_build P cfg (pl_w (checked_slot P cfg s0)) = (Inr src, w1)" "src_Open src w1 = (Inl e, w2)"
      "r = Inl e" "s' = (checked_slot P cfg s0)\<lparr> pl_w := snd (src_Close src w2) \<rparr>"
  | src where "pe_src (entry (checked_slot P cfg s0) (sc_SourceID cfg)) = Some src"
      "(r, s') = lease P (sc_SourceID cfg) src (entry (checked_slot P cfg s0) (sc_SourceID cfg)) (checked_slot P cfg s0)"
  | src ent w1 w2 where "pe_src (entry (checked_slot P cfg s0) (sc_SourceID cfg)) = None"
      "sp_build P cfg (pl_w (checked_slot P cfg s0)) = (Inr src, w1)" "src_Open src w1 = (Inr (), w2)"
      "pe_src ent = Some src" "pe_lease ent = pe_lease (entry s0 (sc_SourceID cfg))"
      "pe_fp ent = ParamsFingerprint (sp_digest P) (sc_SourceType cfg) (sc_Params cfg)"
      "(r, s') = lease P (sc_SourceID cfg) src ent ((checked_slot P cfg s0)\<lparr> pl_w := w2 \<rparr>)"
proof (cases "pe_src (entry (checked_slot P cfg s0) (sc_SourceID cfg))")
  case (Some src)
  with assms that(3) show thesis
    by (simp add: pool_Obtain_def Let_def)
next
  case None
  note n = None
  obtain b w1 where b: "sp_build P cfg (pl_w (checked_slot P cfg s0)) = (b, w1)" by fastforce
  show thesis
  proof (cases b)
    case (Inl e)
    with assms b n that(1) show thesis
      by (simp add: pool_Obtain_def Let_def)
  next
    case (Inr src)
    obtain q w2 where q: "src_Open src w1 = (q, w2)" by fastforce
    show thesis
    proof (cases q)
      case qI: (Inl e)
      with assms b n q Inr that(2) show thesis
        by (simp add: pool_Obtain_def Let_def)
    next
      case qI: (Inr u)
      let ?ent = "(entry (checked_slot P cfg s0) (sc_SourceID cfg))\<lparr> pe_src := Some src,
          pe_fp := ParamsFingerprint (sp_digest P) (sc_SourceType cfg) (sc_Params cfg),
          pe_openedAt := sp_clk P (pl_w s0), pe_lastUsed := sp_clk P (pl_w s0) \<rparr>"
      from assms b n q Inr qI that(4) [where ent = ?ent] show thesis
        by (simp add: pool_Obtain_def Let_def)
    qed
  qed
qed

section \<open>The pool as a source session\<close>

text \<open>
  The pool gives the runner what a session promises: a source that reads what \<open>reads\<close> says of it, as
  long as the builder makes such sources. \<open>reads src L w\<close> are the readings a read of \<open>src\<close> may give when the
  connections are in state \<open>w\<close>.
\<close>

definition pool_ok :: "(('w, 'x) Source \<Rightarrow> bool) \<Rightarrow> ('w, 'x) pool \<Rightarrow> bool" where
  "pool_ok good s \<longleftrightarrow> (\<forall>i src. pe_src (entry s i) = Some src \<longrightarrow> good src)"

lemma pool_okI: "(\<And>i src. pe_src (entry s i) = Some src \<Longrightarrow> good src) \<Longrightarrow> pool_ok good s"
  by (simp add: pool_ok_def)

lemma pool_okD: "pool_ok good s \<Longrightarrow> pe_src (entry s i) = Some src \<Longrightarrow> good src"
  by (simp add: pool_ok_def)

lemma pool_ok_new [simp]: "pool_ok good (new_pool w)"
  by (simp add: pool_ok_def new_pool_def entry_def empty_entry_def)

lemma pool_ok_w [simp]: "pool_ok good (s\<lparr> pl_w := w \<rparr>) = pool_ok good s" "pool_ok good (s\<lparr> pl_next := n \<rparr>) = pool_ok good s"
  by (simp_all add: pool_ok_def)

lemma pool_ok_set_entry: "pool_ok good s \<Longrightarrow> (\<And>src. pe_src e = Some src \<Longrightarrow> good src) \<Longrightarrow> pool_ok good (set_entry i e s)"
  by (simp add: pool_ok_def)

lemma pool_ok_closeEntry: "pool_ok good s \<Longrightarrow> pool_ok good (closeEntry i s)"
  by (simp add: pool_ok_def)

lemma pool_ok_checked_slot: "pool_ok good s \<Longrightarrow> pool_ok good (checked_slot P cfg s)"
  by (cases rule: checked_slot_cases [of P cfg s]) (auto intro!: pool_ok_set_entry pool_ok_closeEntry dest: pool_okD)

lemma pool_ok_release: "pool_ok good s \<Longrightarrow> pool_ok good (pool_release P i n b s)"
  by (auto simp: pool_release_def Let_def intro!: pool_ok_set_entry pool_ok_closeEntry dest: pool_okD)

lemma pool_ok_Obtain:
  assumes "pool_Obtain P cfg s = (r, s')" "pool_ok good s"
    and "\<And>w src w'. sp_build P cfg w = (Inr src, w') \<Longrightarrow> good src"
  shows "pool_ok good s'"
  using assms(1)
proof (cases rule: pool_Obtain_cases)
  case (reused src)
  then show ?thesis
    using pool_ok_checked_slot [OF assms(2), of P cfg]
    by (auto simp: lease_def intro!: pool_ok_set_entry dest: pool_okD)
next
  case (opened src ent w1 w2)
  then show ?thesis
    using pool_ok_checked_slot [OF assms(2), of P cfg] assms(3)
    by (auto simp: lease_def intro!: pool_ok_set_entry)
qed (use pool_ok_checked_slot [OF assms(2), of P cfg] in simp_all)

definition pool_offers :: "(('w, 'x) Source \<Rightarrow> LoadConfig \<Rightarrow> 'w \<Rightarrow> Batch list) \<Rightarrow> SourceConfig \<Rightarrow> LoadConfig \<Rightarrow> ('w, 'x) pool \<Rightarrow> Batch list" where
  "pool_offers reads cfg L s = (case pe_src (entry s (sc_SourceID cfg)) of None \<Rightarrow> [] | Some src \<Rightarrow> reads src L (pl_w s))"

lemma pool_Obtain_src:
  assumes "pool_Obtain P cfg s = (Inr (src, release), s')"
  obtains src0 where "src = pooled src0" "pe_src (entry s' (sc_SourceID cfg)) = Some src0"
    "release = pool_release P (sc_SourceID cfg) (pl_next s)" "pe_lease (entry s' (sc_SourceID cfg)) = Some (pl_next s)"
  using assms by (cases rule: pool_Obtain_cases) (auto simp: lease_def)

lemma pool_Obtain_fp:
  assumes "pool_Obtain P cfg s = (Inr a, s')"
  shows "pe_fp (entry s' (sc_SourceID cfg)) = ParamsFingerprint (sp_digest P) (sc_SourceType cfg) (sc_Params cfg)"
  using assms
proof (cases rule: pool_Obtain_cases)
  case (reused src)
  then have "checked_slot P cfg s = set_entry (sc_SourceID cfg) (entry s (sc_SourceID cfg)) s"
    "pe_fp (entry s (sc_SourceID cfg)) = ParamsFingerprint (sp_digest P) (sc_SourceType cfg) (sc_Params cfg)"
    by (auto simp: checked_slot_src reusable_def) (auto simp: checked_slot_def Let_def reusable_def)
  with reused show ?thesis by (simp add: lease_def)
next
  case (opened src ent w1 w2)
  then show ?thesis by (simp add: lease_def)
qed simp_all

lemma pooled_reader: "source_reader (src_Read src) off \<Longrightarrow> source_reader (src_Read (pooled src)) (\<lambda>L s. off L (pl_w s))"
  unfolding source_reader_def by (fastforce simp: pooled_def split: prod.splits)

text \<open>The builder's contract: each source it makes reads what \<open>reads\<close> says of it.\<close>

locale reading_pool =
  fixes P :: "('w, 'x) SourcePool"
    and reads :: "('w, 'x) Source \<Rightarrow> LoadConfig \<Rightarrow> 'w \<Rightarrow> Batch list"
  assumes builds: "sp_build P cfg w = (Inr src, w') \<Longrightarrow> source_reader (src_Read src) (reads src)"
begin

lemma pool_source_session:
  "source_session (pool_session P) (pool_ok (\<lambda>src. source_reader (src_Read src) (reads src))) (pool_offers reads)"
proof (rule source_session.intro)
  let ?ok = "pool_ok (\<lambda>src. source_reader (src_Read src) (reads src))"
  fix cfg s src release s'
  assume ok: "?ok s" and ob: "ss_Obtain (pool_session P) cfg s = (Inr (src, release), s')"
  then obtain src0 where src0: "src = pooled src0" "pe_src (entry s' (sc_SourceID cfg)) = Some src0"
    "release = pool_release P (sc_SourceID cfg) (pl_next s)"
    by (auto simp: pool_session_def elim: pool_Obtain_src)
  have "?ok s'"
    using ob ok builds by (auto simp: pool_session_def intro: pool_ok_Obtain)
  with src0 have "source_reader (src_Read src) (\<lambda>L s. reads src0 L (pl_w s))"
    by (auto intro: pooled_reader dest: pool_okD)
  then show "\<exists>off. source_reader (src_Read src) off \<and> (\<forall>L. off L s' = pool_offers reads cfg L s')"
    using src0 by (auto simp: pool_offers_def)
  show "?ok t'" if "?ok t" "src_Read src L h t x = (rr, t', x')" for L h t x rr t' x'
    using that src0 by (auto simp: pooled_def split: prod.splits)
  show "?ok (release b t)" if "?ok t" for t b
    using that src0 by (simp add: pool_ok_release)
next
  let ?ok = "pool_ok (\<lambda>src. source_reader (src_Read src) (reads src))"
  fix s cfg r s'
  assume "?ok s" and "ss_Obtain (pool_session P) cfg s = (r, s')"
  then show "?ok s'"
    using builds by (auto simp: pool_session_def intro: pool_ok_Obtain)
qed

end

section \<open>Interleaving\<close>

text \<open>
  What the goroutines of the loader do with the pool, one step at a time. A call that needs the mutex of an
  entry happens when no lease holds it; the holder of a lease reads; a release function may be called at any
  time, also a second time. \<^verbatim>\<open>InvalidateAll\<close>, \<^verbatim>\<open>Close\<close> and \<^verbatim>\<open>PingAll\<close> lock one entry after the other, so
  they are sequences of these steps.
\<close>

inductive pool_step :: "('w, 'x) SourcePool \<Rightarrow> ('w, 'x) pool \<Rightarrow> ('w, 'x) pool \<Rightarrow> bool" for P where
  Obtain_step: "pool_step P s s'"
    if "pe_lease (entry s (sc_SourceID cfg)) = None" and "pool_Obtain P cfg s = (r, s')"
| release_step: "pool_step P s (pool_release P i n invalidate s)"
| Invalidate_step: "pool_step P s (Invalidate i s)"
    if "pe_lease (entry s i) = None"
| Ping_step: "pool_step P s s'"
    if "pe_lease (entry s i) = None" and "pe_src (entry s i) = Some src" and "on_w (src_Ping src) s = (r, s')"
| Read_step: "pool_step P s s'"
    if "pe_lease (entry s i) = Some n" and "pe_src (entry s i) = Some src"
      and "src_Read (pooled src) L h s x = (r, s', x')"

inductive_cases pool_stepE: "pool_step P s s'"

definition reachable :: "('w, 'x) SourcePool \<Rightarrow> 'w \<Rightarrow> ('w, 'x) pool \<Rightarrow> bool" where
  "reachable P w s \<longleftrightarrow> (pool_step P)\<^sup>*\<^sup>* (new_pool w) s"

text \<open>
  The invariant: a leased slot has a source; no two slots are held by one lease; leases are numbered below
  the next number.
\<close>

definition leases_ok :: "('w, 'x) pool \<Rightarrow> bool" where
  "leases_ok s \<longleftrightarrow>
     (\<forall>i n. pe_lease (entry s i) = Some n \<longrightarrow>
        pe_src (entry s i) \<noteq> None \<and> n < pl_next s \<and> (\<forall>j. pe_lease (entry s j) = Some n \<longrightarrow> j = i))"

lemma leases_ok_new [simp]: "leases_ok (new_pool w)"
  by (simp add: leases_ok_def new_pool_def entry_def empty_entry_def)

lemma leases_ok_same: "leases_ok s \<Longrightarrow> entry s' = entry s \<Longrightarrow> pl_next s' = pl_next s \<Longrightarrow> leases_ok s'"
  by (simp add: leases_ok_def)

lemma leases_ok_w [simp]: "leases_ok (s\<lparr> pl_w := w \<rparr>) = leases_ok s"
  by (simp add: leases_ok_def)

lemma leases_ok_closeEntry: "leases_ok s \<Longrightarrow> pe_lease (entry s i) = None \<Longrightarrow> leases_ok (closeEntry i s)"
  by (auto simp: leases_ok_def split: if_splits)

lemma leases_ok_checked_slot:
  "leases_ok s \<Longrightarrow> pe_lease (entry s (sc_SourceID cfg)) = None \<Longrightarrow> leases_ok (checked_slot P cfg s)"
  by (cases rule: checked_slot_cases [of P cfg s]) (auto simp: leases_ok_def split: if_splits)

text \<open>A state whose leases are among those of a good state, with their sources, is good.\<close>

lemma leases_ok_fewer:
  assumes "leases_ok s" and "pl_next s' = pl_next s"
    and "\<And>i n. pe_lease (entry s' i) = Some n \<Longrightarrow> pe_lease (entry s i) = Some n \<and> pe_src (entry s' i) = pe_src (entry s i)"
  shows "leases_ok s'"
  using assms unfolding leases_ok_def by metis

lemma entry_release_other [simp]: "j \<noteq> i \<Longrightarrow> entry (pool_release P i n b s) j = entry s j"
  by (simp add: pool_release_def Let_def)

lemma lease_release [simp]:
  "pe_lease (entry (pool_release P i n b s) i) = (if pe_lease (entry s i) = Some n then None else pe_lease (entry s i))"
  by (simp add: pool_release_def Let_def)

lemma pl_next_release [simp]: "pl_next (pool_release P i n b s) = pl_next s"
  by (simp add: pool_release_def Let_def)

lemma release_stale: "pe_lease (entry s i) \<noteq> Some n \<Longrightarrow> pool_release P i n b s = s"
  by (simp add: pool_release_def)

lemma leases_ok_release: "leases_ok s \<Longrightarrow> leases_ok (pool_release P i n b s)"
proof (cases "pe_lease (entry s i) = Some n")
  case True
  show ?thesis if "leases_ok s"
  proof (rule leases_ok_fewer [OF that])
    fix j m
    assume "pe_lease (entry (pool_release P i n b s) j) = Some m"
    then show "pe_lease (entry s j) = Some m \<and> pe_src (entry (pool_release P i n b s) j) = pe_src (entry s j)"
      using True by (cases "j = i") auto
  qed simp
qed (simp add: release_stale)

lemma leases_ok_lease:
  assumes "leases_ok s" and "(r, s') = lease P i src ent s" and "pe_src ent \<noteq> None"
  shows "leases_ok s'"
proof -
  have s': "entry s' j = (if j = i then ent\<lparr> pe_lease := Some (pl_next s) \<rparr> else entry s j)" "pl_next s' = pl_next s + 1" for j
    using assms(2) by (simp_all add: lease_def)
  have old: "pe_src (entry s j) \<noteq> None \<and> n < pl_next s \<and> (\<forall>k. pe_lease (entry s k) = Some n \<longrightarrow> k = j)"
    if "pe_lease (entry s j) = Some n" for j n
    using assms(1) that unfolding leases_ok_def by blast
  show ?thesis
    unfolding leases_ok_def
  proof (intro allI impI)
    fix j n
    assume n: "pe_lease (entry s' j) = Some n"
    show "pe_src (entry s' j) \<noteq> None \<and> n < pl_next s' \<and> (\<forall>k. pe_lease (entry s' k) = Some n \<longrightarrow> k = j)"
    proof (cases "j = i")
      case True
      then have "n = pl_next s" using n s' by simp
      then have "pe_lease (entry s k) \<noteq> Some n" for k
        using old [of k n] by blast
      with True n assms(3) s' show ?thesis
        by auto
    next
      case False
      with n s' have "pe_lease (entry s j) = Some n" by simp
      from old [OF this] False s' show ?thesis
        by auto
    qed
  qed
qed

lemma leases_ok_Obtain:
  assumes "pool_Obtain P cfg s = (r, s')" "leases_ok s" "pe_lease (entry s (sc_SourceID cfg)) = None"
  shows "leases_ok s'"
proof -
  have c: "leases_ok (checked_slot P cfg s)"
    using assms(2,3) by (rule leases_ok_checked_slot)
  then have w: "leases_ok ((checked_slot P cfg s)\<lparr> pl_w := w \<rparr>)" for w
    by simp
  from assms(1) show ?thesis
  proof (cases rule: pool_Obtain_cases)
    case (reused src)
    with c show ?thesis by (auto intro: leases_ok_lease)
  next
    case (opened src ent w1 w2)
    with leases_ok_lease [OF w] show ?thesis by simp
  qed (use w in simp_all)
qed

lemma leases_ok_step: "pool_step P s s' \<Longrightarrow> leases_ok s \<Longrightarrow> leases_ok s'"
proof (induction rule: pool_step.induct)
  case (Ping_step s i src r s')
  then show ?case
    using on_w_entry by (blast intro: leases_ok_same)
next
  case (Read_step s i n src L h x r s' x')
  then show ?case
    by (auto simp: pooled_def split: prod.splits)
qed (auto simp: Invalidate_closeEntry intro: leases_ok_Obtain leases_ok_release leases_ok_closeEntry)

lemma reachable_induct [consumes 1, case_names new step]:
  assumes "reachable P w s" and "I (new_pool w)" and "\<And>s s'. I s \<Longrightarrow> pool_step P s s' \<Longrightarrow> I s'"
  shows "I s"
  using assms(1) unfolding reachable_def by (induction rule: rtranclp_induct) (use assms(2,3) in auto)

lemma reachable_leases: "reachable P w s \<Longrightarrow> leases_ok s"
  by (induction rule: reachable_induct) (auto intro: leases_ok_step)

lemma entry_Obtain_other:
  assumes "pool_Obtain P cfg s = (r, s')" and "j \<noteq> sc_SourceID cfg"
  shows "entry s' j = entry s j"
  using assms(1) by (cases rule: pool_Obtain_cases) (use assms(2) in \<open>auto simp: lease_def\<close>)

text \<open>A step of another goroutine leaves the source of a lease alone.\<close>

lemma step_keeps_lease:
  assumes "pool_step P s s'" and "pe_lease (entry s i) = Some n"
  shows "(\<exists>b. s' = pool_release P i n b s) \<or>
    (pe_lease (entry s' i) = Some n \<and> pe_src (entry s' i) = pe_src (entry s i) \<and> pe_fp (entry s' i) = pe_fp (entry s i))"
  using assms
proof (induction rule: pool_step.induct)
  case (Obtain_step s cfg r s')
  then have "entry s' i = entry s i"
    by (intro entry_Obtain_other [OF Obtain_step(2)]) auto
  then show ?case
    using Obtain_step(3) by simp
next
  case (release_step s j m b)
  then show ?case
    by (cases "j = i") (auto simp: pool_release_def Let_def)
next
  case (Ping_step s j src r s')
  then show ?case
    using on_w_entry by metis
next
  case (Read_step s j n' src L h x r s' x')
  then show ?case
    by (auto simp: pooled_def split: prod.splits)
qed (auto simp: Invalidate_closeEntry)

text \<open>A lease that has been given back is not granted again.\<close>

lemma step_lease_old:
  assumes "pool_step P s s'" and "n < pl_next s"
  shows "n < pl_next s' \<and> (pe_lease (entry s' i) = Some n \<longrightarrow> pe_lease (entry s i) = Some n)"
  using assms
proof (induction rule: pool_step.induct)
  case (Obtain_step s cfg r s')
  show ?case
  proof (cases "i = sc_SourceID cfg")
    case True
    from Obtain_step(2) show ?thesis
      by (cases rule: pool_Obtain_cases) (use Obtain_step(1,3) True in \<open>auto simp: lease_def\<close>)
  next
    case False
    have "pl_next s \<le> pl_next s'"
      using Obtain_step(2) by (cases rule: pool_Obtain_cases) (auto simp: lease_def)
    then show ?thesis
      using Obtain_step(3) entry_Obtain_other [OF Obtain_step(2) False] by simp
  qed
next
  case (release_step s j m b)
  then show ?case
    by (cases "j = i") auto
next
  case (Ping_step s j src r s')
  then show ?case
    using on_w_entry by metis
next
  case (Read_step s j n' src L h x r s' x')
  then show ?case
    by (auto simp: pooled_def split: prod.splits)
qed (auto simp: Invalidate_closeEntry)

lemma steps_keep_lease:
  assumes "(pool_step P)\<^sup>*\<^sup>* s s'" and "pe_lease (entry s i) = Some n" and "n < pl_next s"
  shows "n < pl_next s' \<and> (pe_lease (entry s' i) = Some n \<longrightarrow> pe_src (entry s' i) = pe_src (entry s i))"
  using assms(1)
proof (induction rule: rtranclp_induct)
  case base
  then show ?case using assms by simp
next
  case (step t t')
  note old = step_lease_old [OF step.hyps(2), of n i]
  show ?case
  proof (cases "pe_lease (entry t' i) = Some n")
    case True
    then have t: "pe_lease (entry t i) = Some n" "pe_src (entry t i) = pe_src (entry s i)"
      using old step.IH by simp_all
    from step_keeps_lease [OF step.hyps(2) t(1)] True t have "pe_src (entry t' i) = pe_src (entry s i)"
      by auto
    then show ?thesis using old step.IH by simp
  qed (use old step.IH in simp)
qed

text \<open>With no lease held, invalidating every slot is a sequence of steps.\<close>

lemma Invalidates_steps:
  assumes "\<And>i. pe_lease (entry s i) = None"
  shows "(pool_step P)\<^sup>*\<^sup>* s (fold Invalidate is s)"
  using assms
proof (induction "is" arbitrary: s)
  case (Cons i "is")
  have "pool_step P s (Invalidate i s)"
    using Cons.prems by (intro Invalidate_step)
  moreover have "(pool_step P)\<^sup>*\<^sup>* (Invalidate i s) (fold Invalidate is (Invalidate i s))"
    using Cons.prems by (intro Cons.IH) (simp add: Invalidate_closeEntry)
  ultimately show ?case
    by simp
qed simp

section \<open>Opened and closed\<close>

text \<open>
  Sources that count: \<open>opens w\<close> and \<open>closes w\<close> are the calls of \<^verbatim>\<open>Open\<close> and \<^verbatim>\<open>Close\<close> made so far.
\<close>

definition counted :: "('w \<Rightarrow> int) \<Rightarrow> ('w \<Rightarrow> int) \<Rightarrow> ('w, 'x) Source \<Rightarrow> bool" where
  "counted opens closes src \<longleftrightarrow>
     (\<forall>w r w'. src_Open src w = (r, w') \<longrightarrow> opens w' = opens w + 1 \<and> closes w' = closes w) \<and>
     (\<forall>w r w'. src_Close src w = (r, w') \<longrightarrow> opens w' = opens w \<and> closes w' = closes w + 1) \<and>
     (\<forall>w r w'. src_Ping src w = (r, w') \<longrightarrow> opens w' = opens w \<and> closes w' = closes w) \<and>
     (\<forall>L h w x r w' x'. src_Read src L h w x = (r, w', x') \<longrightarrow> opens w' = opens w \<and> closes w' = closes w)"

lemma countedD:
  assumes "counted opens closes src"
  shows "src_Open src w = (r, w') \<Longrightarrow> opens w' = opens w + 1 \<and> closes w' = closes w"
    and "src_Close src w = (r, w') \<Longrightarrow> opens w' = opens w \<and> closes w' = closes w + 1"
    and "src_Ping src w = (r, w') \<Longrightarrow> opens w' = opens w \<and> closes w' = closes w"
    and "src_Read src L h w x = (q, w', x') \<Longrightarrow> opens w' = opens w \<and> closes w' = closes w"
  using assms unfolding counted_def by blast+

lemma counted_Close: "counted opens closes src \<Longrightarrow> opens (snd (src_Close src w)) = opens w \<and> closes (snd (src_Close src w)) = closes w + 1"
  using countedD(2) [of opens closes src w "fst (src_Close src w)" "snd (src_Close src w)"] by simp

text \<open>The open connections are those in the pool, \<open>k\<close> being the balance of the world when the pool was made.\<close>

definition balanced :: "('w \<Rightarrow> int) \<Rightarrow> ('w \<Rightarrow> int) \<Rightarrow> int \<Rightarrow> ('w, 'x) pool \<Rightarrow> bool" where
  "balanced opens closes k s \<longleftrightarrow>
     distinct_ids s \<and> pool_ok (counted opens closes) s \<and>
     opens (pl_w s) - closes (pl_w s) = k + int (card (live_ids s))"

locale counted_pool =
  fixes P :: "('w, 'x) SourcePool"
    and opens :: "'w \<Rightarrow> int"
    and closes :: "'w \<Rightarrow> int"
  assumes build_keeps: "sp_build P cfg w = (r, w') \<Longrightarrow> opens w' = opens w \<and> closes w' = closes w"
    and builds_counted: "sp_build P cfg w = (Inr src, w') \<Longrightarrow> counted opens closes src"
begin

lemma balanced_new: "balanced opens closes (opens w - closes w) (new_pool w)"
proof -
  have "live_ids (new_pool w) = {}"
    by (simp add: live_ids_def new_pool_def entry_def empty_entry_def)
  then show ?thesis
    by (simp add: balanced_def distinct_ids_def) (simp add: new_pool_def)
qed

lemma balanced_w: "balanced opens closes k s \<Longrightarrow> opens w - closes w = opens (pl_w s) - closes (pl_w s) \<Longrightarrow>
    balanced opens closes k (s\<lparr> pl_w := w \<rparr>)"
  by (simp add: balanced_def)

lemma balanced_closeEntry:
  assumes "balanced opens closes k s"
  shows "balanced opens closes k (closeEntry i s)"
proof (cases "pe_src (entry s i)")
  case None
  then show ?thesis using assms by (simp add: closeEntry_def)
next
  case (Some src)
  then have i: "i \<in> live_ids s"
    by (simp add: live_ids_def)
  have b: "distinct_ids s" "pool_ok (counted opens closes) s" "opens (pl_w s) - closes (pl_w s) = k + int (card (live_ids s))"
    using assms by (simp_all add: balanced_def)
  have "card (live_ids s) = Suc (card (live_ids s - {i}))"
    by (rule card.remove [OF finite_live i])
  moreover have "pl_w (closeEntry i s) = snd (src_Close src (pl_w s))"
    using Some by (simp add: closeEntry_def)
  ultimately show ?thesis
    using b counted_Close [OF pool_okD [OF b(2) Some], of "pl_w s"] by (simp add: balanced_def pool_ok_closeEntry)
qed

lemma balanced_set_entry:
  assumes "balanced opens closes k s" and "pe_src e = pe_src (entry s i)"
  shows "balanced opens closes k (set_entry i e s)"
proof -
  have "live_ids (set_entry i e s) = live_ids s"
    using assms(2) by (auto simp: live_ids_def)
  moreover have "pool_ok (counted opens closes) (set_entry i e s)" if "pool_ok (counted opens closes) s"
    using pool_okD [OF that, of i] by (intro pool_ok_set_entry [OF that]) (simp add: assms(2))
  ultimately show ?thesis
    using assms(1) by (simp add: balanced_def)
qed

lemma balanced_next: "balanced opens closes k s \<Longrightarrow> balanced opens closes k (s\<lparr> pl_next := n \<rparr>)"
  by (simp add: balanced_def)

lemma balanced_checked_slot: "balanced opens closes k s \<Longrightarrow> balanced opens closes k (checked_slot P cfg s)"
  by (cases rule: checked_slot_cases [of P cfg s]) (auto intro: balanced_closeEntry balanced_set_entry)

lemma balanced_release: "balanced opens closes k s \<Longrightarrow> balanced opens closes k (pool_release P i n b s)"
  by (auto simp: pool_release_def Let_def intro!: balanced_set_entry balanced_closeEntry)

lemma balanced_fresh:
  assumes "balanced opens closes k s" and "pe_src (entry s i) = None" and "pe_src ent = Some src"
    and "counted opens closes src" and "opens w = opens (pl_w s) + 1" and "closes w = closes (pl_w s)"
  shows "balanced opens closes k (set_entry i ent (s\<lparr> pl_w := w, pl_next := n \<rparr>))"
proof -
  have "i \<notin> live_ids s"
    using assms(2) by (simp add: live_ids_def)
  moreover have "pool_ok (counted opens closes) (set_entry i ent (s\<lparr> pl_w := w, pl_next := n \<rparr>))"
    using assms(1,3,4) by (intro pool_ok_set_entry) (auto simp: balanced_def)
  ultimately show ?thesis
    using assms by (simp add: balanced_def)
qed

lemma balanced_Obtain:
  assumes "pool_Obtain P cfg s = (r, s')" and "balanced opens closes k s"
  shows "balanced opens closes k s'"
  using assms(1)
proof (cases rule: pool_Obtain_cases)
  case (build_fails e w1)
  then show ?thesis
    using build_keeps by (simp add: balanced_w balanced_checked_slot [OF assms(2)])
next
  case (open_fails src e w1 w2)
  have c: "counted opens closes src"
    using open_fails(2) by (rule builds_counted)
  show ?thesis
    unfolding open_fails(5)
    using build_keeps [OF open_fails(2)] countedD(1) [OF c open_fails(3)] counted_Close [OF c, of w2]
    by (intro balanced_w balanced_checked_slot [OF assms(2)]) simp
next
  case (reused src)
  then show ?thesis
    by (auto simp: lease_def intro!: balanced_set_entry balanced_next balanced_checked_slot [OF assms(2)])
next
  case (opened src ent w1 w2)
  have c: "counted opens closes src"
    using opened(2) by (rule builds_counted)
  have w2: "opens w2 = opens (pl_w (checked_slot P cfg s)) + 1" "closes w2 = closes (pl_w (checked_slot P cfg s))"
    using build_keeps [OF opened(2)] countedD(1) [OF c opened(3)] by simp_all
  have "balanced opens closes k (set_entry (sc_SourceID cfg) (ent\<lparr> pe_lease := m \<rparr>)
      ((checked_slot P cfg s)\<lparr> pl_w := w2, pl_next := n \<rparr>))" for m n
    by (rule balanced_fresh [OF balanced_checked_slot [OF assms(2)] opened(1) _ c w2]) (simp add: opened(4))
  then show ?thesis
    using opened(7) by (simp add: lease_def)
qed

lemma balanced_step: "pool_step P s s' \<Longrightarrow> balanced opens closes k s \<Longrightarrow> balanced opens closes k s'"
proof (induction rule: pool_step.induct)
  case (Ping_step s i src r s')
  then have "counted opens closes src"
    unfolding balanced_def by (blast dest: pool_okD)
  with Ping_step show ?case
    by (auto simp: on_w_def split: prod.splits dest: countedD(3) intro!: balanced_w)
next
  case (Read_step s i n src L h x r s' x')
  then have "counted opens closes src"
    unfolding balanced_def by (blast dest: pool_okD)
  with Read_step show ?case
    by (auto simp: pooled_def split: prod.splits dest: countedD(4) intro!: balanced_w)
qed (auto simp: Invalidate_closeEntry intro: balanced_Obtain balanced_release balanced_closeEntry)

lemma reachable_balanced: "reachable P w s \<Longrightarrow> balanced opens closes (opens w - closes w) s"
  by (induction rule: reachable_induct) (auto intro: balanced_new balanced_step)

end

section \<open>A pool of test doubles\<close>

definition fake_pool :: "'x FakeSource \<Rightarrow> (fake_calls, 'x) SourcePool" where
  "fake_pool f = NewSourcePool (\<lambda>cfg. retA (fake_source f)) \<lparr> pc_IdleTimeout = 60 * second_ns, pc_MaxAge = 3600 * second_ns \<rparr>
     (\<lambda>w. zero_time) id"

definition quiet_source :: "'x FakeSource" where
  "quiet_source = \<lparr> fs_KindName = ''fake'', fs_OpenErr = None, fs_PingErr = None, fs_CloseErr = None, fs_ReadFn = None \<rparr>"

definition fake_cfg :: "int \<Rightarrow> SourceConfig" where
  "fake_cfg i = \<lparr> sc_SourceID = i, sc_SourceType = ''fake'', sc_Name = ''f'', sc_Params = [(''h'', ''1'')], sc_Telemetry = None \<rparr>"

lemma fake_source_counted:
  "fs_ReadFn f = None \<Longrightarrow> counted fs_OpenCalls fs_CloseCalls (fake_source f)"
  by (auto simp: counted_def fake_source_def FakeSource_Open_def FakeSource_Close_def FakeSource_Read_def)

lemma quiet_reader: "source_reader (src_Read (fake_source quiet_source)) (\<lambda>_ _. [])"
  by unfold_locales (auto simp: fake_source_def FakeSource_Read_def quiet_source_def)

interpretation fkc: counted_pool "fake_pool quiet_source" fs_OpenCalls fs_CloseCalls
  by unfold_locales
    (auto simp: fake_pool_def NewSourcePool_def retA_def intro!: fake_source_counted, simp add: quiet_source_def)

interpretation fkr: reading_pool "fake_pool quiet_source" "\<lambda>_ _ _. []"
  by (rule reading_pool.intro) (auto simp: fake_pool_def NewSourcePool_def retA_def quiet_reader)

section \<open>Properties of the pool\<close>


lemma reachable_Obtain: "pool_Obtain P cfg (new_pool w) = (r, s) \<Longrightarrow> reachable P w s"
  unfolding reachable_def
  by (intro r_into_rtranclp Obtain_step [of _ cfg]) (simp_all add: new_pool_def entry_def empty_entry_def)

lemma reachable_release: "reachable P w s \<Longrightarrow> reachable P w (pool_release P i n b s)"
  unfolding reachable_def by (erule rtranclp.rtrancl_into_rtrancl) (rule release_step)

definition fake_world :: fake_calls where
  "fake_world = \<lparr> fs_OpenCalls = 0, fs_CloseCalls = 0 \<rparr>"

definition fake_leased :: "(fake_calls, unit) pool" where
  "fake_leased = snd (pool_Obtain (fake_pool quiet_source) (fake_cfg 7) (new_pool fake_world))"


text \<open>
  (C8) The pool does not leak connections. For a builder whose sources count the calls of \<^verbatim>\<open>Open\<close> and
  \<^verbatim>\<open>Close\<close>, in any state the pool can come to, the calls of \<^verbatim>\<open>Open\<close> without a \<^verbatim>\<open>Close\<close> are as many as
  \<^verbatim>\<open>LiveCount\<close> says, failed opens included. Once no lease is held, \<^verbatim>\<open>Close\<close> leads to a state the pool can
  come to, with no live source and every \<^verbatim>\<open>Open\<close> matched by a \<^verbatim>\<open>Close\<close>.
\<close>

theorem pool_no_leak:
  assumes "counted_pool P opens closes" and "reachable P w s"
  shows "(opens (pl_w s) - opens w) - (closes (pl_w s) - closes w) = int (LiveCount s) \<and>
    ((\<forall>i. pe_lease (entry s i) = None) \<longrightarrow>
      (let s' = snd (pool_Close s) in
        reachable P w s' \<and> LiveCount s' = 0 \<and> opens (pl_w s') - opens w = closes (pl_w s') - closes w))"
proof -
  have b: "(opens (pl_w t) - opens w) - (closes (pl_w t) - closes w) = int (LiveCount t) \<and> distinct_ids t" if "reachable P w t" for t
    using counted_pool.reachable_balanced [OF assms(1) that] by (auto simp: balanced_def LiveCount_card)
  have "reachable P w (InvalidateAll s)" if "\<forall>i. pe_lease (entry s i) = None"
    using assms(2) Invalidates_steps [of s P] that unfolding reachable_def InvalidateAll_def
    by (meson rtranclp_trans)
  moreover have "LiveCount (InvalidateAll s) = 0"
    using InvalidateAll_live [of s] b [OF assms(2)] LiveCount_card [of "InvalidateAll s"] by simp
  ultimately show ?thesis
    using b [OF assms(2)] b [of "InvalidateAll s"] by (auto simp: pool_Close_def Let_def)
qed

definition fake_returned :: "(fake_calls, unit) pool" where
  "fake_returned = pool_release (fake_pool quiet_source) 7 0 False fake_leased"

theorem pool_no_leak_witness:
  "fs_OpenCalls (pl_w fake_returned) - fs_CloseCalls (pl_w fake_returned) = 1 \<and> LiveCount fake_returned = 1 \<and>
   fs_OpenCalls (pl_w (snd (pool_Close fake_returned))) = fs_CloseCalls (pl_w (snd (pool_Close fake_returned)))"
proof -
  have r: "reachable (fake_pool quiet_source) fake_world fake_leased"
    unfolding fake_leased_def by (rule reachable_Obtain) (rule prod.collapse [symmetric])
  then have r': "reachable (fake_pool quiet_source) fake_world fake_returned"
    unfolding fake_returned_def by (rule reachable_release)
  have w: "fs_OpenCalls fake_world = 0" "fs_CloseCalls fake_world = 0"
    by (simp_all add: fake_world_def)
  have n: "LiveCount fake_returned = 1" "list_all (\<lambda>(i, e). pe_lease e = None) (pl_entries fake_returned)"
    by code_simp+
  then have "pe_lease (entry fake_returned i) = None" for i
    by (auto simp: entry_def empty_entry_def list_all_iff split: option.splits dest!: map_of_SomeD)
  then show ?thesis
    using pool_no_leak [OF fkc.counted_pool_axioms r'] n(1) w by (simp add: Let_def)
qed

text \<open>
  (C28) A released source is used again. Let a run have obtained a source at one time and given it back at
  another, and let nothing else happen to its slot. An obtain with the same configuration, before the idle
  time since the release and the maximal age since the opening have passed, returns the same source, leases
  the slot and neither builds, opens nor closes anything. When the run asks for invalidation instead, the
  source is closed and the slot is empty.
\<close>

theorem pool_Obtain_reuses:
  assumes "pool_Obtain P cfg s0 = (Inr (src, release), s)"
    and "entry t' (sc_SourceID cfg) = entry (release False t) (sc_SourceID cfg)"
    and "entry t (sc_SourceID cfg) = entry s (sc_SourceID cfg)"
    and "sp_idle P \<le> 0 \<or> time_Sub (sp_clk P (pl_w t')) (sp_clk P (pl_w t)) \<le> sp_idle P"
    and "sp_maxAge P \<le> 0 \<or> time_Sub (sp_clk P (pl_w t')) (pe_openedAt (entry s (sc_SourceID cfg))) \<le> sp_maxAge P"
  shows "(\<exists>release' s'. pool_Obtain P cfg t' = (Inr (src, release'), s') \<and> pl_w s' = pl_w t' \<and>
      pe_lease (entry s' (sc_SourceID cfg)) = Some (pl_next t')) \<and>
    pe_src (entry (release True t) (sc_SourceID cfg)) = None"
proof -
  let ?i = "sc_SourceID cfg"
  let ?fp = "ParamsFingerprint (sp_digest P) (sc_SourceType cfg) (sc_Params cfg)"
  obtain src0 where o: "src = pooled src0" "pe_src (entry s ?i) = Some src0"
    "release = pool_release P ?i (pl_next s0)" "pe_lease (entry s ?i) = Some (pl_next s0)"
    using assms(1) by (rule pool_Obtain_src)
  have fp: "pe_fp (entry s ?i) = ?fp"
    using assms(1) by (rule pool_Obtain_fp)
  have t: "entry (release False t) ?i = (entry s ?i)\<lparr> pe_lastUsed := sp_clk P (pl_w t), pe_lease := None \<rparr>"
    "pe_src (entry (release True t) ?i) = None"
    using o assms(3) by (simp_all add: pool_release_def Let_def)
  have "reusable P (entry t' ?i) ?fp (sp_clk P (pl_w t'))"
    using assms(2,4,5) t fp by (auto simp: reusable_def)
  then have "checked_slot P cfg t' = set_entry ?i (entry t' ?i) t'"
    by (simp add: checked_slot_def Let_def)
  with o t assms(2) show ?thesis
    by (simp add: pool_Obtain_def Let_def lease_def)
qed

lemma fake_leased_Obtain:
  "pool_Obtain (fake_pool quiet_source) (fake_cfg 7) (new_pool fake_world) =
    (Inr (pooled (fake_source quiet_source), pool_release (fake_pool quiet_source) 7 0), fake_leased)"
  unfolding fake_leased_def
  by (simp add: pool_Obtain_def checked_slot_def Let_def fake_cfg_def entry_def new_pool_def empty_entry_def set_entry_def
      lease_def fake_pool_def NewSourcePool_def retA_def fake_source_def FakeSource_Open_def quiet_source_def err_res_def)

theorem pool_Obtain_reuses_witness:
  "\<exists>release' s'. pool_Obtain (fake_pool quiet_source) (fake_cfg 7) fake_returned =
     (Inr (pooled (fake_source quiet_source), release'), s') \<and> fs_OpenCalls (pl_w s') = 1"
proof -
  have r: "entry fake_returned (sc_SourceID (fake_cfg 7)) =
      entry (pool_release (fake_pool quiet_source) 7 0 False fake_leased) (sc_SourceID (fake_cfg 7))"
    by (simp add: fake_returned_def)
  have l: "time_Sub (sp_clk (fake_pool quiet_source) (pl_w fake_returned))
      (sp_clk (fake_pool quiet_source) (pl_w fake_leased)) \<le> sp_idle (fake_pool (quiet_source :: unit FakeSource))"
    "time_Sub (sp_clk (fake_pool quiet_source) (pl_w fake_returned))
      (pe_openedAt (entry fake_leased (sc_SourceID (fake_cfg 7)))) \<le> sp_maxAge (fake_pool (quiet_source :: unit FakeSource))"
    "fs_OpenCalls (pl_w fake_returned) = 1"
    by code_simp+
  show ?thesis
    using pool_Obtain_reuses [OF fake_leased_Obtain r refl disjI2 [OF l(1)] disjI2 [OF l(2)]] l(3) by auto
qed

end
