(* ===== verification/Sources.thy ===== *)
theory Sources
  imports SqlServerSource PostgresSource Modbus Opcua Pool
begin

text \<open>
  \<^verbatim>\<open>internal/sources/registry.go\<close>: the factories by kind, with the registrations that the packages of the
  four source kinds make when they are initialised, and the pool over them.
\<close>

type_synonym ('w, 'x) factories = "string \<rightharpoonup> ('w, 'x) SourceFactory"

definition sources_Register :: "string \<Rightarrow> ('w, 'x) SourceFactory \<Rightarrow> ('w, 'x) factories \<Rightarrow> ('w, 'x) factories" where
  "sources_Register k f fs = fs(k \<mapsto> f)"

definition Build :: "('w, 'x) factories \<Rightarrow> ('w, 'x) SourceFactory" where
  "Build fs cfg =
     (case fs (sc_SourceType cfg) of
        None \<Rightarrow> failA (Errorf ''no source registered for kind %q'' [AStr (sc_SourceType cfg)])
      | Some f \<Rightarrow> f cfg)"

text \<open>The registry of the service, with the four packages linked in.\<close>

definition linked_sources :: "unicode_tabs \<Rightarrow> 'd sql_driver \<Rightarrow> 'd sql_driver \<Rightarrow> 'd modbus_lib \<Rightarrow> 'd opcua_lib \<Rightarrow> ('d objs, 'x) factories" where
  "linked_sources U Dm Dp MB UA =
     sources_Register opcua_kind (opcua_New UA)
       (sources_Register modbus_kind (modbus_New MB)
         (sources_Register postgres_kind (postgres_New U Dp)
           (sources_Register sqlserver_Kind (sqlserver_New U Dm) Map.empty)))"

lemmas kind_defs = opcua_kind_def modbus_kind_def postgres_kind_def sqlserver_Kind_def

lemma New_eqs:
  "opcua_New UA cfg w = (Inr (opcua_source UA cfg (so_next w)), snd (new_object w))"
  "modbus_New MB cfg w = (Inr (modbus_source MB cfg (so_next w)), snd (new_object w))"
  "postgres_New U Dp cfg w = (Inr (postgres_source U Dp cfg (so_next w)), snd (new_object w))"
  "sqlserver_New U Dm cfg w = (Inr (sqlserver_source U Dm cfg (so_next w)), snd (new_object w))"
  by (simp_all add: opcua_New_def modbus_New_def postgres_New_def sqlserver_New_def bindA_def new_object_def)

text \<open>The ways a build can go.\<close>

lemma Build_cases [consumes 1, case_names unknown opcua modbus postgres sqlserver]:
  assumes "Build (linked_sources U Dm Dp MB UA) cfg w = (r, w')"
  obtains "sc_SourceType cfg \<notin> {opcua_kind, modbus_kind, postgres_kind, sqlserver_Kind}"
      "r = Inl (Errorf ''no source registered for kind %q'' [AStr (sc_SourceType cfg)])" "w' = w"
  | "sc_SourceType cfg = opcua_kind" "r = Inr (opcua_source UA cfg (so_next w))" "w' = snd (new_object w)"
  | "sc_SourceType cfg = modbus_kind" "r = Inr (modbus_source MB cfg (so_next w))" "w' = snd (new_object w)"
  | "sc_SourceType cfg = postgres_kind" "r = Inr (postgres_source U Dp cfg (so_next w))" "w' = snd (new_object w)"
  | "sc_SourceType cfg = sqlserver_Kind" "r = Inr (sqlserver_source U Dm cfg (so_next w))" "w' = snd (new_object w)"
  using assms unfolding Build_def linked_sources_def sources_Register_def
  by (auto simp: New_eqs split: if_splits option.splits)

lemma Build_reader:
  assumes "Build (linked_sources U Dm Dp MB UA) cfg w = (Inr src, w')"
  shows "\<exists>off. source_reader (src_Read src) off"
  using assms
  by (cases rule: Build_cases)
     (auto simp: opcua_source_def modbus_source_def postgres_source_def sqlserver_source_def
       intro: opcua_reader modbus_reader postgres_reader sqlserver_reader)

text \<open>The pool of the service.\<close>

definition service_pool :: "unicode_tabs \<Rightarrow> 'd sql_driver \<Rightarrow> 'd sql_driver \<Rightarrow> 'd modbus_lib \<Rightarrow> 'd opcua_lib \<Rightarrow> PoolConfig \<Rightarrow>
    ('d objs \<Rightarrow> gtime) \<Rightarrow> (string \<Rightarrow> string) \<Rightarrow> ('d objs, 'x) SourcePool" where
  "service_pool U Dm Dp MB UA pc clk digest = NewSourcePool (Build (linked_sources U Dm Dp MB UA)) pc clk digest"

definition read_by :: "('w, 'x) Source \<Rightarrow> LoadConfig \<Rightarrow> 'w \<Rightarrow> Batch list" where
  "read_by src = (SOME off. source_reader (src_Read src) off)"

interpretation service: reading_pool "service_pool U Dm Dp MB UA pc clk digest" read_by for U Dm Dp MB UA pc clk digest
proof (rule reading_pool.intro)
  fix cfg w src w'
  assume "sp_build (service_pool U Dm Dp MB UA pc clk digest) cfg w = (Inr src, w')"
  then have "\<exists>off. source_reader (src_Read src) off"
    by (auto simp: service_pool_def NewSourcePool_def intro: Build_reader)
  then show "source_reader (src_Read src) (read_by src)"
    unfolding read_by_def by (rule someI_ex)
qed

text \<open>
  A build is of the kind asked for. With the four packages linked in, \<^verbatim>\<open>Build\<close> fails, naming the type and
  changing nothing, exactly for the types that are none of \<^verbatim>\<open>sqlserver\<close>, \<^verbatim>\<open>postgres\<close>, \<^verbatim>\<open>modbus\<close> and \<^verbatim>\<open>opcua\<close>;
  otherwise it makes a new, unopened object of just that kind, which reads as a source should.
\<close>

theorem Build_kind:
  "case Build (linked_sources U Dm Dp MB UA) cfg w of (r, w') \<Rightarrow>
    if sc_SourceType cfg \<in> {''sqlserver'', ''postgres'', ''modbus'', ''opcua''}
    then \<exists>src off. r = Inr src \<and> src_Kind src = sc_SourceType cfg \<and> src_obj src = so_next w \<and>
      so_conn w' (src_obj src) = None \<and> so_next w' = so_next w + 1 \<and> so_ext w' = so_ext w \<and> source_reader (src_Read src) off
    else r = Inl (Errorf ''no source registered for kind %q'' [AStr (sc_SourceType cfg)]) \<and> w' = w"
  (is "case ?B of (r, w') \<Rightarrow> ?P r w'")
proof -
  obtain r w' where b: "?B = (r, w')" by fastforce
  have rd: "\<exists>off. source_reader (src_Read src) off" if "r = Inr src" for src
    using b that Build_reader by blast
  show ?thesis
    unfolding b prod.case using b
    by (cases rule: Build_cases)
       (use rd in \<open>auto simp: kind_defs opcua_source_def modbus_source_def postgres_source_def sqlserver_source_def new_object_def\<close>)
qed

end
