(* ===== verification/PooledRuns.thy ===== *)
theory PooledRuns
  imports Runs Sources
begin

text \<open>
  Runs that obtain their sources from the pool, as \<^verbatim>\<open>cmd/loader/main.go\<close> wires them: what a run does to the
  pool, and that a pool over the linked sources keeps the contract the properties of a run rest on.
\<close>

section \<open>What a run does to the session manager\<close>

lemma fail_run_sess [simp]: "rw_sess (fail_run R clk load run current rr rw msg ob W) = rw_sess W"
  by (simp add: fail_run_def split: prod.splits)

lemma finish_success_sess: "finish_success R clk load run v rr rw W = (e, W') \<Longrightarrow> rw_sess W' = rw_sess W"
  by (auto simp: finish_success_def Let_def split: prod.splits sum.splits)

lemma settle_sess: "settle R clk load run current result n W = (e, W') \<Longrightarrow> rw_sess W' = rw_sess W"
  by (auto simp: settle_def Let_def split: prod.splits sum.splits if_splits dest: finish_success_sess)

text \<open>Only the read touches the sources, and the flag says whether it failed.\<close>

definition one_read :: "('s, 'x) Source \<Rightarrow> bool \<Rightarrow> 's \<Rightarrow> 's \<Rightarrow> bool" where
  "one_read src invd s s' \<longleftrightarrow>
     (\<not> invd \<and> s' = s) \<or> (\<exists>L h x rr err x'. src_Read src L h s x = ((rr, err), s', x') \<and> (invd \<longleftrightarrow> err \<noteq> None))"

lemma read_phase_sess:
  assumes "read_phase R clk load run current src repl W = (e, invd, repl', W')"
  shows "one_read src invd (rw_sess W) (rw_sess W')"
proof -
  let ?hs0 = "\<lparr> h_sink = rw_sink W, h_repl = repl, h_first = True, h_written = 0,
     h_writeTo = (case repl of None \<Rightarrow> run_target load | Some s \<Rightarrow> rp_writeTo s) \<rparr>"
  obtain rr err s1 hs where rd:
    "src_Read src (load_config load current) (handler (rn_sink R) load (clk 0)) (rw_sess W) ?hs0 = ((rr, err), s1, hs)"
    by (metis prod.collapse)
  have "rw_sess W' = s1 \<and> (invd \<longleftrightarrow> err \<noteq> None)"
  proof (cases err)
    case (Some e')
    then show ?thesis
      using assms rd by (auto simp: read_phase_def Let_def)
  next
    case None
    show ?thesis
    proof (cases "h_repl hs")
      case hn: None
      then show ?thesis
        using assms rd None by (auto simp: read_phase_def Let_def split: prod.splits dest!: settle_sess)
    next
      case (Some s)
      then show ?thesis
        using assms rd None by (auto simp: read_phase_def Let_def split: prod.splits sum.splits dest!: settle_sess)
    qed
  qed
  then show ?thesis
    using rd unfolding one_read_def by blast
qed

lemma started_phase_sess:
  assumes "started_phase R clk load run current src W = (e, invd, W')"
  shows "one_read src invd (rw_sess W) (rw_sess W')"
proof (cases "ld_Mode load = LoadModeReplace")
  case True
  obtain q k' s' where p: "prepareExisting (rn_sink R) (rw_sink W, newReplaceSession (rn_sink R) (run_target load)) = (q, (k', s'))"
    by (metis prod.collapse)
  show ?thesis
  proof (cases q)
    case (Inl e')
    then show ?thesis
      using assms True p by (auto simp: started_phase_def one_read_def)
  next
    case (Inr u)
    obtain e1 i1 repl W1 where r: "read_phase R clk load run current src (Some s') (W\<lparr> rw_sink := k' \<rparr>) = (e1, i1, repl, W1)"
      by (metis prod.collapse)
    have "invd = i1" "rw_sess W' = rw_sess W1"
      using assms True p Inr r by (auto simp: started_phase_def split: option.splits)
    then show ?thesis
      using read_phase_sess [OF r] by simp
  qed
next
  case False
  obtain e1 i1 repl W1 where r: "read_phase R clk load run current src None W = (e1, i1, repl, W1)"
    by (metis prod.collapse)
  then show ?thesis
    using assms False read_phase_sess [OF r] by (simp add: started_phase_def)
qed

lemma run_phase_sess:
  assumes "run_phase R clk load src W = (e, invd, W')"
  shows "one_read src invd (rw_sess W) (rw_sess W')"
  using assms
  by (auto simp: run_phase_def Let_def one_read_def [of _ False] split: prod.splits sum.splits dest!: started_phase_sess)

text \<open>
  What a run as a whole does to it: nothing, an obtain that fails, or an obtain, at most one read and the release.
\<close>

lemma Execute_sess:
  assumes "Execute R clk load W = (e, W')"
  obtains "rw_sess W' = rw_sess W"
    | cfg e' where "ss_Obtain (rn_sessions R) cfg (rw_sess W) = (Inl e', rw_sess W')"
    | cfg src release s1 invd s2 where "ss_Obtain (rn_sessions R) cfg (rw_sess W) = (Inr (src, release), s1)"
        "one_read src invd s1 s2" "rw_sess W' = release invd s2"
proof (cases "ResolveParams (rn_getenv R) (ms_ParamsJSON (ld_Source (force_append load)))")
  case (Inl e')
  then show ?thesis
    using assms that(1) by (simp add: Execute_def Let_def)
next
  case (Inr params)
  let ?cfg = "source_config R (force_append load) params"
  obtain q s1 where ob: "ss_Obtain (rn_sessions R) ?cfg (rw_sess W) = (q, s1)" by fastforce
  show ?thesis
  proof (cases q)
    case qI: (Inl e')
    then have "rw_sess W' = s1"
      using assms Inr ob by (auto simp: Execute_def Let_def)
    then show ?thesis
      using that(2) ob qI by simp
  next
    case qI: (Inr sr)
    obtain src release where sr: "sr = (src, release)" by fastforce
    obtain e1 invd W1 where r: "run_phase R clk (force_append load) src (W\<lparr> rw_sess := s1 \<rparr>) = (e1, invd, W1)"
      by (metis prod.collapse)
    have "rw_sess W' = release invd (rw_sess W1)"
      using assms Inr ob qI sr r by (auto simp: Execute_def Let_def)
    moreover have "one_read src invd s1 (rw_sess W1)"
      using run_phase_sess [OF r] by simp
    ultimately show ?thesis
      using that(3) ob qI sr by simp
  qed
qed

section \<open>Runs on the pool\<close>

lemma one_read_pooled:
  assumes "one_read (pooled src) invd s s'" and "pe_lease (entry s i) = Some n" and "pe_src (entry s i) = Some src"
  shows "(pool_step P)\<^sup>*\<^sup>* s s' \<and> pl_entries s' = pl_entries s"
  using assms(1) unfolding one_read_def
proof
  assume "\<exists>L h x rr err x'. src_Read (pooled src) L h s x = ((rr, err), s', x') \<and> (invd \<longleftrightarrow> err \<noteq> None)"
  then obtain L h x rr err x' where rd: "src_Read (pooled src) L h s x = ((rr, err), s', x')" by blast
  then have "pl_entries s' = pl_entries s"
    by (auto simp: pooled_def split: prod.splits)
  moreover have "pool_step P s s'"
    by (rule Read_step [OF assms(2,3) rd])
  ultimately show ?thesis by blast
qed simp

text \<open>
  (C14) A run on the pool. The effect of a run on the pool, however it ends, is a sequence of the pool's
  steps, so that what holds in all states the pool can come to also holds between runs. A slot that was
  free when the run began is free when it returns, so the next run of the source is not blocked; and the
  slots of other sources are as they were.
\<close>

theorem Execute_on_pool:
  assumes "Execute R clk load W = (e, W')" and "rn_sessions R = pool_session P"
    and "pe_lease (entry (rw_sess W) (ld_SourceID load)) = None"
  shows "(pool_step P)\<^sup>*\<^sup>* (rw_sess W) (rw_sess W') \<and> pe_lease (entry (rw_sess W') (ld_SourceID load)) = None \<and>
    (\<forall>j. j \<noteq> ld_SourceID load \<longrightarrow> entry (rw_sess W') j = entry (rw_sess W) j)"
proof (cases "ResolveParams (rn_getenv R) (ms_ParamsJSON (ld_Source (force_append load)))")
  case (Inl e')
  then show ?thesis
    using assms by (simp add: Execute_def Let_def)
next
  case (Inr params)
  let ?cfg = "source_config R (force_append load) params"
  let ?i = "ld_SourceID load"
  have i: "sc_SourceID ?cfg = ?i"
    by (simp add: source_config_def force_append_def)
  obtain q s1 where ob: "pool_Obtain P ?cfg (rw_sess W) = (q, s1)" by fastforce
  have step: "pool_step P (rw_sess W) s1"
    using Obtain_step [OF _ ob] assms(3) i by simp
  have oth: "entry s1 j = entry (rw_sess W) j" if "j \<noteq> ?i" for j
    using entry_Obtain_other [OF ob] that i by simp
  show ?thesis
  proof (cases q)
    case qI: (Inl e')
    then have "rw_sess W' = s1"
      using assms(1,2) Inr ob by (auto simp: Execute_def Let_def pool_session_def)
    moreover have "pe_lease (entry s1 ?i) = None"
      using ob qI assms(3) i by (cases rule: pool_Obtain_cases) (auto simp: lease_def)
    ultimately show ?thesis
      using step oth by auto
  next
    case qI: (Inr sr)
    obtain src release where sr: "sr = (src, release)" by fastforce
    obtain src0 where o: "src = pooled src0" "pe_src (entry s1 ?i) = Some src0"
      "release = pool_release P ?i (pl_next (rw_sess W))" "pe_lease (entry s1 ?i) = Some (pl_next (rw_sess W))"
      using ob qI sr i by (auto elim: pool_Obtain_src)
    obtain e1 invd W1 where r: "run_phase R clk (force_append load) src (W\<lparr> rw_sess := s1 \<rparr>) = (e1, invd, W1)"
      by (metis prod.collapse)
    have W': "rw_sess W' = release invd (rw_sess W1)"
      using assms(1,2) Inr ob qI sr r by (auto simp: Execute_def Let_def pool_session_def)
    have rd: "(pool_step P)\<^sup>*\<^sup>* s1 (rw_sess W1)" "pl_entries (rw_sess W1) = pl_entries s1"
      using one_read_pooled [of src0 invd s1 "rw_sess W1" ?i] run_phase_sess [OF r] o by auto
    then have e1: "entry (rw_sess W1) = entry s1"
      by (simp add: entry_def fun_eq_iff)
    have "pool_step P (rw_sess W1) (rw_sess W')"
      unfolding W' o(3) by (rule release_step)
    then have "(pool_step P)\<^sup>*\<^sup>* (rw_sess W) (rw_sess W')"
      using step rd(1) by (meson converse_rtranclp_into_rtranclp rtranclp.rtrancl_into_rtrancl)
    then show ?thesis
      unfolding W' o(3) using o(4) e1 oth by simp
  qed
qed

text \<open>A run of a source that has nothing to read, on a pool of test doubles.\<close>

definition pool_runner :: "(memgorm, memdb, (fake_calls, memdb hstate) pool) Runner" where
  "pool_runner = wired ascii_tabs MemDB MemGorm None (pool_session (fake_pool quiet_source)) (\<lambda>_. [])"

definition pool_world :: "(memgorm, memdb, (fake_calls, memdb hstate) pool) rworld" where
  "pool_world = \<lparr> rw_repo = demo_meta, rw_sink = demo_db, rw_sess = new_pool fake_world,
     rw_reg = Register (runstate_New 0) (demo_state\<lparr> ls_LoadID := 7 \<rparr>), rw_met = [] \<rparr>"

definition pool_run :: "gerr option \<times> (memgorm, memdb, (fake_calls, memdb hstate) pool) rworld" where
  "pool_run = Execute pool_runner demo_clk (demo_job LoadModeAppend) pool_world"

theorem Execute_on_pool_witness:
  "pe_lease (entry (rw_sess (snd pool_run)) (ld_SourceID (demo_job LoadModeAppend))) = None \<and>
   fst pool_run = None \<and> LiveCount (rw_sess (snd pool_run)) = 1"
proof -
  have x: "Execute pool_runner demo_clk (demo_job LoadModeAppend) pool_world = (fst pool_run, snd pool_run)"
    by (simp add: pool_run_def)
  have "pe_lease (entry (rw_sess pool_world) (ld_SourceID (demo_job LoadModeAppend))) = None"
    by (simp add: pool_world_def new_pool_def entry_def empty_entry_def)
  then have "pe_lease (entry (rw_sess (snd pool_run)) (ld_SourceID (demo_job LoadModeAppend))) = None"
    using Execute_on_pool [OF x, of "fake_pool quiet_source"] by (simp add: pool_runner_def wired_def)
  moreover have "fst pool_run = None" "LiveCount (rw_sess (snd pool_run)) = 1"
    by code_simp+
  ultimately show ?thesis by simp
qed

text \<open>
  The pool over the linked sources is a session manager with the contract of the runner's environment, so
  the properties of a run hold for the service as it is wired.
\<close>

lemma service_env:
  assumes "mssql_server D committed intx bulk" and "gorm_store G view"
  shows "runner_env (wired U D G tel (pool_session (service_pool U Dm Dp MB UA pc clk digest)) env) (mssql_replacer U D)
    committed (stored_rows D) stage_of aside_of dotless (\<lambda>g. stored_wmark (view g)) (\<lambda>g. stored_runs (view g))
    (pool_ok (\<lambda>src. source_reader (src_Read src) (read_by src))) (pool_offers read_by)"
  by (rule wired_env [OF assms service.pool_source_session])

end
