(* ===== verification/Scheduler.thy ===== *)
theory Scheduler
  imports Runner Repository
begin

text \<open>
  \<^verbatim>\<open>internal/scheduler/scheduler.go\<close>, and \<^verbatim>\<open>MetadataFingerprint\<close> of \<^verbatim>\<open>internal/metadata/repository.go\<close>. The cron
  library is a parameter: a record of the calls the scheduler makes on its state \<open>'c\<close>, with the contract in
  the locale \<open>cron_table\<close>. \<open>ord\<close> is the order in which a \<^verbatim>\<open>range\<close> visits the keys of a map. A triggered run goes
  on while other things happen, so \<^verbatim>\<open>trigger\<close> is two steps of the scheduler with the run between them.
\<close>

section \<open>The fingerprint of the metadata\<close>

definition bool_text :: "bool \<Rightarrow> string" where
  "bool_text b = (if b then ''true'' else ''false'')"

definition source_line :: "meta_Source \<Rightarrow> string" where
  "source_line s = Join [itoa (ms_ID s), ms_Kind s, ms_ParamsJSON s, bool_text (ms_IsEnabled s)] ''|'' @ [CHR 0x0A]"

definition load_line :: "meta_Load \<Rightarrow> string" where
  "load_line l =
     Join [itoa (ld_ID l), itoa (ld_SourceID l), ld_CronExpression l, ld_Mode l, ld_WatermarkColumn l, ld_WatermarkType l,
           ld_ObjectName l, ld_TargetSchema l, ld_TargetTable l, itoa (ld_BatchSize l), bool_text (ld_AutoCreateTable l),
           bool_text (ld_IsEnabled l)] ''|'' @ [CHR 0x0A]"

text \<open>\<^verbatim>\<open>GROUP BY load_id ORDER BY load_id\<close>: the enabled and all rows of each load.\<close>

definition tag_counts :: "('row \<Rightarrow> int) \<Rightarrow> ('row \<Rightarrow> bool) \<Rightarrow> 'row list \<Rightarrow> (int \<times> int \<times> int) list" where
  "tag_counts lid en rows =
     map (\<lambda>i. (i, int (length (filter (\<lambda>r. lid r = i \<and> en r) rows)), int (length (filter (\<lambda>r. lid r = i) rows))))
       (sort (remdups (map lid rows)))"

definition count_line :: "int \<times> int \<times> int \<Rightarrow> string" where
  "count_line = (\<lambda>(i, e, t). Join [itoa i, itoa e, itoa t] ''|'' @ [CHR 0x0A])"

definition metadata_text :: "meta_Source list \<Rightarrow> meta_Load list \<Rightarrow> (int \<times> int \<times> int) list \<Rightarrow> (int \<times> int \<times> int) list \<Rightarrow> string" where
  "metadata_text ss ls mts ons =
     ''SOURCES:'' @ [CHR 0x0A] @ concat (map source_line ss) @ ''LOADS:'' @ [CHR 0x0A] @ concat (map load_line ls) @
     ''MODBUS:'' @ [CHR 0x0A] @ concat (map count_line mts) @ ''OPCUA:'' @ [CHR 0x0A] @ concat (map count_line ons)"

definition MetadataFingerprint :: "'g gorm_db \<Rightarrow> (string \<Rightarrow> string) \<Rightarrow> ('g, string) act" where
  "MetadataFingerprint G digest =
     bindA (wrapA (wrapf ''fingerprint sources'') (gt_Find (g_sources G) (\<lambda>s. ms_DeletedAt s = None))) (\<lambda>ss.
     bindA (wrapA (wrapf ''fingerprint loads'') (gt_Find (g_loads G) (\<lambda>l. ld_DeletedAt l = None))) (\<lambda>ls.
     bindA (wrapA (wrapf ''fingerprint modbus tags'') (gt_Find (g_modbus G) (\<lambda>_. True))) (\<lambda>mts.
     bindA (wrapA (wrapf ''fingerprint opcua nodes'') (gt_Find (g_opcua G) (\<lambda>_. True))) (\<lambda>ons.
     retA (digest (metadata_text (sort_key ms_ID ss) (sort_key ld_ID ls)
       (tag_counts mt_LoadID mt_IsEnabled mts) (tag_counts on_LoadID on_IsEnabled ons)))))))"

section \<open>The state\<close>

record scheduledLoad =
  sl_load :: meta_Load
  sl_entryID :: nat

record 'c cron_lib =
  cr_AddFunc :: "string \<Rightarrow> int \<Rightarrow> ('c, nat) act"
  cr_Remove :: "nat \<Rightarrow> 'c \<Rightarrow> 'c"

record 'r RunAborter =
  ra_AbortRunningRuns :: "string \<Rightarrow> ('r, int) act"
  ra_ListEnabledLoads :: "('r, meta_Load list) act"
  ra_MetadataFingerprint :: "('r, string) act"

record 'c Scheduler =
  sh_scheduled :: "int \<rightharpoonup> scheduledLoad"
  sh_running :: "int set"
  sh_fingerprint :: string
  sh_cron :: 'c
  sh_shutdownTimeout :: int

definition scheduler_New :: "int \<Rightarrow> 'c \<Rightarrow> 'c Scheduler" where
  "scheduler_New shutdownTimeout c =
     \<lparr> sh_scheduled = Map.empty, sh_running = {}, sh_fingerprint = [], sh_cron = c,
       sh_shutdownTimeout = (if shutdownTimeout \<le> 0 then 60 * second_ns else shutdownTimeout) \<rparr>"

text \<open>The scheduler together with the world its runs work on.\<close>

record ('c, 'r, 'k, 's) sworld =
  sw_sched :: "'c Scheduler"
  sw_run :: "('r, 'k, 's) rworld"

definition on_repo :: "('r, 'a) act \<Rightarrow> (('c, 'r, 'k, 's) sworld, 'a) act" where
  "on_repo m S = (case m (rw_repo (sw_run S)) of (r, g) \<Rightarrow> (r, S\<lparr> sw_run := (sw_run S)\<lparr> rw_repo := g \<rparr> \<rparr>))"

definition repo_RunAborter :: "'g gorm_db \<Rightarrow> (string \<Rightarrow> string) \<Rightarrow> 'g RunAborter" where
  "repo_RunAborter G digest = \<lparr> ra_AbortRunningRuns = AbortRunningRuns G, ra_ListEnabledLoads = ListEnabledLoads G,
     ra_MetadataFingerprint = MetadataFingerprint G digest \<rparr>"

section \<open>Reload\<close>

definition drop_stale :: "'c cron_lib \<Rightarrow> (int \<rightharpoonup> meta_Load) \<Rightarrow> int \<Rightarrow> 'c Scheduler \<Rightarrow> 'c Scheduler" where
  "drop_stale C desired i s =
     (case sh_scheduled s i of
        Some ex \<Rightarrow>
          (if desired i = None
           then s\<lparr> sh_cron := cr_Remove C (sl_entryID ex) (sh_cron s), sh_scheduled := (sh_scheduled s)(i := None) \<rparr>
           else s)
      | None \<Rightarrow> s)"

definition add_entry :: "'c cron_lib \<Rightarrow> int \<Rightarrow> meta_Load \<Rightarrow> 'c Scheduler \<Rightarrow> 'c Scheduler" where
  "add_entry C i ld s =
     (case cr_AddFunc C (ld_CronExpression ld) (ld_ID ld) (sh_cron s) of
        (Inl e, c) \<Rightarrow> s\<lparr> sh_cron := c \<rparr>
      | (Inr n, c) \<Rightarrow> s\<lparr> sh_cron := c, sh_scheduled := (sh_scheduled s)(i \<mapsto> \<lparr> sl_load = ld, sl_entryID = n \<rparr>) \<rparr>)"

definition sync_load :: "'c cron_lib \<Rightarrow> (int \<rightharpoonup> meta_Load) \<Rightarrow> int \<Rightarrow> 'c Scheduler \<Rightarrow> 'c Scheduler" where
  "sync_load C desired i s =
     (case desired i of
        None \<Rightarrow> s
      | Some ld \<Rightarrow>
          (case sh_scheduled s i of
             Some ex \<Rightarrow>
               (if ld_CronExpression (sl_load ex) \<noteq> ld_CronExpression ld
                then add_entry C i ld (s\<lparr> sh_cron := cr_Remove C (sl_entryID ex) (sh_cron s) \<rparr>)
                else s\<lparr> sh_scheduled := (sh_scheduled s)(i \<mapsto> ex\<lparr> sl_load := ld \<rparr>) \<rparr>)
           | None \<Rightarrow> add_entry C i ld s))"

definition load_state :: "meta_Load \<Rightarrow> LoadState" where
  "load_state ld =
     \<lparr> ls_LoadID = ld_ID ld, ls_LoadName = ld_Name ld, ls_SourceName = ms_Name (ld_Source ld),
       ls_SourceKind = ms_Kind (ld_Source ld), ls_CronExpression = ld_CronExpression ld, ls_LastRunUUID = [],
       ls_LastStartedAt = zero_time, ls_LastFinishedAt = zero_time, ls_LastStatus = [], ls_LastRowsRead = 0,
       ls_LastRowsWritten = 0, ls_LastError = [], ls_CurrentlyRunning = False \<rparr>"

definition desired_by_id :: "meta_Load list \<Rightarrow> int \<rightharpoonup> meta_Load" where
  "desired_by_id desired = foldl (\<lambda>m ld. m(ld_ID ld \<mapsto> ld)) Map.empty desired"

definition synced :: "'c cron_lib \<Rightarrow> (int set \<Rightarrow> int list) \<Rightarrow> meta_Load list \<Rightarrow> 'c Scheduler \<Rightarrow> 'c Scheduler" where
  "synced C ord desired s =
     (let by_id = desired_by_id desired;
          s1 = fold (drop_stale C by_id) (ord (dom (sh_scheduled s))) s
      in fold (sync_load C by_id) (ord (ld_ID ` set desired)) s1)"

definition Reload :: "'c cron_lib \<Rightarrow> (int set \<Rightarrow> int list) \<Rightarrow> 'r RunAborter \<Rightarrow> (('c, 'r, 'k, 's) sworld, unit) act" where
  "Reload C ord A S =
     (case on_repo (ra_MetadataFingerprint A) S of
        (Inl e, S1) \<Rightarrow> (Inl e, S1)
      | (Inr fp, S1) \<Rightarrow>
          if fp = sh_fingerprint (sw_sched S1) then (Inr (), S1)
          else
            (case on_repo (ra_ListEnabledLoads A) S1 of
               (Inl e, S2) \<Rightarrow> (Inl e, S2)
             | (Inr desired, S2) \<Rightarrow>
                 (Inr (), S2\<lparr> sw_sched := (synced C ord desired (sw_sched S2))\<lparr> sh_fingerprint := fp \<rparr>,
                             sw_run := (sw_run S2)\<lparr> rw_reg := foldl Register (rw_reg (sw_run S2)) (map load_state desired) \<rparr> \<rparr>)))"

definition scheduler_Load :: "'c cron_lib \<Rightarrow> (int set \<Rightarrow> int list) \<Rightarrow> 'r RunAborter \<Rightarrow> (('c, 'r, 'k, 's) sworld, unit) act" where
  "scheduler_Load C ord A =
     bindA (on_repo (ra_AbortRunningRuns A ''aborted: orphaned running row at startup'')) (\<lambda>_. Reload C ord A)"

section \<open>Triggered runs\<close>

text \<open>The first half of \<^verbatim>\<open>trigger\<close>: the load to run, if one is to run.\<close>

definition trigger_start :: "int \<Rightarrow> ('c, 'r, 'k, 's) sworld \<Rightarrow> meta_Load option \<times> ('c, 'r, 'k, 's) sworld" where
  "trigger_start loadID S =
     (case sh_scheduled (sw_sched S) loadID of
        None \<Rightarrow> (None, S)
      | Some ent \<Rightarrow>
          if loadID \<in> sh_running (sw_sched S)
          then (None, S\<lparr> sw_run := (sw_run S)\<lparr> rw_met := ObserveOverlapSkip (ld_Name (sl_load ent)) (rw_met (sw_run S)) \<rparr> \<rparr>)
          else (Some (sl_load ent), S\<lparr> sw_sched := (sw_sched S)\<lparr> sh_running := insert loadID (sh_running (sw_sched S)) \<rparr> \<rparr>))"

definition trigger_end :: "int \<Rightarrow> ('c, 'r, 'k, 's) sworld \<Rightarrow> ('c, 'r, 'k, 's) sworld" where
  "trigger_end loadID S = S\<lparr> sw_sched := (sw_sched S)\<lparr> sh_running := sh_running (sw_sched S) - {loadID} \<rparr> \<rparr>"

definition trigger :: "('r, 'k, 's) Runner \<Rightarrow> (nat \<Rightarrow> gtime) \<Rightarrow> int \<Rightarrow> ('c, 'r, 'k, 's) sworld \<Rightarrow> ('c, 'r, 'k, 's) sworld" where
  "trigger R clk loadID S =
     (case trigger_start loadID S of
        (None, S1) \<Rightarrow> S1
      | (Some load, S1) \<Rightarrow> trigger_end loadID (S1\<lparr> sw_run := snd (Execute R clk load (sw_run S1)) \<rparr>))"

text \<open>
  \<^verbatim>\<open>Stop\<close> once the wait for the runs is over, by the end of the last run or by the timeout; the result of
  \<^verbatim>\<open>AbortRunningRuns\<close> is only logged.
\<close>

definition scheduler_Stop :: "'r RunAborter \<Rightarrow> ('c, 'r, 'k, 's) sworld \<Rightarrow> ('c, 'r, 'k, 's) sworld" where
  "scheduler_Stop A S = snd (on_repo (ra_AbortRunningRuns A ''aborted: shutdown timeout'') S)"

section \<open>The cron table\<close>

text \<open>
  What the scheduler relies on of the cron library: \<open>entries c\<close> are the entries by id, each with its expression
  and the load that its function triggers; an expression that is not \<open>valid\<close> is refused and adds nothing.
\<close>

locale cron_table =
  fixes C :: "'c cron_lib"
    and entries :: "'c \<Rightarrow> nat \<rightharpoonup> string \<times> int"
    and valid :: "string \<Rightarrow> bool"
  assumes add_ok: "cr_AddFunc C spec job c = (Inr n, c') \<Longrightarrow>
      valid spec \<and> entries c n = None \<and> entries c' = (entries c)(n \<mapsto> (spec, job))"
    and add_err: "cr_AddFunc C spec job c = (Inl e, c') \<Longrightarrow> \<not> valid spec \<and> entries c' = entries c"
    and remove: "entries (cr_Remove C n c) = (entries c)(n := None)"

text \<open>The scheduler and the cron table agree: one entry for each scheduled load, with its expression.\<close>

definition sched_ok :: "('c \<Rightarrow> nat \<rightharpoonup> string \<times> int) \<Rightarrow> 'c Scheduler \<Rightarrow> bool" where
  "sched_ok entries s \<longleftrightarrow>
     (\<forall>i sl. sh_scheduled s i = Some sl \<longrightarrow>
        ld_ID (sl_load sl) = i \<and> entries (sh_cron s) (sl_entryID sl) = Some (ld_CronExpression (sl_load sl), i)) \<and>
     (\<forall>n spec j. entries (sh_cron s) n = Some (spec, j) \<longrightarrow> (\<exists>sl. sh_scheduled s j = Some sl \<and> sl_entryID sl = n))"

lemma desired_by_id_snoc: "desired_by_id (ds @ [ld]) = (desired_by_id ds)(ld_ID ld \<mapsto> ld)"
  by (simp add: desired_by_id_def)

lemma desired_by_id_SomeD: "desired_by_id ds i = Some ld \<Longrightarrow> ld_ID ld = i \<and> ld \<in> set ds"
  by (induction ds rule: rev_induct) (auto simp: desired_by_id_snoc desired_by_id_def split: if_splits)

lemma dom_desired_by_id: "dom (desired_by_id ds) = ld_ID ` set ds"
proof (induction ds rule: rev_induct)
  case Nil
  then show ?case by (simp add: desired_by_id_def)
next
  case (snoc ld ds)
  have "dom (desired_by_id (ds @ [ld])) = insert (ld_ID ld) (dom (desired_by_id ds))"
    unfolding desired_by_id_snoc by (auto simp: dom_def)
  then show ?case
    using snoc by simp
qed

text \<open>An operation on one key leaves the others alone.\<close>

lemma drop_stale_other: "j \<noteq> i \<Longrightarrow> sh_scheduled (drop_stale C d i s) j = sh_scheduled s j"
  by (simp add: drop_stale_def split: option.splits)

lemma add_entry_other: "j \<noteq> i \<Longrightarrow> sh_scheduled (add_entry C i ld s) j = sh_scheduled s j"
  by (simp add: add_entry_def split: prod.splits sum.splits)

lemma sync_load_other: "j \<noteq> i \<Longrightarrow> sh_scheduled (sync_load C d i s) j = sh_scheduled s j"
  by (simp add: sync_load_def add_entry_other split: option.splits)

lemma fold_drop_other: "j \<notin> set is \<Longrightarrow> sh_scheduled (fold (drop_stale C d) is s) j = sh_scheduled s j"
  by (induction "is" arbitrary: s) (auto simp: drop_stale_other)

lemma fold_sync_other: "j \<notin> set is \<Longrightarrow> sh_scheduled (fold (sync_load C d) is s) j = sh_scheduled s j"
  by (induction "is" arbitrary: s) (auto simp: sync_load_other)

lemma synced_running: "sh_running (synced C ord ds s) = sh_running s"
proof -
  have a: "sh_running (add_entry C i ld s) = sh_running s" for i ld s
    by (simp add: add_entry_def split: prod.splits sum.splits)
  have d: "sh_running (drop_stale C m i s) = sh_running s" for m i s
    by (simp add: drop_stale_def split: option.splits)
  have y: "sh_running (sync_load C m i s) = sh_running s" for m i s
    by (simp add: sync_load_def a split: option.splits)
  have "sh_running (fold (drop_stale C m) is s) = sh_running s" for m "is" s
    by (induction "is" arbitrary: s) (simp_all add: d)
  moreover have "sh_running (fold (sync_load C m) is s) = sh_running s" for m "is" s
    by (induction "is" arbitrary: s) (simp_all add: y)
  ultimately show ?thesis
    by (simp add: synced_def Let_def)
qed

context cron_table
begin

lemma sched_okD:
  assumes "sched_ok entries s"
  shows "sh_scheduled s i = Some sl \<Longrightarrow> ld_ID (sl_load sl) = i"
    and "sh_scheduled s i = Some sl \<Longrightarrow> entries (sh_cron s) (sl_entryID sl) = Some (ld_CronExpression (sl_load sl), i)"
    and "entries (sh_cron s) n = Some (spec, j) \<Longrightarrow> \<exists>sl. sh_scheduled s j = Some sl \<and> sl_entryID sl = n"
  using assms unfolding sched_ok_def by blast+

text \<open>Taking the entry of a load out of the table, and the load out of the map.\<close>

lemma sched_okI:
  assumes "\<And>i sl. sh_scheduled s i = Some sl \<Longrightarrow>
      ld_ID (sl_load sl) = i \<and> entries (sh_cron s) (sl_entryID sl) = Some (ld_CronExpression (sl_load sl), i)"
    and "\<And>n spec j. entries (sh_cron s) n = Some (spec, j) \<Longrightarrow> \<exists>sl. sh_scheduled s j = Some sl \<and> sl_entryID sl = n"
  shows "sched_ok entries s"
  using assms unfolding sched_ok_def by blast

lemma sched_ok_drop:
  assumes "sched_ok entries s" and "sh_scheduled s i = Some ex"
  shows "sched_ok entries (s\<lparr> sh_cron := cr_Remove C (sl_entryID ex) (sh_cron s), sh_scheduled := (sh_scheduled s)(i := None) \<rparr>)"
    (is "sched_ok entries ?s'")
proof (rule sched_okI)
  note D = sched_okD [OF assms(1)]
  fix j sl
  assume "sh_scheduled ?s' j = Some sl"
  then have j: "j \<noteq> i" "sh_scheduled s j = Some sl"
    by (simp_all split: if_splits)
  then have "sl_entryID sl \<noteq> sl_entryID ex"
    using D(2) [OF j(2)] D(2) [OF assms(2)] by auto
  then show "ld_ID (sl_load sl) = j \<and> entries (sh_cron ?s') (sl_entryID sl) = Some (ld_CronExpression (sl_load sl), j)"
    using D(1,2) [OF j(2)] by (simp add: remove)
next
  note D = sched_okD [OF assms(1)]
  fix n spec j
  assume "entries (sh_cron ?s') n = Some (spec, j)"
  then have n: "n \<noteq> sl_entryID ex" "entries (sh_cron s) n = Some (spec, j)"
    by (simp_all add: remove split: if_splits)
  then obtain sl where sl: "sh_scheduled s j = Some sl" "sl_entryID sl = n"
    using D(3) by blast
  then have "j \<noteq> i"
    using n(1) assms(2) by auto
  then show "\<exists>sl. sh_scheduled ?s' j = Some sl \<and> sl_entryID sl = n"
    using sl by simp
qed

lemma sched_ok_add:
  assumes "sched_ok entries s" and "sh_scheduled s i = None" and "ld_ID ld = i"
  shows "sched_ok entries (add_entry C i ld s) \<and>
    map_option sl_load (sh_scheduled (add_entry C i ld s) i) = (if valid (ld_CronExpression ld) then Some ld else None)"
proof -
  note D = sched_okD [OF assms(1)]
  obtain r c where a: "cr_AddFunc C (ld_CronExpression ld) (ld_ID ld) (sh_cron s) = (r, c)" by fastforce
  show ?thesis
  proof (cases r)
    case (Inl e)
    then show ?thesis
      using a add_err [of "ld_CronExpression ld" "ld_ID ld" "sh_cron s" e c] assms by (simp add: add_entry_def sched_ok_def)
  next
    case (Inr n)
    then have n: "valid (ld_CronExpression ld)" "entries (sh_cron s) n = None"
      "entries c = (entries (sh_cron s))(n \<mapsto> (ld_CronExpression ld, i))"
      using a add_ok [of "ld_CronExpression ld" "ld_ID ld" "sh_cron s" n c] assms(3) by simp_all
    let ?s' = "s\<lparr> sh_cron := c, sh_scheduled := (sh_scheduled s)(i \<mapsto> \<lparr> sl_load = ld, sl_entryID = n \<rparr>) \<rparr>"
    have s': "add_entry C i ld s = ?s'"
      using a Inr by (simp add: add_entry_def)
    have "sched_ok entries ?s'"
    proof (rule sched_okI)
      fix j sl
      assume j: "sh_scheduled ?s' j = Some sl"
      show "ld_ID (sl_load sl) = j \<and> entries (sh_cron ?s') (sl_entryID sl) = Some (ld_CronExpression (sl_load sl), j)"
      proof (cases "j = i")
        case True
        then show ?thesis using j n(3) assms(3) by auto
      next
        case False
        then have "sh_scheduled s j = Some sl" using j by simp
        from D(1,2) [OF this] n(2,3) show ?thesis by auto
      qed
    next
      fix m spec j
      assume "entries (sh_cron ?s') m = Some (spec, j)"
      then consider "m = n" "j = i" | "m \<noteq> n" "entries (sh_cron s) m = Some (spec, j)"
        using n(3) by (auto split: if_splits)
      then show "\<exists>sl. sh_scheduled ?s' j = Some sl \<and> sl_entryID sl = m"
      proof cases
        case 2
        from D(3) [OF 2(2)] obtain sl where "sh_scheduled s j = Some sl" "sl_entryID sl = m" by blast
        then show ?thesis using assms(2) by (intro exI [of _ sl]) auto
      qed simp
    qed
    then show ?thesis
      using n(1) by (simp add: s')
  qed
qed

lemma add_entry_dropped:
  assumes "valid (ld_CronExpression ld)"
  shows "add_entry C i ld (s\<lparr> sh_cron := c \<rparr>) = add_entry C i ld (s\<lparr> sh_cron := c, sh_scheduled := (sh_scheduled s)(i := None) \<rparr>)"
proof -
  obtain r c' where a: "cr_AddFunc C (ld_CronExpression ld) (ld_ID ld) c = (r, c')" by fastforce
  then obtain n where "r = Inr n"
    using add_err assms by (cases r) auto
  with a show ?thesis by (simp add: add_entry_def)
qed

lemma drop_stale_ok: "sched_ok entries s \<Longrightarrow> sched_ok entries (drop_stale C d i s)"
  by (auto simp: drop_stale_def sched_ok_drop split: option.splits)

lemma sync_load_ok:
  assumes "sched_ok entries s" and "d i = Some ld" and "ld_ID ld = i"
    and "valid (ld_CronExpression ld) \<or> sh_scheduled s i = None"
  shows "sched_ok entries (sync_load C d i s) \<and>
    map_option sl_load (sh_scheduled (sync_load C d i s) i) = (if valid (ld_CronExpression ld) then Some ld else None)"
proof (cases "sh_scheduled s i")
  case None
  then show ?thesis
    using sched_ok_add [OF assms(1) None assms(3)] assms(2) by (simp add: sync_load_def)
next
  case (Some ex)
  then have v: "valid (ld_CronExpression ld)" using assms(4) by simp
  let ?s' = "s\<lparr> sh_cron := cr_Remove C (sl_entryID ex) (sh_cron s), sh_scheduled := (sh_scheduled s)(i := None) \<rparr>"
  show ?thesis
  proof (cases "ld_CronExpression (sl_load ex) = ld_CronExpression ld")
    case True
    let ?t = "s\<lparr> sh_scheduled := (sh_scheduled s)(i \<mapsto> ex\<lparr> sl_load := ld \<rparr>) \<rparr>"
    have "sched_ok entries ?t"
    proof (rule sched_okI)
      fix j sl assume j: "sh_scheduled ?t j = Some sl"
      show "ld_ID (sl_load sl) = j \<and> entries (sh_cron ?t) (sl_entryID sl) = Some (ld_CronExpression (sl_load sl), j)"
      proof (cases "j = i")
        case True
        then have "sl = ex\<lparr> sl_load := ld \<rparr>" using j by simp
        then show ?thesis
          using True sched_okD(2) [OF assms(1) Some] \<open>ld_CronExpression (sl_load ex) = ld_CronExpression ld\<close> assms(3) by simp
      next
        case False
        then have "sh_scheduled s j = Some sl" using j by simp
        with sched_okD(1,2) [OF assms(1)] show ?thesis by simp
      qed
    next
      fix n spec j assume "entries (sh_cron ?t) n = Some (spec, j)"
      then obtain sl where "sh_scheduled s j = Some sl" "sl_entryID sl = n"
        using sched_okD(3) [OF assms(1), of n spec j] by auto
      then show "\<exists>sl. sh_scheduled ?t j = Some sl \<and> sl_entryID sl = n"
        using Some by auto
    qed
    then show ?thesis
      using Some True v assms(2) by (simp add: sync_load_def)
  next
    case False
    have "sched_ok entries (add_entry C i ld ?s') \<and> map_option sl_load (sh_scheduled (add_entry C i ld ?s') i) = Some ld"
      using sched_ok_add [OF sched_ok_drop [OF assms(1) Some] _ assms(3)] v by simp
    then show ?thesis
      using Some False v assms(2) add_entry_dropped [OF v, of i "cr_Remove C (sl_entryID ex) (sh_cron s)" s] by (simp add: sync_load_def)
  qed
qed

lemma fold_drop_ok:
  "sched_ok entries s \<Longrightarrow> sched_ok entries (fold (drop_stale C d) is s)"
  by (induction "is" arbitrary: s) (simp_all add: drop_stale_ok)

lemma fold_drop_dom:
  "j \<in> set is \<Longrightarrow> sh_scheduled (fold (drop_stale C d) is s) j = (if d j = None then None else sh_scheduled s j)"
proof (induction "is" arbitrary: s)
  case (Cons i "is")
  have st: "sh_scheduled (drop_stale C d i s) i = (if d i = None then None else sh_scheduled s i)"
    by (simp add: drop_stale_def split: option.splits)
  show ?case
  proof (cases "j \<in> set is")
    case True
    then show ?thesis
      using Cons.IH [OF True, of "drop_stale C d i s"] st drop_stale_other [of j i C d s] by (cases "j = i") auto
  next
    case False
    then show ?thesis
      using Cons.prems st fold_drop_other [OF False, of C d "drop_stale C d i s"] by simp
  qed
qed simp

lemma fold_sync_ok:
  assumes "sched_ok entries s" and "distinct is" and "\<And>i. i \<in> set is \<Longrightarrow> \<exists>ld. d i = Some ld \<and> ld_ID ld = i \<and>
      (valid (ld_CronExpression ld) \<or> sh_scheduled s i = None)"
  shows "sched_ok entries (fold (sync_load C d) is s) \<and>
    (\<forall>i \<in> set is. map_option sl_load (sh_scheduled (fold (sync_load C d) is s) i) =
       (case d i of Some ld \<Rightarrow> if valid (ld_CronExpression ld) then Some ld else None | None \<Rightarrow> None))"
  using assms
proof (induction "is" arbitrary: s)
  case (Cons i "is")
  obtain ld where ld: "d i = Some ld" "ld_ID ld = i" "valid (ld_CronExpression ld) \<or> sh_scheduled s i = None"
    using Cons.prems(3) [of i] by auto
  note st = sync_load_ok [of s d i ld, OF Cons.prems(1) ld]
  have IH: "sched_ok entries (fold (sync_load C d) is (sync_load C d i s)) \<and>
    (\<forall>i' \<in> set is. map_option sl_load (sh_scheduled (fold (sync_load C d) is (sync_load C d i s)) i') =
       (case d i' of Some ld \<Rightarrow> if valid (ld_CronExpression ld) then Some ld else None | None \<Rightarrow> None))"
  proof (rule Cons.IH)
    fix j assume j: "j \<in> set is"
    then have "j \<noteq> i" using Cons.prems(2) by auto
    then show "\<exists>ld. d j = Some ld \<and> ld_ID ld = j \<and> (valid (ld_CronExpression ld) \<or> sh_scheduled (sync_load C d i s) j = None)"
      using Cons.prems(3) [of j] j sync_load_other [of j i C d s] by auto
  qed (use st Cons.prems(2) in auto)
  moreover have "sh_scheduled (fold (sync_load C d) is (sync_load C d i s)) i = sh_scheduled (sync_load C d i s) i"
    using Cons.prems(2) by (intro fold_sync_other) simp
  ultimately show ?case
    using st ld by simp
qed simp

lemma synced_ok:
  assumes "ranges ord" and "finite (dom (sh_scheduled s))" and "sched_ok entries s"
    and "\<And>ld. ld \<in> set desired \<Longrightarrow> valid (ld_CronExpression ld) \<or> sh_scheduled s (ld_ID ld) = None"
  shows "sched_ok entries (synced C ord desired s) \<and>
    map_option sl_load (sh_scheduled (synced C ord desired s) i) =
      (case desired_by_id desired i of Some ld \<Rightarrow> if valid (ld_CronExpression ld) then Some ld else None | None \<Rightarrow> None)"
proof -
  let ?d = "desired_by_id desired" and ?ids = "ord (ld_ID ` set desired)"
  define s1 where "s1 = fold (drop_stale C ?d) (ord (dom (sh_scheduled s))) s"
  have ord: "set (ord (dom (sh_scheduled s))) = dom (sh_scheduled s)" "set ?ids = ld_ID ` set desired" "distinct ?ids"
    using assms(1,2) unfolding ranges_def by simp_all
  have ok1: "sched_ok entries s1"
    unfolding s1_def using assms(3) by (rule fold_drop_ok)
  have s1: "sh_scheduled s1 j = (if ?d j = None then None else sh_scheduled s j)" for j
  proof (cases "j \<in> dom (sh_scheduled s)")
    case True
    then show ?thesis
      unfolding s1_def using ord(1) by (intro fold_drop_dom) simp
  next
    case False
    then have "sh_scheduled s1 j = sh_scheduled s j"
      unfolding s1_def using ord(1) by (intro fold_drop_other) simp
    then show ?thesis using False by auto
  qed
  have "\<exists>ld. ?d j = Some ld \<and> ld_ID ld = j \<and> (valid (ld_CronExpression ld) \<or> sh_scheduled s1 j = None)" if "j \<in> set ?ids" for j
  proof -
    have "j \<in> dom ?d"
      using that by (simp only: ord(2) dom_desired_by_id)
    then obtain ld where ld: "?d j = Some ld" by (auto simp: dom_def)
    have "valid (ld_CronExpression ld) \<or> sh_scheduled s1 j = None"
      using assms(4) [of ld] desired_by_id_SomeD [OF ld] s1 [of j] by auto
    then show ?thesis
      using ld desired_by_id_SomeD [OF ld] by blast
  qed
  from fold_sync_ok [OF ok1 ord(3) this]
  have f: "sched_ok entries (fold (sync_load C ?d) ?ids s1)"
    "\<And>i. i \<in> set ?ids \<Longrightarrow> map_option sl_load (sh_scheduled (fold (sync_load C ?d) ?ids s1) i) =
       (case ?d i of Some ld \<Rightarrow> if valid (ld_CronExpression ld) then Some ld else None | None \<Rightarrow> None)"
    by blast+
  have sy: "synced C ord desired s = fold (sync_load C ?d) ?ids s1"
    by (simp add: synced_def Let_def s1_def)
  show ?thesis
  proof (cases "i \<in> set ?ids")
    case True
    then show ?thesis using f by (simp add: sy)
  next
    case False
    then have "i \<notin> dom ?d"
      unfolding ord(2) dom_desired_by_id .
    then have "?d i = None" by (simp add: domIff)
    then show ?thesis
      using f(1) fold_sync_other [OF False, of C ?d s1] s1 [of i] by (simp add: sy)
  qed
qed

end

section \<open>No overlapping runs\<close>

section \<open>An in-memory cron table\<close>

text \<open>Ids are given upwards from one, and the empty expression is the one refused.\<close>

type_synonym memcron = "(nat \<times> string \<times> int) list"

definition mem_cron :: "memcron cron_lib" where
  "mem_cron = \<lparr> cr_AddFunc = (\<lambda>spec job c.
       if spec = [] then (Inl (ErrExt ''empty spec string''), c)
       else (let n = Suc (foldr max (map fst c) 0) in (Inr n, (n, spec, job) # c))),
     cr_Remove = (\<lambda>n c. filter (\<lambda>e. fst e \<noteq> n) c) \<rparr>"

lemma fresh_entry: "map_of c (Suc (foldr max (map fst c) 0)) = None"
proof -
  have "n \<le> foldr max ns 0" if "n \<in> set ns" for n :: nat and ns
    using that by (induction ns) (auto simp: max.coboundedI2)
  then show ?thesis
    unfolding map_of_eq_None_iff by (metis Suc_n_not_le_n set_map)
qed

lemma map_of_without: "map_of (filter (\<lambda>e. fst e \<noteq> n) c) = (map_of c)(n := None)"
  by (induction c) auto

interpretation memc: cron_table mem_cron map_of "\<lambda>spec. spec \<noteq> []"
  by unfold_locales (auto simp: mem_cron_def Let_def fresh_entry map_of_without split: if_splits)

text \<open>A scheduler with one load, and the metadata after its expression was changed and a bad load was added.\<close>

definition cron_job :: "string \<Rightarrow> meta_Load" where
  "cron_job spec = demo_load\<lparr> ld_CronExpression := spec \<rparr>"

definition demo_sched :: "memcron Scheduler" where
  "demo_sched = \<lparr> sh_scheduled = [7 \<mapsto> \<lparr> sl_load = cron_job ''@hourly'', sl_entryID = 1 \<rparr>], sh_running = {},
     sh_fingerprint = ''v1'', sh_cron = [(1, ''@hourly'', 7)], sh_shutdownTimeout = 60 * second_ns \<rparr>"

definition demo_sworld :: "(memcron, unit, unit, unit) sworld" where
  "demo_sworld = \<lparr> sw_sched = demo_sched,
     sw_run = \<lparr> rw_repo = (), rw_sink = (), rw_sess = (), rw_reg = runstate_New 0, rw_met = [] \<rparr> \<rparr>"

definition demo_aborter :: "unit RunAborter" where
  "demo_aborter = \<lparr> ra_AbortRunningRuns = (\<lambda>_. retA 0),
     ra_ListEnabledLoads = retA [cron_job ''@daily'', (cron_job [])\<lparr> ld_ID := 8 \<rparr>],
     ra_MetadataFingerprint = retA ''v2'' \<rparr>"

lemma cron_job_simps [simp]: "ld_ID (cron_job spec) = 7" "ld_CronExpression (cron_job spec) = spec"
  by (simp_all add: cron_job_def demo_load_def)

lemma demo_sched_ok: "sched_ok map_of demo_sched" "sh_scheduled demo_sched 7 = Some \<lparr> sl_load = cron_job ''@hourly'', sl_entryID = 1 \<rparr>"
  by (simp_all add: sched_ok_def demo_sched_def)

section \<open>Overlapping runs\<close>

text \<open>
  The scheduler with the runs in flight. A tick of the cron table starts a run or is skipped, a run in
  flight changes the world of the runs, a run ends, and the coordinator reloads.
\<close>

inductive sched_step :: "'c cron_lib \<Rightarrow> (int set \<Rightarrow> int list) \<Rightarrow> 'r RunAborter \<Rightarrow>
    ('c, 'r, 'k, 's) sworld \<times> (int \<times> meta_Load) list \<Rightarrow> ('c, 'r, 'k, 's) sworld \<times> (int \<times> meta_Load) list \<Rightarrow> bool"
  for C ord A where
  Tick_step: "sched_step C ord A (S, act) (S', (i, load) # act)" if "trigger_start i S = (Some load, S')"
| Skip_step: "sched_step C ord A (S, act) (S', act)" if "trigger_start i S = (None, S')"
| Work_step: "sched_step C ord A (S, act) (S\<lparr> sw_run := W \<rparr>, act)" if "act \<noteq> []"
| End_step: "sched_step C ord A (S, act) (trigger_end i S, remove1 (i, load) act)" if "(i, load) \<in> set act"
| Reload_step: "sched_step C ord A (S, act) (S', act)" if "Reload C ord A S = (r, S')"

definition runs_ok :: "('c, 'r, 'k, 's) sworld \<times> (int \<times> meta_Load) list \<Rightarrow> bool" where
  "runs_ok = (\<lambda>(S, act). distinct (map fst act) \<and> set (map fst act) = sh_running (sw_sched S))"

lemma Reload_running: "Reload C ord A S = (r, S') \<Longrightarrow> sh_running (sw_sched S') = sh_running (sw_sched S)"
  by (auto simp: Reload_def on_repo_def synced_running split: prod.splits sum.splits if_splits)

lemma set_remove1_fst:
  "distinct (map fst xs) \<Longrightarrow> (i, x) \<in> set xs \<Longrightarrow> set (map fst (remove1 (i, x) xs)) = set (map fst xs) - {i}"
  by (induction xs) (auto simp: image_iff)

lemma distinct_remove1_fst: "distinct (map fst xs) \<Longrightarrow> distinct (map fst (remove1 p xs))"
  by (induction xs) (auto simp: image_iff dest: set_mp [OF set_remove1_subset])

lemma runs_ok_step: "sched_step C ord A p q \<Longrightarrow> runs_ok p \<Longrightarrow> runs_ok q"
proof (induction rule: sched_step.induct)
  case (Tick_step i S load S' act)
  then show ?case
    by (auto simp: runs_ok_def trigger_start_def split: option.splits if_splits)
next
  case (Skip_step i S S' act)
  then show ?case
    by (auto simp: runs_ok_def trigger_start_def split: option.splits if_splits)
next
  case (End_step i load act S)
  then show ?case
    using set_remove1_fst [of act i load] distinct_remove1_fst [of act "(i, load)"] by (auto simp: runs_ok_def trigger_end_def)
qed (auto simp: runs_ok_def Reload_running)

text \<open>
  (C11) A load never runs twice at the same time. Start with no run in flight and let ticks, runs, their ends
  and reloads follow in any order: the runs in flight belong to different loads, they are just those marked
  as running, and a tick for a load with a run in flight starts nothing.
\<close>

theorem no_overlapping_runs:
  assumes "(sched_step C ord A)\<^sup>*\<^sup>* (S0, []) (S, act)" and "sh_running (sw_sched S0) = {}"
  shows "distinct (map fst act) \<and> set (map fst act) = sh_running (sw_sched S) \<and>
    (\<forall>i load. (i, load) \<in> set act \<longrightarrow> fst (trigger_start i S) = None)"
proof -
  have "runs_ok (S, act)"
    using assms(1)
  proof (induction rule: rtranclp_induct)
    case base
    then show ?case using assms(2) by (simp add: runs_ok_def)
  qed (rule runs_ok_step)
  then have r: "distinct (map fst act)" "set (map fst act) = sh_running (sw_sched S)"
    by (simp_all add: runs_ok_def)
  have "fst (trigger_start i S) = None" if "(i, load) \<in> set act" for i load
  proof -
    have "i \<in> sh_running (sw_sched S)"
      using that r(2) by force
    then show ?thesis
      by (simp add: trigger_start_def split: option.splits)
  qed
  with r show ?thesis by blast
qed

theorem no_overlapping_runs_witness:
  "fst (trigger_start 7 (snd (trigger_start 7 demo_sworld))) = None"
proof -
  obtain S' where t: "trigger_start 7 demo_sworld = (Some (cron_job ''@hourly''), S')"
    by (simp add: trigger_start_def demo_sworld_def demo_sched_def)
  then have "(sched_step mem_cron sorted_list_of_set demo_aborter)\<^sup>*\<^sup>* (demo_sworld, []) (S', [(7, cron_job ''@hourly'')])"
    by (intro r_into_rtranclp sched_step.Tick_step)
  then show ?thesis
    using no_overlapping_runs [where S = S' and act = "[(7, cron_job ''@hourly'')]"] t
    by (simp add: demo_sworld_def demo_sched_def)
qed

section \<open>Reloads\<close>

text \<open>The entries that trigger load \<open>i\<close> are among those with ids in \<open>N\<close>.\<close>

definition jobs_at :: "('c \<Rightarrow> nat \<rightharpoonup> string \<times> int) \<Rightarrow> int \<Rightarrow> nat set \<Rightarrow> 'c Scheduler \<Rightarrow> bool" where
  "jobs_at entries i N s \<longleftrightarrow> (\<forall>n spec. entries (sh_cron s) n = Some (spec, i) \<longrightarrow> n \<in> N)"

context cron_table
begin

lemma jobs_at_Remove: "jobs_at entries i N s \<Longrightarrow> jobs_at entries i (N - {n}) (s\<lparr> sh_cron := cr_Remove C n (sh_cron s) \<rparr>)"
  by (auto simp: jobs_at_def remove)

lemma jobs_at_add: "jobs_at entries i N s \<Longrightarrow> ld_ID ld \<noteq> i \<or> \<not> valid (ld_CronExpression ld) \<Longrightarrow> jobs_at entries i N (add_entry C j ld s)"
  by (auto simp: jobs_at_def add_entry_def split: prod.splits sum.splits if_splits dest!: add_ok add_err)

lemma jobs_at_mono: "jobs_at entries i M s \<Longrightarrow> M \<subseteq> N \<Longrightarrow> jobs_at entries i N s"
  by (auto simp: jobs_at_def)

lemma jobs_at_scheduled: "jobs_at entries i N (s\<lparr> sh_scheduled := m \<rparr>) = jobs_at entries i N s"
  by (simp add: jobs_at_def)

lemma jobs_at_drop: "jobs_at entries i N s \<Longrightarrow> jobs_at entries i N (drop_stale C d j s)"
  by (auto simp: drop_stale_def jobs_at_def remove split: option.splits if_splits)

lemma jobs_at_sync:
  assumes "jobs_at entries i N s" and "d j = Some ld" and "ld_ID ld = j" and "j \<noteq> i"
  shows "jobs_at entries i N (sync_load C d j s)"
  using assms jobs_at_mono [OF jobs_at_Remove [OF assms(1)], of _ N]
  by (auto simp: sync_load_def jobs_at_scheduled intro!: jobs_at_add split: option.splits)

lemma jobs_at_drops: "jobs_at entries i N s \<Longrightarrow> jobs_at entries i N (fold (drop_stale C d) is s)"
  by (induction "is" arbitrary: s) (simp_all add: jobs_at_drop)

lemma jobs_at_syncs:
  assumes "jobs_at entries i N s" and "\<And>j. j \<in> set is \<Longrightarrow> j \<noteq> i \<and> (\<exists>ld. d j = Some ld \<and> ld_ID ld = j)"
  shows "jobs_at entries i N (fold (sync_load C d) is s)"
  using assms
proof (induction "is" arbitrary: s)
  case (Cons j "is")
  obtain ld where "d j = Some ld" "ld_ID ld = j" "j \<noteq> i"
    using Cons.prems(2) [of j] by auto
  then have "jobs_at entries i N (sync_load C d j s)"
    using jobs_at_sync [OF Cons.prems(1)] by blast
  then show ?case
    using Cons.IH Cons.prems(2) by simp
qed simp

lemma drop_kept: "d i \<noteq> None \<Longrightarrow> sh_scheduled (fold (drop_stale C d) is s) i = sh_scheduled s i"
  by (cases "i \<in> set is") (auto simp: fold_drop_dom fold_drop_other)

text \<open>The visit of load \<open>i\<close> among the visits of the desired loads.\<close>

lemma synced_split:
  assumes "ranges ord" and "desired_by_id ds i = Some ld"
  obtains as bs where
    "synced C ord ds s =
       fold (sync_load C (desired_by_id ds)) bs (sync_load C (desired_by_id ds) i
         (fold (sync_load C (desired_by_id ds)) as (fold (drop_stale C (desired_by_id ds)) (ord (dom (sh_scheduled s))) s)))"
    "\<forall>j \<in> set as \<union> set bs. j \<noteq> i \<and> (\<exists>ld. desired_by_id ds j = Some ld \<and> ld_ID ld = j)"
proof -
  let ?ids = "ord (ld_ID ` set ds)"
  have o: "set ?ids = dom (desired_by_id ds)" "distinct ?ids"
    using assms(1) unfolding ranges_def dom_desired_by_id by simp_all
  then have "i \<in> set ?ids" using assms(2) by (simp add: domI)
  then obtain as bs where ab: "?ids = as @ i # bs" by (meson split_list)
  have "synced C ord ds s =
       fold (sync_load C (desired_by_id ds)) bs (sync_load C (desired_by_id ds) i
         (fold (sync_load C (desired_by_id ds)) as (fold (drop_stale C (desired_by_id ds)) (ord (dom (sh_scheduled s))) s)))"
    by (simp add: synced_def Let_def ab)
  moreover have "\<forall>j \<in> set as \<union> set bs. j \<noteq> i \<and> (\<exists>ld. desired_by_id ds j = Some ld \<and> ld_ID ld = j)"
  proof
    fix j
    assume "j \<in> set as \<union> set bs"
    then have "j \<in> dom (desired_by_id ds)" "j \<noteq> i"
      using o ab by auto
    then show "j \<noteq> i \<and> (\<exists>ld. desired_by_id ds j = Some ld \<and> ld_ID ld = j)"
      using desired_by_id_SomeD by blast
  qed
  ultimately show thesis by (rule that)
qed

lemma synced_loses:
  assumes "ranges ord" and "sched_ok entries s" and "sh_scheduled s i = Some ex"
    and "desired_by_id ds i = Some ld" and "\<not> valid (ld_CronExpression ld)"
    and "ld_CronExpression ld \<noteq> ld_CronExpression (sl_load ex)"
  shows "sh_scheduled (synced C ord ds s) i = Some ex \<and> jobs_at entries i {} (synced C ord ds s)"
proof -
  let ?d = "desired_by_id ds"
  obtain bs as where sp: "synced C ord ds s =
       fold (sync_load C ?d) bs (sync_load C ?d i (fold (sync_load C ?d) as (fold (drop_stale C ?d) (ord (dom (sh_scheduled s))) s)))"
    "\<forall>j \<in> set as \<union> set bs. j \<noteq> i \<and> (\<exists>ld. ?d j = Some ld \<and> ld_ID ld = j)"
    by (rule synced_split [OF assms(1,4), of s]) (rule that)
  define t where "t = fold (sync_load C ?d) as (fold (drop_stale C ?d) (ord (dom (sh_scheduled s))) s)"
  have "jobs_at entries i {sl_entryID ex} s"
    using assms(3) sched_okD(3) [OF assms(2)] unfolding jobs_at_def by (metis option.inject singletonI)
  then have jt: "jobs_at entries i {sl_entryID ex} t"
    unfolding t_def using sp(2) by (intro jobs_at_syncs jobs_at_drops) auto
  have it: "sh_scheduled t i = Some ex"
    unfolding t_def using sp(2) assms(3,4) by (subst fold_sync_other) (auto simp: drop_kept)
  let ?u = "t\<lparr> sh_cron := cr_Remove C (sl_entryID ex) (sh_cron t) \<rparr>"
  have u: "sync_load C ?d i t = add_entry C i ld ?u"
    using assms(4,6) it by (simp add: sync_load_def)
  obtain r c where a: "cr_AddFunc C (ld_CronExpression ld) (ld_ID ld) (sh_cron ?u) = (r, c)" by fastforce
  then obtain e where "r = Inl e"
    using add_ok [of "ld_CronExpression ld" "ld_ID ld" "sh_cron ?u" _ c] assms(5) by (cases r) auto
  then have "sh_scheduled (sync_load C ?d i t) i = Some ex"
    unfolding u using a it by (simp add: add_entry_def)
  moreover have "jobs_at entries i {} (sync_load C ?d i t)"
    unfolding u using jobs_at_Remove [OF jt, of "sl_entryID ex"] assms(5) by (intro jobs_at_add) simp_all
  ultimately show ?thesis
    unfolding sp(1) t_def [symmetric] using sp(2) by (auto simp: fold_sync_other intro!: jobs_at_syncs)
qed

lemma synced_keeps_lost:
  assumes "ranges ord" and "sh_scheduled s i = Some ex" and "jobs_at entries i {} s"
    and "desired_by_id ds i = Some ld" and "ld_CronExpression ld = ld_CronExpression (sl_load ex)"
  shows "sh_scheduled (synced C ord ds s) i \<noteq> None \<and> jobs_at entries i {} (synced C ord ds s)"
proof -
  let ?d = "desired_by_id ds"
  obtain bs as where sp: "synced C ord ds s =
       fold (sync_load C ?d) bs (sync_load C ?d i (fold (sync_load C ?d) as (fold (drop_stale C ?d) (ord (dom (sh_scheduled s))) s)))"
    "\<forall>j \<in> set as \<union> set bs. j \<noteq> i \<and> (\<exists>ld. ?d j = Some ld \<and> ld_ID ld = j)"
    by (rule synced_split [OF assms(1,4), of s]) (rule that)
  define t where "t = fold (sync_load C ?d) as (fold (drop_stale C ?d) (ord (dom (sh_scheduled s))) s)"
  have jt: "jobs_at entries i {} t"
    unfolding t_def using sp(2) assms(3) by (intro jobs_at_syncs jobs_at_drops) auto
  have it: "sh_scheduled t i = Some ex"
    unfolding t_def using sp(2) assms(2,4) by (subst fold_sync_other) (auto simp: drop_kept)
  have "sync_load C ?d i t = t\<lparr> sh_scheduled := (sh_scheduled t)(i \<mapsto> ex\<lparr> sl_load := ld \<rparr>) \<rparr>"
    using assms(4,5) it by (simp add: sync_load_def)
  then show ?thesis
    unfolding sp(1) t_def [symmetric] using sp(2) jt by (auto simp: fold_sync_other jobs_at_scheduled intro!: jobs_at_syncs)
qed

end



text \<open>
  (C35) A mistyped expression loses a load. Let a scheduled load get an expression that the cron library
  refuses, and later its former expression back. After the first reload no entry of the table triggers the
  load, although the scheduler still has it as scheduled; after the second, correct one there is still none.
\<close>

theorem invalid_cron_loses_load:
  assumes "cron_table C entries valid" and "ranges ord" and "sched_ok entries s" and "sh_scheduled s i = Some ex"
    and "desired_by_id d1 i = Some ld1" and "\<not> valid (ld_CronExpression ld1)"
    and "ld_CronExpression ld1 \<noteq> ld_CronExpression (sl_load ex)"
    and "desired_by_id d2 i = Some ld2" and "ld_CronExpression ld2 = ld_CronExpression (sl_load ex)"
  shows "let s1 = synced C ord d1 s; s2 = synced C ord d2 s1 in
    sh_scheduled s1 i = Some ex \<and> (\<forall>n spec. entries (sh_cron s1) n \<noteq> Some (spec, i)) \<and>
    sh_scheduled s2 i \<noteq> None \<and> (\<forall>n spec. entries (sh_cron s2) n \<noteq> Some (spec, i))"
proof -
  note l = cron_table.synced_loses [OF assms(1-7)]
  note k = cron_table.synced_keeps_lost [OF assms(1,2) conjunct1 [OF l] conjunct2 [OF l] assms(8,9)]
  show ?thesis
    using l k by (simp add: jobs_at_def Let_def)
qed

theorem invalid_cron_loses_load_witness:
  "let s1 = synced mem_cron sorted_list_of_set [cron_job []] demo_sched;
       s2 = synced mem_cron sorted_list_of_set [cron_job ''@hourly''] s1
   in sh_scheduled s2 7 \<noteq> None \<and> map_of (sh_cron s2) 1 \<noteq> Some (''@hourly'', 7)"
  using invalid_cron_loses_load [OF memc.cron_table_axioms ranges_sorted demo_sched_ok,
      where ?d1.0 = "[cron_job []]" and ?d2.0 = "[cron_job ''@hourly'']"]
  by (simp add: desired_by_id_def Let_def)

end
