(* ===== verification/Seed.thy ===== *)
theory Seed
  imports Json Repository Modbus
begin

text \<open>
  \<^verbatim>\<open>internal/seed\<close> (seed.go, yaml.go): the reconciliation of a seed file with the metadata. The YAML decoder is
  a parameter of \<^verbatim>\<open>Load\<close>. The closure that \<^verbatim>\<open>Apply\<close> gives to the transaction also fills the report, which is not
  rolled back: its state is the database together with the report.
\<close>

section \<open>The file\<close>

record SourceSpec =
  srs_Name :: string
  srs_Kind :: string
  srs_Description :: string
  srs_IsEnabled :: "bool option"
  srs_Params :: "strmap option"

record LoadSpec =
  lds_Name :: string
  lds_Source :: string
  lds_CronExpr :: string
  lds_Mode :: string
  lds_ObjectName :: string
  lds_WatermarkColumn :: string
  lds_WatermarkType :: string
  lds_TargetSchema :: string
  lds_TargetTable :: string
  lds_BatchSize :: int
  lds_AutoCreateTable :: "bool option"
  lds_IsEnabled :: "bool option"

record ModbusTagSpec =
  ts_Load :: string
  ts_TagName :: string
  ts_CorrelationID :: string
  ts_UnitID :: "8 word"
  ts_RegisterType :: string
  ts_Address :: "16 word"
  ts_Quantity :: "16 word"
  ts_DataType :: string
  ts_ByteOrder :: string
  ts_WordOrder :: string
  ts_Scale :: "f64 option"
  ts_Offset :: "f64 option"
  ts_IsEnabled :: "bool option"

record OPCUANodeSpec =
  ns_Load :: string
  ns_TagName :: string
  ns_NodeID :: string
  ns_Scale :: "f64 option"
  ns_Offset :: "f64 option"
  ns_IsEnabled :: "bool option"

record seed_File =
  sf_Sources :: "SourceSpec list"
  sf_Loads :: "LoadSpec list"
  sf_ModbusTags :: "ModbusTagSpec list"
  sf_OPCUANodes :: "OPCUANodeSpec list"

definition seed_Load :: "(string \<Rightarrow> ('w, string) act) \<Rightarrow> (string \<Rightarrow> seed_File res) \<Rightarrow> string \<Rightarrow> ('w, seed_File) act" where
  "seed_Load read_file decode path =
     bindA (wrapA (wrapf ''read seed file'') (read_file path)) (\<lambda>b.
     liftA (wrap_res (wrapf ''parse seed file'') (decode b)))"

section \<open>Helpers and report\<close>

definition boolOr :: "bool option \<Rightarrow> bool \<Rightarrow> bool" where
  "boolOr p def = (case p of None \<Rightarrow> def | Some b \<Rightarrow> b)"

definition stringOr :: "string \<Rightarrow> string \<Rightarrow> string" where
  "stringOr s def = (if s = [] then def else s)"

definition float64Or :: "f64 option \<Rightarrow> f64 \<Rightarrow> f64" where
  "float64Or p def = (case p of None \<Rightarrow> def | Some x \<Rightarrow> x)"

definition defaultQuantity :: "ModbusTagSpec \<Rightarrow> 16 word" where
  "defaultQuantity t =
     (if 0 < ts_Quantity t then ts_Quantity t
      else let ty = ToLower (ts_DataType t) in
        if ty \<in> {''int16'', ''uint16'', ''bool''} then 1
        else if ty \<in> {''int32'', ''uint32'', ''float32''} then 2
        else if ty \<in> {''int64'', ''uint64'', ''float64''} then 4
        else 1)"

text \<open>The count written to the metadata is the one the source would use (\<^verbatim>\<open>quantityFor\<close>).\<close>

lemma defaultQuantity_quantityFor: "defaultQuantity t = quantityFor (ts_DataType t) (ts_Quantity t)"
  by (auto simp: defaultQuantity_def quantityFor_def Let_def)

datatype Action = ActionCreated | ActionUpdated

record Report =
  rep_SourcesCreated :: "string list"
  rep_SourcesUpdated :: "string list"
  rep_LoadsCreated :: "string list"
  rep_LoadsUpdated :: "string list"
  rep_ModbusTags :: int
  rep_OPCUANodes :: int

definition zero_Report :: Report where
  "zero_Report = \<lparr> rep_SourcesCreated = [], rep_SourcesUpdated = [], rep_LoadsCreated = [], rep_LoadsUpdated = [],
     rep_ModbusTags = 0, rep_OPCUANodes = 0 \<rparr>"

definition recordSource :: "Action \<Rightarrow> string \<Rightarrow> Report \<Rightarrow> Report" where
  "recordSource a name r =
     (if a = ActionCreated then r\<lparr> rep_SourcesCreated := rep_SourcesCreated r @ [name] \<rparr>
      else r\<lparr> rep_SourcesUpdated := rep_SourcesUpdated r @ [name] \<rparr>)"

definition recordLoad :: "Action \<Rightarrow> string \<Rightarrow> Report \<Rightarrow> Report" where
  "recordLoad a name r =
     (if a = ActionCreated then r\<lparr> rep_LoadsCreated := rep_LoadsCreated r @ [name] \<rparr>
      else r\<lparr> rep_LoadsUpdated := rep_LoadsUpdated r @ [name] \<rparr>)"

section \<open>Upserts\<close>

text \<open>A query through the model leaves out the rows that are soft-deleted.\<close>

definition live_source :: "string \<Rightarrow> meta_Source \<Rightarrow> bool" where
  "live_source name s \<longleftrightarrow> ms_DeletedAt s = None \<and> ms_Name s = name"

definition live_load :: "string \<Rightarrow> meta_Load \<Rightarrow> bool" where
  "live_load name l \<longleftrightarrow> ld_DeletedAt l = None \<and> ld_Name l = name"

text \<open>A map that is not in the file is nil.\<close>

definition params_text :: "strmap option \<Rightarrow> string" where
  "params_text p = (case p of None \<Rightarrow> ''null'' | Some m \<Rightarrow> json_Marshal m)"

definition new_source :: "SourceSpec \<Rightarrow> meta_Source" where
  "new_source spec = zero_Source\<lparr> ms_Name := srs_Name spec, ms_Kind := srs_Kind spec, ms_Description := srs_Description spec,
     ms_ParamsJSON := params_text (srs_Params spec), ms_IsEnabled := boolOr (srs_IsEnabled spec) True \<rparr>"

definition updated_source :: "SourceSpec \<Rightarrow> meta_Source \<Rightarrow> meta_Source" where
  "updated_source spec s = s\<lparr> ms_Kind := srs_Kind spec, ms_Description := srs_Description spec,
     ms_ParamsJSON := params_text (srs_Params spec), ms_IsEnabled := boolOr (srs_IsEnabled spec) (ms_IsEnabled s) \<rparr>"

definition upsertSource :: "'g gorm_db \<Rightarrow> SourceSpec \<Rightarrow> ('g, meta_Source \<times> Action) act" where
  "upsertSource G spec =
     (if srs_Name spec = [] \<or> srs_Kind spec = [] then failA (Errorf ''name and kind are required'' [])
      else bindA (gt_First (g_sources G) (live_source (srs_Name spec))) (\<lambda>x.
        case x of
          None \<Rightarrow> bindA (gt_Create (g_sources G) (new_source spec)) (\<lambda>s. retA (s, ActionCreated))
        | Some s \<Rightarrow>
            bindA (gt_Save (g_sources G) (updated_source spec s)) (\<lambda>_. retA (updated_source spec s, ActionUpdated))))"

definition new_load :: "LoadSpec \<Rightarrow> int \<Rightarrow> meta_Load" where
  "new_load spec sourceID = zero_Load\<lparr> ld_Name := lds_Name spec, ld_SourceID := sourceID, ld_CronExpression := lds_CronExpr spec,
     ld_Mode := lds_Mode spec, ld_ObjectName := lds_ObjectName spec, ld_WatermarkColumn := lds_WatermarkColumn spec,
     ld_WatermarkType := lds_WatermarkType spec, ld_TargetSchema := lds_TargetSchema spec, ld_TargetTable := lds_TargetTable spec,
     ld_BatchSize := lds_BatchSize spec, ld_AutoCreateTable := boolOr (lds_AutoCreateTable spec) True,
     ld_IsEnabled := boolOr (lds_IsEnabled spec) True \<rparr>"

definition updated_load :: "LoadSpec \<Rightarrow> int \<Rightarrow> meta_Load \<Rightarrow> meta_Load" where
  "updated_load spec sourceID l = l\<lparr> ld_SourceID := sourceID, ld_CronExpression := lds_CronExpr spec,
     ld_Mode := lds_Mode spec, ld_ObjectName := lds_ObjectName spec, ld_WatermarkColumn := lds_WatermarkColumn spec,
     ld_WatermarkType := lds_WatermarkType spec, ld_TargetSchema := lds_TargetSchema spec, ld_TargetTable := lds_TargetTable spec,
     ld_BatchSize := lds_BatchSize spec, ld_AutoCreateTable := boolOr (lds_AutoCreateTable spec) (ld_AutoCreateTable l),
     ld_IsEnabled := boolOr (lds_IsEnabled spec) (ld_IsEnabled l) \<rparr>"

definition upsertLoad :: "'g gorm_db \<Rightarrow> LoadSpec \<Rightarrow> int \<Rightarrow> ('g, meta_Load \<times> Action) act" where
  "upsertLoad G spec sourceID =
     (if lds_Name spec = [] then failA (Errorf ''name is required'' [])
      else bindA (gt_First (g_loads G) (live_load (lds_Name spec))) (\<lambda>x.
        case x of
          None \<Rightarrow> bindA (gt_Create (g_loads G) (new_load spec sourceID)) (\<lambda>l. retA (l, ActionCreated))
        | Some l \<Rightarrow>
            bindA (gt_Save (g_loads G) (updated_load spec sourceID l)) (\<lambda>_. retA (updated_load spec sourceID l, ActionUpdated))))"

section \<open>Telemetry points\<close>

definition new_tag :: "int \<Rightarrow> ModbusTagSpec \<Rightarrow> ModbusTag" where
  "new_tag loadID t = \<lparr> mt_ID = 0, mt_LoadID = loadID, mt_CorrelationID = ts_CorrelationID t, mt_TagName = ts_TagName t,
     mt_UnitID = ts_UnitID t, mt_RegisterType = ts_RegisterType t, mt_Address = ts_Address t, mt_Quantity = defaultQuantity t,
     mt_DataType = ts_DataType t, mt_ByteOrder = stringOr (ts_ByteOrder t) ''big'',
     mt_WordOrder = stringOr (ts_WordOrder t) ''high_first'', mt_Scale = float64Or (ts_Scale t) f64_one,
     mt_Offset = float64Or (ts_Offset t) f64_zero, mt_IsEnabled = boolOr (ts_IsEnabled t) True \<rparr>"

fun tag_rows :: "int \<Rightarrow> ModbusTagSpec list \<Rightarrow> ModbusTag list res" where
  "tag_rows loadID [] = Inr []"
| "tag_rows loadID (t # ts) =
     (if ts_TagName t = [] then Inl (Errorf ''modbus tag requires tag_name'' [])
      else if ts_RegisterType t = [] then Inl (Errorf ''modbus tag %q requires register_type'' [AStr (ts_TagName t)])
      else if ts_DataType t = [] then Inl (Errorf ''modbus tag %q requires data_type'' [AStr (ts_TagName t)])
      else bind_res (tag_rows loadID ts) (\<lambda>rows. Inr (new_tag loadID t # rows)))"

definition replaceModbusTags :: "'g gorm_db \<Rightarrow> int \<Rightarrow> ModbusTagSpec list \<Rightarrow> ('g, int) act" where
  "replaceModbusTags G loadID specs =
     bindA (gt_Delete (g_modbus G) (\<lambda>t. mt_LoadID t = loadID)) (\<lambda>_.
     bindA (liftA (tag_rows loadID specs)) (\<lambda>rows.
     if rows = [] then retA 0
     else bindA (gt_CreateAll (g_modbus G) rows) (\<lambda>_. retA (int (length rows)))))"

definition new_node :: "int \<Rightarrow> OPCUANodeSpec \<Rightarrow> OPCUANode" where
  "new_node loadID n = \<lparr> on_ID = 0, on_LoadID = loadID, on_TagName = ns_TagName n, on_NodeID = ns_NodeID n,
     on_Scale = float64Or (ns_Scale n) f64_one, on_Offset = float64Or (ns_Offset n) f64_zero,
     on_IsEnabled = boolOr (ns_IsEnabled n) True \<rparr>"

fun node_rows :: "int \<Rightarrow> OPCUANodeSpec list \<Rightarrow> OPCUANode list res" where
  "node_rows loadID [] = Inr []"
| "node_rows loadID (n # ns) =
     (if ns_TagName n = [] \<or> ns_NodeID n = [] then Inl (Errorf ''opcua node requires tag_name and node_id'' [])
      else bind_res (node_rows loadID ns) (\<lambda>rows. Inr (new_node loadID n # rows)))"

definition replaceOPCUANodes :: "'g gorm_db \<Rightarrow> int \<Rightarrow> OPCUANodeSpec list \<Rightarrow> ('g, int) act" where
  "replaceOPCUANodes G loadID specs =
     bindA (gt_Delete (g_opcua G) (\<lambda>n. on_LoadID n = loadID)) (\<lambda>_.
     bindA (liftA (node_rows loadID specs)) (\<lambda>rows.
     if rows = [] then retA 0
     else bindA (gt_CreateAll (g_opcua G) rows) (\<lambda>_. retA (int (length rows)))))"

section \<open>Apply\<close>

text \<open>The tags by the name of their load; a tag without a load is an error.\<close>

fun group_by_load :: "('t \<Rightarrow> string) \<Rightarrow> ('t \<Rightarrow> gerr) \<Rightarrow> 't list \<Rightarrow> (string \<rightharpoonup> 't list) \<Rightarrow> (string \<rightharpoonup> 't list) res" where
  "group_by_load load err [] m = Inr m"
| "group_by_load load err (t # ts) m =
     (if load t = [] then Inl (err t)
      else group_by_load load err ts (m(load t \<mapsto> (case m (load t) of None \<Rightarrow> [] | Some xs \<Rightarrow> xs) @ [t])))"

definition declaredLoads :: "seed_File \<Rightarrow> string set" where
  "declaredLoads f = lds_Name ` set (sf_Loads f)"

definition undeclared :: "(string set \<Rightarrow> string list) \<Rightarrow> string \<Rightarrow> string set \<Rightarrow> (string \<rightharpoonup> 't list) \<Rightarrow> unit res" where
  "undeclared ord fmt declared m =
     (case List.find (\<lambda>n. n \<notin> declared) (ord (dom m)) of None \<Rightarrow> Inr () | Some n \<Rightarrow> Inl (Errorf fmt [AStr n]))"

definition on_db :: "('g, 'a) act \<Rightarrow> ('g \<times> Report, 'a) act" where
  "on_db m = (\<lambda>(g, rep). case m g of (r, g') \<Rightarrow> (r, (g', rep)))"

definition report :: "(Report \<Rightarrow> Report) \<Rightarrow> ('g \<times> Report, unit) act" where
  "report f = (\<lambda>(g, rep). (Inr (), (g, f rep)))"

definition named_err :: "string \<Rightarrow> string \<Rightarrow> gerr \<Rightarrow> gerr" where
  "named_err fmt name e = Errorf fmt [AStr name, AErr e]"

fun seed_sources :: "'g gorm_db \<Rightarrow> SourceSpec list \<Rightarrow> (string \<rightharpoonup> meta_Source) \<Rightarrow> ('g \<times> Report, string \<rightharpoonup> meta_Source) act" where
  "seed_sources G [] srcByName = retA srcByName"
| "seed_sources G (spec # specs) srcByName =
     bindA (wrapA (named_err ''source %q: %w'' (srs_Name spec)) (on_db (upsertSource G spec))) (\<lambda>(s, action).
     bindA (report (recordSource action (srs_Name spec))) (\<lambda>_.
     seed_sources G specs (srcByName(srs_Name spec \<mapsto> s))))"

definition source_of :: "'g gorm_db \<Rightarrow> (string \<rightharpoonup> meta_Source) \<Rightarrow> LoadSpec \<Rightarrow> ('g, meta_Source) act" where
  "source_of G srcByName spec =
     (case srcByName (lds_Source spec) of
        Some src \<Rightarrow> retA src
      | None \<Rightarrow>
          bindA (gt_First (g_sources G) (live_source (lds_Source spec))) (\<lambda>x.
          case x of
            None \<Rightarrow> failA (Errorf ''load %q references unknown source %q'' [AStr (lds_Name spec), AStr (lds_Source spec)])
          | Some src \<Rightarrow> retA src))"

definition seed_load :: "'g gorm_db \<Rightarrow> (string \<rightharpoonup> meta_Source) \<Rightarrow> (string \<rightharpoonup> ModbusTagSpec list) \<Rightarrow> (string \<rightharpoonup> OPCUANodeSpec list) \<Rightarrow>
    LoadSpec \<Rightarrow> ('g \<times> Report, unit) act" where
  "seed_load G srcByName modbusByLoad opcuaByLoad spec =
     bindA (on_db (source_of G srcByName spec)) (\<lambda>src.
     bindA (wrapA (named_err ''load %q: %w'' (lds_Name spec)) (on_db (upsertLoad G spec (ms_ID src)))) (\<lambda>(l, action).
     bindA (report (recordLoad action (lds_Name spec))) (\<lambda>_.
     bindA (case modbusByLoad (lds_Name spec) of
              None \<Rightarrow> retA ()
            | Some tags \<Rightarrow>
                bindA (wrapA (named_err ''load %q modbus tags: %w'' (lds_Name spec)) (on_db (replaceModbusTags G (ld_ID l) tags))) (\<lambda>n.
                report (\<lambda>r. r\<lparr> rep_ModbusTags := rep_ModbusTags r + n \<rparr>))) (\<lambda>_.
     case opcuaByLoad (lds_Name spec) of
       None \<Rightarrow> retA ()
     | Some nodes \<Rightarrow>
         bindA (wrapA (named_err ''load %q opcua nodes: %w'' (lds_Name spec)) (on_db (replaceOPCUANodes G (ld_ID l) nodes))) (\<lambda>n.
         report (\<lambda>r. r\<lparr> rep_OPCUANodes := rep_OPCUANodes r + n \<rparr>))))))"

fun seed_loads :: "'g gorm_db \<Rightarrow> (string \<rightharpoonup> meta_Source) \<Rightarrow> (string \<rightharpoonup> ModbusTagSpec list) \<Rightarrow> (string \<rightharpoonup> OPCUANodeSpec list) \<Rightarrow>
    LoadSpec list \<Rightarrow> ('g \<times> Report, unit) act" where
  "seed_loads G srcByName mb oc [] = retA ()"
| "seed_loads G srcByName mb oc (spec # specs) =
     bindA (seed_load G srcByName mb oc spec) (\<lambda>_. seed_loads G srcByName mb oc specs)"

text \<open>The groups of tags, once all references are checked.\<close>

definition seed_groups :: "(string set \<Rightarrow> string list) \<Rightarrow> seed_File \<Rightarrow> ((string \<rightharpoonup> ModbusTagSpec list) \<times> (string \<rightharpoonup> OPCUANodeSpec list)) res" where
  "seed_groups ord f =
     bind_res (group_by_load ts_Load (\<lambda>t. Errorf ''modbus_tag %q missing load reference'' [AStr (ts_TagName t)])
       (sf_ModbusTags f) Map.empty) (\<lambda>mb.
     bind_res (group_by_load ns_Load (\<lambda>n. Errorf ''opcua_node %q missing load reference'' [AStr (ns_TagName n)])
       (sf_OPCUANodes f) Map.empty) (\<lambda>oc.
     bind_res (undeclared ord ''modbus_tags reference undeclared load %q'' (declaredLoads f) mb) (\<lambda>_.
     bind_res (undeclared ord ''opcua_nodes reference undeclared load %q'' (declaredLoads f) oc) (\<lambda>_.
     Inr (mb, oc)))))"

text \<open>The handle with its transactions over the database and the report.\<close>

record 'g seed_db =
  sd_db :: "'g gorm_db"
  sd_Transaction :: "('g \<times> Report, unit) act \<Rightarrow> ('g \<times> Report, unit) act"

definition seed_Apply :: "(string set \<Rightarrow> string list) \<Rightarrow> 'g seed_db \<Rightarrow> seed_File \<Rightarrow> 'g \<Rightarrow> unit res \<times> ('g \<times> Report)" where
  "seed_Apply ord D f g =
     (case seed_groups ord f of
        Inl e \<Rightarrow> (Inl e, (g, zero_Report))
      | Inr (mb, oc) \<Rightarrow>
          sd_Transaction D (bindA (seed_sources (sd_db D) (sf_Sources f) Map.empty) (\<lambda>srcByName.
            seed_loads (sd_db D) srcByName mb oc (sf_Loads f))) (g, zero_Report))"

end
