(* ===== verification/Seeding.thy ===== *)
theory Seeding
  imports Seed
begin

text \<open>
  What \<^verbatim>\<open>seed.Apply\<close> does to the metadata: a refinement of maps by name. Surrogate keys and the times that GORM
  sets are abstracted away; the abstract operations say what a specification makes of the row of its name.
\<close>

section \<open>Rows by name\<close>

definition source_named :: "meta_db \<Rightarrow> string \<rightharpoonup> meta_Source" where
  "source_named d n = List.find (live_source n) (d_sources d)"

definition load_named :: "meta_db \<Rightarrow> string \<rightharpoonup> meta_Load" where
  "load_named d n = List.find (live_load n) (d_loads d)"

definition source_cfg :: "meta_Source \<Rightarrow> meta_Source" where
  "source_cfg s = s\<lparr> ms_ID := 0, ms_CreatedAt := zero_time, ms_UpdatedAt := zero_time \<rparr>"

definition load_cfg :: "meta_Load \<Rightarrow> meta_Load" where
  "load_cfg l = l\<lparr> ld_ID := 0, ld_CreatedAt := zero_time, ld_UpdatedAt := zero_time \<rparr>"

definition sources_by_name :: "meta_db \<Rightarrow> string \<rightharpoonup> meta_Source" where
  "sources_by_name d n = map_option source_cfg (source_named d n)"

definition loads_by_name :: "meta_db \<Rightarrow> string \<rightharpoonup> meta_Load" where
  "loads_by_name d n = map_option load_cfg (load_named d n)"

text \<open>The points of a load, without their surrogate keys.\<close>

definition tags_of :: "meta_db \<Rightarrow> int \<Rightarrow> ModbusTag list" where
  "tags_of d i = map (\<lambda>t. t\<lparr> mt_ID := 0 \<rparr>) (filter (\<lambda>t. mt_LoadID t = i) (d_modbus d))"

definition nodes_of :: "meta_db \<Rightarrow> int \<Rightarrow> OPCUANode list" where
  "nodes_of d i = map (\<lambda>n. n\<lparr> on_ID := 0 \<rparr>) (filter (\<lambda>n. on_LoadID n = i) (d_opcua d))"

text \<open>The abstract operations. A new row is enabled, whatever its specification says.\<close>

definition put_source :: "SourceSpec \<Rightarrow> meta_Source option \<Rightarrow> meta_Source" where
  "put_source spec old = (case old of None \<Rightarrow> (new_source spec)\<lparr> ms_IsEnabled := True \<rparr> | Some s \<Rightarrow> updated_source spec s)"

definition put_load :: "int \<Rightarrow> LoadSpec \<Rightarrow> meta_Load option \<Rightarrow> meta_Load" where
  "put_load sourceID spec old = (case old of None \<Rightarrow> Load_defaults (new_load spec sourceID) | Some l \<Rightarrow> updated_load spec sourceID l)"

definition seeded_sources :: "SourceSpec list \<Rightarrow> (string \<rightharpoonup> meta_Source) \<Rightarrow> (string \<rightharpoonup> meta_Source)" where
  "seeded_sources specs m = fold (\<lambda>spec m. m(srs_Name spec \<mapsto> put_source spec (m (srs_Name spec)))) specs m"

definition seeded_loads :: "(string \<Rightarrow> int) \<Rightarrow> LoadSpec list \<Rightarrow> (string \<rightharpoonup> meta_Load) \<Rightarrow> (string \<rightharpoonup> meta_Load)" where
  "seeded_loads sid specs m =
     fold (\<lambda>spec m. m(lds_Name spec \<mapsto> put_load (sid (lds_Source spec)) spec (m (lds_Name spec)))) specs m"

text \<open>Primary keys are unique.\<close>

definition keys_ok :: "meta_db \<Rightarrow> bool" where
  "keys_ok d \<longleftrightarrow> distinct (map ms_ID (d_sources d)) \<and> distinct (map ld_ID (d_loads d))"

text \<open>The map \<^verbatim>\<open>srcByName\<close> holds rows of the table.\<close>

definition srcs_ok :: "(string \<rightharpoonup> meta_Source) \<Rightarrow> meta_db \<Rightarrow> bool" where
  "srcs_ok m d \<longleftrightarrow> (\<forall>n s. m n = Some s \<longrightarrow> (\<exists>row. source_named d n = Some row \<and> ms_ID row = ms_ID s))"

text \<open>The key of a source by name, and what a file says about the points of a load.\<close>

definition source_key :: "meta_db \<Rightarrow> string \<Rightarrow> int" where
  "source_key d n = ms_ID (the (source_named d n))"

definition points_set :: "(string \<rightharpoonup> ModbusTagSpec list) \<Rightarrow> (string \<rightharpoonup> OPCUANodeSpec list) \<Rightarrow> meta_db \<Rightarrow> string \<Rightarrow> int \<Rightarrow> bool" where
  "points_set mb oc d n i \<longleftrightarrow>
     (\<forall>ts. mb n = Some ts \<longrightarrow> tags_of d i = map (\<lambda>t. ModbusTag_defaults (new_tag i t)) ts) \<and>
     (\<forall>ns. oc n = Some ns \<longrightarrow> nodes_of d i = map (\<lambda>x. OPCUANode_defaults (new_node i x)) ns)"

definition same_rest :: "meta_db \<Rightarrow> meta_db \<Rightarrow> bool" where
  "same_rest d d' \<longleftrightarrow> d_sources d' = d_sources d \<and> d_watermarks d' = d_watermarks d \<and> d_runs d' = d_runs d \<and> d_logs d' = d_logs d"

lemma load_named_inj:
  assumes "keys_ok d" and "load_named d m = Some r" and "load_named d n = Some r'" and "ld_ID r = ld_ID r'"
  shows "m = n"
proof -
  have r: "live_load m r" "r \<in> set (d_loads d)" "live_load n r'" "r' \<in> set (d_loads d)"
    using assms(2,3) by (auto simp: load_named_def dest!: find_SomeD)
  then have "r = r'"
    using assms(1,4) by (auto simp: keys_ok_def distinct_map inj_on_def)
  then show ?thesis
    using r by (simp add: live_load_def)
qed

section \<open>One row of a table\<close>

lemma find_snoc: "List.find P (rs @ [r]) = (case List.find P rs of None \<Rightarrow> if P r then Some r else None | Some x \<Rightarrow> Some x)"
  by (induction rs) auto

lemma find_save_same:
  assumes "distinct (map key rs)" and "List.find P rs = Some x" and "key y = key x" and "P y"
  shows "List.find P (map (\<lambda>z. if key z = key y then y else z) rs) = Some y"
  using assms
proof (induction rs)
  case (Cons r rs)
  show ?case
  proof (cases "P r")
    case False
    then have "x \<in> set rs"
      using Cons.prems(2) find_SomeD [of P rs x] by simp
    then have "key r \<noteq> key y"
      using Cons.prems(1,3) by auto
    then show ?thesis
      using Cons False by simp
  qed (use Cons.prems in simp)
qed simp

lemma find_save_other:
  assumes "distinct (map key rs)" and "x \<in> set rs" and "key y = key x" and "\<not> P x" and "\<not> P y"
  shows "List.find P (map (\<lambda>z. if key z = key y then y else z) rs) = List.find P rs"
  using assms
proof (induction rs)
  case (Cons r rs)
  show ?case
  proof (cases "r = x")
    case True
    then have "map (\<lambda>z. if key z = key y then y else z) rs = rs"
      using Cons.prems(1,3) by (intro map_idI) (auto simp: image_iff)
    then show ?thesis
      using True Cons.prems by simp
  next
    case False
    then have "key r \<noteq> key y" "x \<in> set rs"
      using Cons.prems(1-3) by auto
    then show ?thesis
      using Cons by simp
  qed
qed simp

lemma map_key_save: "map key (map (\<lambda>z. if key z = key y then y else z) rs) = map key rs"
  by (induction rs) auto

text \<open>An upsert by name on any table: the shape that \<^verbatim>\<open>upsertSource\<close> and \<^verbatim>\<open>upsertLoad\<close> share.\<close>

context gorm_rows
begin

lemma upsert_named:
  assumes up: "bindA (gt_First T (live n)) (\<lambda>x. case x of
        None \<Rightarrow> bindA (gt_Create T new) (\<lambda>s. retA (s, A))
      | Some s \<Rightarrow> bindA (gt_Save T (upd s)) (\<lambda>_. retA (upd s, B))) g = (Inr (s, a), g')"
    and dist: "distinct (map key (get (view g)))"
    and lens: "\<And>f d. get (put f d) = f (get d)" "\<And>f d. put f d = put (\<lambda>_. f (get d)) d"
    and ids: "\<And>r. key (upd r) = key r" "\<And>t r. key (touch t r) = key r"
    and live: "\<And>m r. live n r \<Longrightarrow> live m r \<longleftrightarrow> m = n" "\<And>m t r. live m (touch t (upd r)) = live m r"
      "\<And>m k t. live m (setkey k (stamp t (dflt new))) \<longleftrightarrow> m = n"
  shows "distinct (map key (get (view g'))) \<and> view g' = put (\<lambda>_. get (view g')) (view g) \<and>
    (\<exists>row. (\<forall>m. List.find (live m) (get (view g')) = (if m = n then Some row else List.find (live m) (get (view g)))) \<and>
      key row = key s \<and>
      (case List.find (live n) (get (view g)) of
         None \<Rightarrow> \<exists>k t. row = setkey k (stamp t (dflt new))
       | Some old \<Rightarrow> key row = key old \<and> (\<exists>t. row = touch t (upd old))))"
proof -
  let ?rs = "get (view g)"
  obtain x g1 where f: "gt_First T (live n) g = (Inr x, g1)"
    and br: "(case x of
        None \<Rightarrow> bindA (gt_Create T new) (\<lambda>s. retA (s, A))
      | Some s \<Rightarrow> bindA (gt_Save T (upd s)) (\<lambda>_. retA (upd s, B))) g1 = (Inr (s, a), g')"
    using up by (auto elim!: bindA_InrE)
  have x: "x = List.find (live n) ?rs" and v1: "view g1 = view g"
    using first_ok [OF f] first_view [OF f] by simp_all
  show ?thesis
  proof (cases x)
    case None
    then have "gt_Create T new g1 = (Inr s, g')"
      using br by (auto elim!: bindA_InrE)
    from create_ok [OF this] obtain k t where c: "key s \<notin> key ` set ?rs"
      "s = setkey k (stamp t (dflt new))" "view g' = put (\<lambda>rs. rs @ [s]) (view g)"
      unfolding v1 by blast
    have rs': "get (view g') = ?rs @ [s]" "view g' = put (\<lambda>_. get (view g')) (view g)"
      using c(3) lens(1) lens(2) [of "\<lambda>rs. rs @ [s]" "view g"] by simp_all
    have "List.find (live m) (get (view g')) = (if m = n then Some s else List.find (live m) ?rs)" for m
      using None x live(3) [of m k t] by (auto simp: rs'(1) find_snoc c(2) split: option.splits)
    then show ?thesis
      using c(1,2) dist rs' None x by auto
  next
    case (Some old)
    have old: "List.find (live n) ?rs = Some old"
      using Some x by simp
    note o = conjunct1 [OF find_SomeD [OF old]] conjunct2 [OF find_SomeD [OF old]]
    have sv: "gt_Save T (upd old) g1 = (Inr (), g')" "s = upd old"
      using br Some by (auto elim!: bindA_InrE)
    have "key (upd old) \<in> key ` set (get (view g1))"
      using o(2) v1 ids(1) by simp
    from save_ok [OF sv(1) this] obtain t where
      g': "view g' = put (map (\<lambda>x. if key x = key (upd old) then touch t (upd old) else x)) (view g)"
      unfolding v1 by blast
    let ?z = "touch t (upd old)"
    have kz: "key ?z = key old" "key (upd old) = key ?z"
      using ids by simp_all
    have rs': "get (view g') = map (\<lambda>x. if key x = key ?z then ?z else x) ?rs" "view g' = put (\<lambda>_. get (view g')) (view g)"
      using g' lens(1) lens(2) [of "map (\<lambda>x. if key x = key (upd old) then ?z else x)" "view g"] kz(2) by simp_all
    have lz: "live m ?z \<longleftrightarrow> m = n" for m
      using live(1) [OF o(1)] live(2) by simp
    have "List.find (live m) (get (view g')) = (if m = n then Some ?z else List.find (live m) ?rs)" for m
      unfolding rs'(1)
      using find_save_same [of key, OF dist old kz(1)] find_save_other [of key, OF dist o(2) kz(1), of "live m"]
        lz live(1) [OF o(1)] by simp
    then have "\<forall>m. List.find (live m) (get (view g')) = (if m = n then Some ?z else List.find (live m) ?rs)" ..
    moreover have "distinct (map key (get (view g')))"
      using dist unfolding rs'(1) map_key_save .
    moreover have "key ?z = key s"
      using sv(2) ids(2) by simp
    ultimately show ?thesis
      unfolding old option.case using rs'(2) kz(1) by blast
  qed
qed

end

section \<open>Sources and loads\<close>

context gorm_store
begin

lemma upsertSource_ok:
  assumes "upsertSource G spec g = (Inr (s, a), g')" and "keys_ok (view g)"
  shows "keys_ok (view g') \<and> view g' = d_sources_update (\<lambda>_. d_sources (view g')) (view g) \<and>
    (\<exists>row. source_named (view g') = (source_named (view g))(srs_Name spec \<mapsto> row) \<and> ms_ID row = ms_ID s \<and>
      source_cfg row = put_source spec (map_option source_cfg (source_named (view g) (srs_Name spec))))"
proof -
  let ?n = "srs_Name spec" and ?S = "\<lambda>g m. List.find (live_source m) (d_sources (view g))"
  have up: "bindA (gt_First (g_sources G) (live_source ?n)) (\<lambda>x. case x of
        None \<Rightarrow> bindA (gt_Create (g_sources G) (new_source spec)) (\<lambda>s. retA (s, ActionCreated))
      | Some s \<Rightarrow> bindA (gt_Save (g_sources G) (updated_source spec s)) (\<lambda>_. retA (updated_source spec s, ActionUpdated))) g
      = (Inr (s, a), g')"
    using assms(1) by (auto simp: upsertSource_def split: if_splits)
  have "distinct (map ms_ID (d_sources (view g)))"
    using assms(2) by (simp add: keys_ok_def)
  then have "distinct (map ms_ID (d_sources (view g'))) \<and> view g' = d_sources_update (\<lambda>_. d_sources (view g')) (view g) \<and>
    (\<exists>row. (\<forall>m. ?S g' m = (if m = ?n then Some row else ?S g m)) \<and> ms_ID row = ms_ID s \<and>
      (case ?S g ?n of
         None \<Rightarrow> \<exists>k t. row = (Source_stamp t (Source_defaults (new_source spec)))\<lparr> ms_ID := k \<rparr>
       | Some old \<Rightarrow> ms_ID row = ms_ID old \<and> (\<exists>t. row = Source_touch t (updated_source spec old))))"
    by (intro sr.upsert_named [where live = live_source and n = ?n and new = "new_source spec" and upd = "updated_source spec", OF up])
      (auto simp: live_source_def Source_touch_def updated_source_def Source_stamp_def Source_defaults_def new_source_def zero_Source_def)
  then obtain row where
    d: "distinct (map ms_ID (d_sources (view g')))" "view g' = d_sources_update (\<lambda>_. d_sources (view g')) (view g)"
    and f: "\<And>m. ?S g' m = (if m = ?n then Some row else ?S g m)" "ms_ID row = ms_ID s"
    and r: "case ?S g ?n of
         None \<Rightarrow> \<exists>k t. row = (Source_stamp t (Source_defaults (new_source spec)))\<lparr> ms_ID := k \<rparr>
       | Some old \<Rightarrow> ms_ID row = ms_ID old \<and> (\<exists>t. row = Source_touch t (updated_source spec old))"
    by blast
  have "source_cfg row = put_source spec (map_option source_cfg (?S g ?n))"
    using r by (auto simp: put_source_def source_cfg_def Source_touch_def updated_source_def Source_stamp_def
        Source_defaults_def new_source_def zero_Source_def split: option.splits)
  moreover have "source_named (view g') = (source_named (view g))(?n \<mapsto> row)"
    using f(1) by (simp add: source_named_def fun_eq_iff)
  moreover have "d_loads (view g') = d_loads (view g)"
    using d(2) by (metis meta_db.select_convs(2) meta_db.surjective meta_db.update_convs(1))
  ultimately show ?thesis
    using d f(2) assms(2) by (auto simp: keys_ok_def source_named_def)
qed

lemma upsertLoad_ok:
  assumes "upsertLoad G spec sid g = (Inr (l, a), g')" and "keys_ok (view g)"
  shows "keys_ok (view g') \<and> view g' = d_loads_update (\<lambda>_. d_loads (view g')) (view g) \<and>
    (\<exists>row. load_named (view g') = (load_named (view g))(lds_Name spec \<mapsto> row) \<and> ld_ID row = ld_ID l \<and>
      (\<forall>old. load_named (view g) (lds_Name spec) = Some old \<longrightarrow> ld_ID row = ld_ID old) \<and>
      load_cfg row = put_load sid spec (map_option load_cfg (load_named (view g) (lds_Name spec))))"
proof -
  let ?n = "lds_Name spec" and ?L = "\<lambda>g m. List.find (live_load m) (d_loads (view g))"
  have up: "bindA (gt_First (g_loads G) (live_load ?n)) (\<lambda>x. case x of
        None \<Rightarrow> bindA (gt_Create (g_loads G) (new_load spec sid)) (\<lambda>s. retA (s, ActionCreated))
      | Some s \<Rightarrow> bindA (gt_Save (g_loads G) (updated_load spec sid s)) (\<lambda>_. retA (updated_load spec sid s, ActionUpdated))) g
      = (Inr (l, a), g')"
    using assms(1) by (auto simp: upsertLoad_def split: if_splits)
  have "distinct (map ld_ID (d_loads (view g)))"
    using assms(2) by (simp add: keys_ok_def)
  then have "distinct (map ld_ID (d_loads (view g'))) \<and> view g' = d_loads_update (\<lambda>_. d_loads (view g')) (view g) \<and>
    (\<exists>row. (\<forall>m. ?L g' m = (if m = ?n then Some row else ?L g m)) \<and> ld_ID row = ld_ID l \<and>
      (case ?L g ?n of
         None \<Rightarrow> \<exists>k t. row = (Load_stamp t (Load_defaults (new_load spec sid)))\<lparr> ld_ID := k \<rparr>
       | Some old \<Rightarrow> ld_ID row = ld_ID old \<and> (\<exists>t. row = Load_touch t (updated_load spec sid old))))"
    by (intro ld.upsert_named [where live = live_load and n = ?n and new = "new_load spec sid" and upd = "updated_load spec sid", OF up])
      (auto simp: live_load_def Load_touch_def updated_load_def Load_stamp_def Load_defaults_def new_load_def zero_Load_def)
  then obtain row where
    d: "distinct (map ld_ID (d_loads (view g')))" "view g' = d_loads_update (\<lambda>_. d_loads (view g')) (view g)"
    and f: "\<And>m. ?L g' m = (if m = ?n then Some row else ?L g m)" "ld_ID row = ld_ID l"
    and r: "case ?L g ?n of
         None \<Rightarrow> \<exists>k t. row = (Load_stamp t (Load_defaults (new_load spec sid)))\<lparr> ld_ID := k \<rparr>
       | Some old \<Rightarrow> ld_ID row = ld_ID old \<and> (\<exists>t. row = Load_touch t (updated_load spec sid old))"
    by blast
  have "load_cfg row = put_load sid spec (map_option load_cfg (?L g ?n))"
    using r by (auto simp: put_load_def load_cfg_def Load_touch_def updated_load_def Load_stamp_def
        Load_defaults_def new_load_def zero_Load_def split: option.splits)
  moreover have "load_named (view g') = (load_named (view g))(?n \<mapsto> row)"
    using f(1) by (simp add: load_named_def fun_eq_iff)
  moreover have "d_sources (view g') = d_sources (view g)"
    using d(2) by (metis meta_db.select_convs(1) meta_db.surjective meta_db.update_convs(2))
  moreover have "\<forall>old. load_named (view g) ?n = Some old \<longrightarrow> ld_ID row = ld_ID old"
    using r by (auto simp: load_named_def)
  ultimately show ?thesis
    using d f(2) assms(2) by (auto simp: keys_ok_def load_named_def)
qed

lemma seed_sources_ok:
  assumes "seed_sources G specs m (g, rep) = (Inr m', (g', rep'))" and "keys_ok (view g)" and "srcs_ok m (view g)"
  shows "keys_ok (view g') \<and> view g' = d_sources_update (\<lambda>_. d_sources (view g')) (view g) \<and> srcs_ok m' (view g') \<and>
    sources_by_name (view g') = seeded_sources specs (sources_by_name (view g))"
  using assms
proof (induction specs arbitrary: m g rep)
  case (Cons spec specs)
  let ?n = "srs_Name spec"
  obtain s a g1 where u: "upsertSource G spec g = (Inr (s, a), g1)"
    and rest: "seed_sources G specs (m(?n \<mapsto> s)) (g1, recordSource a ?n rep) = (Inr m', (g', rep'))"
    using Cons.prems(1) by (auto simp: on_db_def report_def elim!: bindA_InrE split: prod.splits)
  obtain row where k: "keys_ok (view g1)" "view g1 = d_sources_update (\<lambda>_. d_sources (view g1)) (view g)"
    and row: "source_named (view g1) = (source_named (view g))(?n \<mapsto> row)" "ms_ID row = ms_ID s"
      "source_cfg row = put_source spec (map_option source_cfg (source_named (view g) ?n))"
    using upsertSource_ok [OF u Cons.prems(2)] by blast
  have "srcs_ok (m(?n \<mapsto> s)) (view g1)"
    using Cons.prems(3) row(1,2) by (auto simp: srcs_ok_def)
  note IH = Cons.IH [OF rest k(1) this]
  have "sources_by_name (view g1) = (sources_by_name (view g))(?n \<mapsto> put_source spec (sources_by_name (view g) ?n))"
    using row by (auto simp: sources_by_name_def fun_eq_iff)
  moreover have "view g' = d_sources_update (\<lambda>_. d_sources (view g')) (view g)"
    using IH k(2) by (metis (no_types, lifting) meta_db.surjective meta_db.update_convs(1))
  ultimately show ?case
    using IH by (simp add: seeded_sources_def del: fun_upd_apply)
qed (simp add: seeded_sources_def)

lemma source_of_ok:
  assumes "source_of G m spec g = (Inr src, g')" and "srcs_ok m (view g)"
  shows "view g' = view g \<and> (\<exists>row. source_named (view g) (lds_Source spec) = Some row \<and> ms_ID row = ms_ID src)"
proof (cases "m (lds_Source spec)")
  case None
  then obtain x where "gt_First (g_sources G) (live_source (lds_Source spec)) g = (Inr x, g')" "x = Some src"
    using assms(1) by (auto simp: source_of_def elim!: bindA_InrE split: option.splits)
  then show ?thesis
    using sr.first_ok sr.first_view by (fastforce simp: source_named_def)
qed (use assms in \<open>auto simp: source_of_def srcs_ok_def\<close>)

section \<open>Points\<close>

lemma replaceModbusTags_ok:
  assumes "replaceModbusTags G i specs g = (Inr n, g')"
  shows "view g' = d_modbus_update (\<lambda>_. d_modbus (view g')) (view g) \<and> n = int (length specs) \<and>
    tags_of (view g') i = map (\<lambda>t. ModbusTag_defaults (new_tag i t)) specs \<and>
    (\<forall>j. j \<noteq> i \<longrightarrow> tags_of (view g') j = tags_of (view g) j)"
proof -
  have rows: "rows = map (new_tag i) ts" if "tag_rows i ts = Inr rows" for ts rows
    using that by (induction ts arbitrary: rows) (auto simp: bind_res_Inr_iff split: if_splits)
  obtain c g1 rs where del: "gt_Delete (g_modbus G) (\<lambda>t. mt_LoadID t = i) g = (Inr c, g1)"
    and rs: "tag_rows i specs = Inr rs"
    and br0: "(if rs = [] then retA 0 else bindA (gt_CreateAll (g_modbus G) rs) (\<lambda>_. retA (int (length rs)))) g1 = (Inr n, g')"
    using assms by (auto simp: replaceModbusTags_def elim!: bindA_InrE)
  note br = br0 [unfolded rows [OF rs], simplified]
  have v1: "view g1 = d_modbus_update (filter (\<lambda>t. mt_LoadID t \<noteq> i)) (view g)"
    using mb.delete_ok [OF del] by simp
  show ?thesis
  proof (cases "specs = []")
    case True
    then show ?thesis
      using br v1 by (auto simp: tags_of_def filter_empty_conv intro!: arg_cong [where f = "map _"] filter_cong)
  next
    case False
    then obtain rs' where c: "gt_CreateAll (g_modbus G) (map (new_tag i) specs) g1 = (Inr rs', g')" "n = int (length specs)"
      using br by (auto elim!: bindA_InrE)
    have all: "list_all2 (\<lambda>r r'. \<exists>k t. r' = (ModbusTag_defaults r)\<lparr> mt_ID := k \<rparr>) (map (new_tag i) specs) rs'"
      and v: "view g' = d_modbus_update (\<lambda>xs. xs @ rs') (view g1)"
      using mb.createall_ok [OF c(1)] by auto
    have "map (\<lambda>t. t\<lparr> mt_ID := 0 \<rparr>) rs' = map (\<lambda>t. ModbusTag_defaults (new_tag i t)) specs \<and> (\<forall>r \<in> set rs'. mt_LoadID r = i)"
      using all by (induction specs arbitrary: rs') (auto simp: list_all2_Cons1 ModbusTag_defaults_def new_tag_def)
    then have "map (\<lambda>t. t\<lparr> mt_ID := 0 \<rparr>) rs' = map (\<lambda>t. ModbusTag_defaults (new_tag i t)) specs" "filter (\<lambda>t. mt_LoadID t = i) rs' = rs'"
      "\<And>j. j \<noteq> i \<Longrightarrow> filter (\<lambda>t. mt_LoadID t = j) rs' = []"
      by (auto simp: filter_empty_conv filter_id_conv)
    then show ?thesis
      using v v1 c(2) by (auto simp: tags_of_def intro!: arg_cong [where f = "map _"] filter_cong)
  qed
qed

lemma replaceOPCUANodes_ok:
  assumes "replaceOPCUANodes G i specs g = (Inr n, g')"
  shows "view g' = d_opcua_update (\<lambda>_. d_opcua (view g')) (view g) \<and> n = int (length specs) \<and>
    nodes_of (view g') i = map (\<lambda>t. OPCUANode_defaults (new_node i t)) specs \<and>
    (\<forall>j. j \<noteq> i \<longrightarrow> nodes_of (view g') j = nodes_of (view g) j)"
proof -
  have rows: "rows = map (new_node i) ts" if "node_rows i ts = Inr rows" for ts rows
    using that by (induction ts arbitrary: rows) (auto simp: bind_res_Inr_iff split: if_splits)
  obtain c g1 rs where del: "gt_Delete (g_opcua G) (\<lambda>t. on_LoadID t = i) g = (Inr c, g1)"
    and rs: "node_rows i specs = Inr rs"
    and br0: "(if rs = [] then retA 0 else bindA (gt_CreateAll (g_opcua G) rs) (\<lambda>_. retA (int (length rs)))) g1 = (Inr n, g')"
    using assms by (auto simp: replaceOPCUANodes_def elim!: bindA_InrE)
  note br = br0 [unfolded rows [OF rs], simplified]
  have v1: "view g1 = d_opcua_update (filter (\<lambda>t. on_LoadID t \<noteq> i)) (view g)"
    using oc.delete_ok [OF del] by simp
  show ?thesis
  proof (cases "specs = []")
    case True
    then show ?thesis
      using br v1 by (auto simp: nodes_of_def filter_empty_conv intro!: arg_cong [where f = "map _"] filter_cong)
  next
    case False
    then obtain rs' where c: "gt_CreateAll (g_opcua G) (map (new_node i) specs) g1 = (Inr rs', g')" "n = int (length specs)"
      using br by (auto elim!: bindA_InrE)
    have all: "list_all2 (\<lambda>r r'. \<exists>k t. r' = (OPCUANode_defaults r)\<lparr> on_ID := k \<rparr>) (map (new_node i) specs) rs'"
      and v: "view g' = d_opcua_update (\<lambda>xs. xs @ rs') (view g1)"
      using oc.createall_ok [OF c(1)] by auto
    have "map (\<lambda>t. t\<lparr> on_ID := 0 \<rparr>) rs' = map (\<lambda>t. OPCUANode_defaults (new_node i t)) specs \<and> (\<forall>r \<in> set rs'. on_LoadID r = i)"
      using all by (induction specs arbitrary: rs') (auto simp: list_all2_Cons1 OPCUANode_defaults_def new_node_def)
    then have "map (\<lambda>t. t\<lparr> on_ID := 0 \<rparr>) rs' = map (\<lambda>t. OPCUANode_defaults (new_node i t)) specs" "filter (\<lambda>t. on_LoadID t = i) rs' = rs'"
      "\<And>j. j \<noteq> i \<Longrightarrow> filter (\<lambda>t. on_LoadID t = j) rs' = []"
      by (auto simp: filter_empty_conv filter_id_conv)
    then show ?thesis
      using v v1 c(2) by (auto simp: nodes_of_def intro!: arg_cong [where f = "map _"] filter_cong)
  qed
qed

section \<open>Loads with their points\<close>

lemma seed_load_ok:
  assumes "seed_load G m mb oc spec (g, rep) = (Inr u, (g', rep'))" and "keys_ok (view g)" and "srcs_ok m (view g)"
  shows "keys_ok (view g') \<and> same_rest (view g) (view g') \<and> source_named (view g) (lds_Source spec) \<noteq> None \<and>
    (\<exists>row. load_named (view g') = (load_named (view g))(lds_Name spec \<mapsto> row) \<and>
      (\<forall>old. load_named (view g) (lds_Name spec) = Some old \<longrightarrow> ld_ID row = ld_ID old) \<and>
      load_cfg row = put_load (source_key (view g) (lds_Source spec)) spec (loads_by_name (view g) (lds_Name spec)) \<and>
      points_set mb oc (view g') (lds_Name spec) (ld_ID row) \<and>
      (\<forall>j. j \<noteq> ld_ID row \<or> mb (lds_Name spec) = None \<longrightarrow> tags_of (view g') j = tags_of (view g) j) \<and>
      (\<forall>j. j \<noteq> ld_ID row \<or> oc (lds_Name spec) = None \<longrightarrow> nodes_of (view g') j = nodes_of (view g) j))"
proof -
  let ?n = "lds_Name spec"
  obtain src g1 l a g2 g3 where s: "source_of G m spec g = (Inr src, g1)"
    and u: "upsertLoad G spec (ms_ID src) g1 = (Inr (l, a), g2)"
    and t: "case mb ?n of None \<Rightarrow> g3 = g2 | Some ts \<Rightarrow> \<exists>n. replaceModbusTags G (ld_ID l) ts g2 = (Inr n, g3)"
    and o: "case oc ?n of None \<Rightarrow> g' = g3 | Some ns \<Rightarrow> \<exists>n. replaceOPCUANodes G (ld_ID l) ns g3 = (Inr n, g')"
    using assms(1) by (fastforce simp: seed_load_def on_db_def report_def elim!: bindA_InrE split: prod.splits option.splits)
  obtain srow where v1: "view g1 = view g" and srow: "source_named (view g) (lds_Source spec) = Some srow" "ms_ID srow = ms_ID src"
    using source_of_ok [OF s assms(3)] by blast
  have k1: "keys_ok (view g1)" using assms(2) v1 by simp
  obtain row where k2: "keys_ok (view g2)" "view g2 = d_loads_update (\<lambda>_. d_loads (view g2)) (view g)"
    and row: "load_named (view g2) = (load_named (view g))(?n \<mapsto> row)" "ld_ID row = ld_ID l"
      "\<forall>old. load_named (view g) ?n = Some old \<longrightarrow> ld_ID row = ld_ID old"
      "load_cfg row = put_load (ms_ID src) spec (map_option load_cfg (load_named (view g) ?n))"
    using upsertLoad_ok [OF u k1] unfolding v1 by blast
  have t3: "view g3 = d_modbus_update (\<lambda>_. d_modbus (view g3)) (view g2) \<and>
      (\<forall>ts. mb ?n = Some ts \<longrightarrow> tags_of (view g3) (ld_ID l) = map (\<lambda>t. ModbusTag_defaults (new_tag (ld_ID l) t)) ts) \<and>
      (\<forall>j. j \<noteq> ld_ID l \<or> mb ?n = None \<longrightarrow> tags_of (view g3) j = tags_of (view g2) j)"
    using t replaceModbusTags_ok by (cases "mb ?n") auto
  have o4: "view g' = d_opcua_update (\<lambda>_. d_opcua (view g')) (view g3) \<and>
      (\<forall>ns. oc ?n = Some ns \<longrightarrow> nodes_of (view g') (ld_ID l) = map (\<lambda>t. OPCUANode_defaults (new_node (ld_ID l) t)) ns) \<and>
      (\<forall>j. j \<noteq> ld_ID l \<or> oc ?n = None \<longrightarrow> nodes_of (view g') j = nodes_of (view g3) j)"
    using o replaceOPCUANodes_ok by (cases "oc ?n") auto
  obtain ls ts ns where v: "view g2 = d_loads_update (\<lambda>_. ls) (view g)" "view g3 = d_modbus_update (\<lambda>_. ts) (view g2)"
    "view g' = d_opcua_update (\<lambda>_. ns) (view g3)"
    using k2(2) conjunct1 [OF t3] conjunct1 [OF o4] by blast
  have frame: "keys_ok (view g') = keys_ok (view g2)" "load_named (view g') = load_named (view g2)" "same_rest (view g) (view g')"
    "tags_of (view g') = tags_of (view g3)" "nodes_of (view g3) = nodes_of (view g)" "tags_of (view g2) = tags_of (view g)"
    by (simp_all add: v keys_ok_def load_named_def same_rest_def tags_of_def nodes_of_def fun_eq_iff)
  show ?thesis
    using k2(1) row srow t3 o4 unfolding frame(1,2,4,5,6)
    by (auto simp: frame points_set_def source_key_def loads_by_name_def)
qed

lemma seed_loads_ok:
  assumes "seed_loads G m mb oc specs (g, rep) = (Inr u, (g', rep'))" and "keys_ok (view g)" and "srcs_ok m (view g)"
  shows "keys_ok (view g') \<and> same_rest (view g) (view g') \<and>
    (\<forall>spec \<in> set specs. source_named (view g) (lds_Source spec) \<noteq> None) \<and>
    loads_by_name (view g') = seeded_loads (source_key (view g)) specs (loads_by_name (view g)) \<and>
    (\<forall>n old. load_named (view g) n = Some old \<longrightarrow> (\<exists>row. load_named (view g') n = Some row \<and> ld_ID row = ld_ID old)) \<and>
    (\<forall>spec \<in> set specs. \<exists>row. load_named (view g') (lds_Name spec) = Some row \<and> points_set mb oc (view g') (lds_Name spec) (ld_ID row)) \<and>
    (\<forall>j. (\<forall>spec \<in> set specs. \<forall>row. load_named (view g') (lds_Name spec) = Some row \<and> ld_ID row = j \<longrightarrow> mb (lds_Name spec) = None) \<longrightarrow>
      tags_of (view g') j = tags_of (view g) j) \<and>
    (\<forall>j. (\<forall>spec \<in> set specs. \<forall>row. load_named (view g') (lds_Name spec) = Some row \<and> ld_ID row = j \<longrightarrow> oc (lds_Name spec) = None) \<longrightarrow>
      nodes_of (view g') j = nodes_of (view g) j)"
  using assms
proof (induction specs arbitrary: g rep)
  case Nil
  then show ?case by (simp add: same_rest_def seeded_loads_def)
next
  case (Cons spec specs)
  let ?n = "lds_Name spec"
  obtain g1 rep1 where h: "seed_load G m mb oc spec (g, rep) = (Inr (), (g1, rep1))"
    and rest: "seed_loads G m mb oc specs (g1, rep1) = (Inr u, (g', rep'))"
    using Cons.prems(1) by (auto elim!: bindA_InrE)
  obtain row where k: "keys_ok (view g1)" "same_rest (view g) (view g1)" "source_named (view g) (lds_Source spec) \<noteq> None"
    and row: "load_named (view g1) = (load_named (view g))(?n \<mapsto> row)"
      "\<forall>old. load_named (view g) ?n = Some old \<longrightarrow> ld_ID row = ld_ID old"
      "load_cfg row = put_load (source_key (view g) (lds_Source spec)) spec (loads_by_name (view g) ?n)"
    and pts: "points_set mb oc (view g1) ?n (ld_ID row)"
      "\<forall>j. j \<noteq> ld_ID row \<or> mb ?n = None \<longrightarrow> tags_of (view g1) j = tags_of (view g) j"
      "\<forall>j. j \<noteq> ld_ID row \<or> oc ?n = None \<longrightarrow> nodes_of (view g1) j = nodes_of (view g) j"
    using seed_load_ok [OF h Cons.prems(2,3)] by blast
  have src: "source_named (view g1) = source_named (view g)" "source_key (view g1) = source_key (view g)"
    using k(2) by (simp_all add: same_rest_def source_named_def source_key_def fun_eq_iff)
  have "srcs_ok m (view g1)"
    using Cons.prems(3) src(1) by (simp add: srcs_ok_def)
  note IH = Cons.IH [OF rest k(1) this, unfolded src]
  have ids: "\<exists>r. load_named (view g') n = Some r \<and> ld_ID r = ld_ID old" if "load_named (view g1) n = Some old" for n old
    using IH that by blast
  obtain row' where row': "load_named (view g') ?n = Some row'" "ld_ID row' = ld_ID row"
    using ids [of ?n row] row(1) by auto
  have head: "points_set mb oc (view g') ?n (ld_ID row')"
  proof (cases "?n \<in> lds_Name ` set specs")
    case True
    then show ?thesis using IH row'(1) by (metis (no_types, lifting) imageE option.inject)
  next
    case False
    have "\<not> (load_named (view g') (lds_Name sp) = Some r \<and> ld_ID r = ld_ID row)" if "sp \<in> set specs" for sp r
      using load_named_inj [of "view g'" "lds_Name sp" r ?n row'] IH row' that False by (metis imageI)
    then have "tags_of (view g') (ld_ID row) = tags_of (view g1) (ld_ID row)" "nodes_of (view g') (ld_ID row) = nodes_of (view g1) (ld_ID row)"
      using IH by blast+
    then show ?thesis
      using pts(1) row'(2) by (simp add: points_set_def)
  qed
  have "loads_by_name (view g1) = (loads_by_name (view g))(?n \<mapsto> put_load (source_key (view g) (lds_Source spec)) spec (loads_by_name (view g) ?n))"
    using row(1,3) by (simp add: loads_by_name_def fun_eq_iff)
  then have l: "loads_by_name (view g') = seeded_loads (source_key (view g)) (spec # specs) (loads_by_name (view g))"
    using IH by (simp add: seeded_loads_def del: fun_upd_apply)
  have st: "\<exists>r. load_named (view g') n = Some r \<and> ld_ID r = ld_ID old" if "load_named (view g) n = Some old" for n old
    using that row(1,2) ids [of n old] row' by (cases "n = ?n") auto
  have tg: "tags_of (view g') j = tags_of (view g) j"
    if "\<forall>sp \<in> set (spec # specs). \<forall>r. load_named (view g') (lds_Name sp) = Some r \<and> ld_ID r = j \<longrightarrow> mb (lds_Name sp) = None" for j
  proof -
    have "j \<noteq> ld_ID row \<or> mb ?n = None" using that row' by auto
    then show ?thesis using pts(2) IH that by auto
  qed
  have nd: "nodes_of (view g') j = nodes_of (view g) j"
    if "\<forall>sp \<in> set (spec # specs). \<forall>r. load_named (view g') (lds_Name sp) = Some r \<and> ld_ID r = j \<longrightarrow> oc (lds_Name sp) = None" for j
  proof -
    have "j \<noteq> ld_ID row \<or> oc ?n = None" using that row' by auto
    then show ?thesis using pts(3) IH that by auto
  qed
  have "same_rest (view g) (view g')"
    using IH k(2) by (simp add: same_rest_def)
  then show ?case
    using IH k(3) l st tg nd head row'(1) by auto
qed

end

section \<open>The groups of points\<close>

lemma group_by_load_ok:
  "group_by_load load err ts m = Inr m' \<Longrightarrow>
   m' n = (if filter (\<lambda>t. load t = n) ts = [] then m n
           else Some ((case m n of None \<Rightarrow> [] | Some xs \<Rightarrow> xs) @ filter (\<lambda>t. load t = n) ts))"
  by (induction load err ts m rule: group_by_load.induct) (auto split: if_splits)

lemma seed_groups_ok:
  assumes "seed_groups ord f = Inr (mb, oc)"
  shows "mb n = (if filter (\<lambda>t. ts_Load t = n) (sf_ModbusTags f) = [] then None else Some (filter (\<lambda>t. ts_Load t = n) (sf_ModbusTags f)))"
    and "oc n = (if filter (\<lambda>t. ns_Load t = n) (sf_OPCUANodes f) = [] then None else Some (filter (\<lambda>t. ns_Load t = n) (sf_OPCUANodes f)))"
proof -
  obtain e1 e2 where "group_by_load ts_Load e1 (sf_ModbusTags f) Map.empty = Inr mb" "group_by_load ns_Load e2 (sf_OPCUANodes f) Map.empty = Inr oc"
    using assms by (auto simp: seed_groups_def bind_res_Inr_iff)
  from this [THEN group_by_load_ok, of n]
  show "mb n = (if filter (\<lambda>t. ts_Load t = n) (sf_ModbusTags f) = [] then None else Some (filter (\<lambda>t. ts_Load t = n) (sf_ModbusTags f)))"
    and "oc n = (if filter (\<lambda>t. ns_Load t = n) (sf_OPCUANodes f) = [] then None else Some (filter (\<lambda>t. ns_Load t = n) (sf_OPCUANodes f)))"
    by simp_all
qed

section \<open>Transactions with a report\<close>

locale seed_store = gorm_store "sd_db D" view
  for D :: "'g seed_db" and view :: "'g \<Rightarrow> meta_db" +
  assumes seed_tx_err: "sd_Transaction D b (g, rep) = (Inl e, (g', rep')) \<Longrightarrow> view g' = view g"
    and seed_tx_ok: "sd_Transaction D b (g, rep) = (Inr u, (g', rep')) \<Longrightarrow>
      \<exists>g0 g1. view g0 = view g \<and> b (g0, rep) = (Inr (), (g1, rep')) \<and> view g' = view g1"
begin

lemma Apply_err: "seed_Apply ord D f g = (Inl e, (g', rep)) \<Longrightarrow> view g' = view g"
  using seed_tx_err by (fastforce simp: seed_Apply_def split: sum.splits prod.splits)

lemma Apply_ok:
  assumes "seed_Apply ord D f g = (Inr u, (g', rep))" and "keys_ok (view g)"
  shows "\<exists>mb oc d1. seed_groups ord f = Inr (mb, oc) \<and> keys_ok d1 \<and> d1 = d_sources_update (\<lambda>_. d_sources d1) (view g) \<and>
    sources_by_name d1 = seeded_sources (sf_Sources f) (sources_by_name (view g)) \<and> keys_ok (view g') \<and>
    same_rest d1 (view g') \<and> (\<forall>spec \<in> set (sf_Loads f). source_named d1 (lds_Source spec) \<noteq> None) \<and>
    loads_by_name (view g') = seeded_loads (source_key d1) (sf_Loads f) (loads_by_name d1) \<and>
    (\<forall>spec \<in> set (sf_Loads f). \<exists>row. load_named (view g') (lds_Name spec) = Some row \<and>
      points_set mb oc (view g') (lds_Name spec) (ld_ID row)) \<and>
    (\<forall>j. (\<forall>spec \<in> set (sf_Loads f). \<forall>row. load_named (view g') (lds_Name spec) = Some row \<and> ld_ID row = j \<longrightarrow> mb (lds_Name spec) = None) \<longrightarrow>
      tags_of (view g') j = tags_of d1 j) \<and>
    (\<forall>j. (\<forall>spec \<in> set (sf_Loads f). \<forall>row. load_named (view g') (lds_Name spec) = Some row \<and> ld_ID row = j \<longrightarrow> oc (lds_Name spec) = None) \<longrightarrow>
      nodes_of (view g') j = nodes_of d1 j)"
proof -
  obtain mb oc where gr: "seed_groups ord f = Inr (mb, oc)"
    and tx: "sd_Transaction D (bindA (seed_sources (sd_db D) (sf_Sources f) Map.empty) (\<lambda>srcByName.
            seed_loads (sd_db D) srcByName mb oc (sf_Loads f))) (g, zero_Report) = (Inr u, (g', rep))"
    using assms(1) by (auto simp: seed_Apply_def split: sum.splits prod.splits)
  obtain g0 g1 where v: "view g0 = view g" "view g' = view g1"
    and b: "bindA (seed_sources (sd_db D) (sf_Sources f) Map.empty) (\<lambda>srcByName.
            seed_loads (sd_db D) srcByName mb oc (sf_Loads f)) (g0, zero_Report) = (Inr (), (g1, rep))"
    using seed_tx_ok [OF tx] by blast
  obtain m ga repa where ss: "seed_sources (sd_db D) (sf_Sources f) Map.empty (g0, zero_Report) = (Inr m, (ga, repa))"
    and sl: "seed_loads (sd_db D) m mb oc (sf_Loads f) (ga, repa) = (Inr (), (g1, rep))"
    using b by (auto elim!: bindA_InrE)
  have k0: "keys_ok (view g0)" "srcs_ok Map.empty (view g0)"
    using assms(2) v(1) by (simp_all add: srcs_ok_def)
  note A = seed_sources_ok [OF ss k0]
  note B = seed_loads_ok [OF sl conjunct1 [OF A] conjunct1 [OF conjunct2 [OF conjunct2 [OF A]]]]
  show ?thesis
    using gr A B unfolding v by blast
qed

end

text \<open>The store in memory.\<close>

definition mem_seed_tx :: "(memgorm \<times> Report, unit) act \<Rightarrow> (memgorm \<times> Report, unit) act" where
  "mem_seed_tx b = (\<lambda>(m, rep).
     case mg_gfaults m of
       True # bs \<Rightarrow> (Inl (ErrExt ''database is gone''), (m\<lparr>mg_gfaults := bs\<rparr>, rep))
     | fs \<Rightarrow>
         (case b (m\<lparr>mg_gfaults := tl fs\<rparr>, rep) of
            (Inr _, s) \<Rightarrow> (Inr (), s)
          | (Inl e, (m', rep')) \<Rightarrow> (Inl e, (m'\<lparr>mg_db := mg_db m\<rparr>, rep'))))"

definition MemSeed :: "memgorm seed_db" where
  "MemSeed = \<lparr> sd_db = MemGorm, sd_Transaction = mem_seed_tx \<rparr>"

lemma mem_seed_tx_ok:
  assumes "mem_seed_tx b (m, rep) = (Inr u, (m', rep'))"
  shows "\<exists>m0 m1. mg_db m0 = mg_db m \<and> b (m0, rep) = (Inr (), (m1, rep')) \<and> mg_db m' = mg_db m1"
  using assms
  by (intro exI [of _ "m\<lparr>mg_gfaults := tl (mg_gfaults m)\<rparr>"] exI [of _ m'])
     (auto simp: mem_seed_tx_def split: list.splits bool.splits prod.splits sum.splits)

interpretation mems: seed_store MemSeed mg_db
proof (intro seed_store.intro seed_store_axioms.intro)
  show "gorm_store (sd_db MemSeed) mg_db"
    unfolding MemSeed_def by (simp add: memg.gorm_store_axioms)
next
  fix b g rep e g' rep'
  assume "sd_Transaction MemSeed b (g, rep) = (Inl e, g', rep')"
  then show "mg_db g' = mg_db g"
    by (auto simp: MemSeed_def mem_seed_tx_def split: list.splits bool.splits prod.splits sum.splits)
qed (unfold MemSeed_def seed_db.select_convs, rule mem_seed_tx_ok)

section \<open>Properties\<close>

text \<open>
  (C6) \<^verbatim>\<open>Apply\<close> reconciles the metadata with the file, all or nothing. If it fails, for whatever reason, the
  metadata is as it was. If it succeeds, the sources and the loads by name are what the abstract upserts of the
  file's entries, in their order, make of the former ones, so a name that is not in the file keeps its row and
  nothing is deleted; every load refers to the source that it names. The points of a load that has points in
  the file are exactly those, in their order, and the points of all other loads are as they were, and so are
  watermarks, runs and log.
\<close>

theorem seed_Apply_reconciles:
  assumes "seed_store D view" and "keys_ok (view g)" and "seed_Apply ord D f g = (r, (g', rep))"
  shows "let d = view g; d' = view g' in
    case r of
      Inl e \<Rightarrow> d' = d
    | Inr _ \<Rightarrow>
        sources_by_name d' = seeded_sources (sf_Sources f) (sources_by_name d) \<and>
        loads_by_name d' = seeded_loads (source_key d') (sf_Loads f) (loads_by_name d) \<and>
        (\<forall>l \<in> set (sf_Loads f). source_named d' (lds_Source l) \<noteq> None \<and>
          (\<exists>row. load_named d' (lds_Name l) = Some row \<and>
            (let ts = filter (\<lambda>t. ts_Load t = lds_Name l) (sf_ModbusTags f); ns = filter (\<lambda>x. ns_Load x = lds_Name l) (sf_OPCUANodes f) in
             tags_of d' (ld_ID row) = (if ts = [] then tags_of d (ld_ID row) else map (\<lambda>t. ModbusTag_defaults (new_tag (ld_ID row) t)) ts) \<and>
             nodes_of d' (ld_ID row) = (if ns = [] then nodes_of d (ld_ID row) else map (\<lambda>x. OPCUANode_defaults (new_node (ld_ID row) x)) ns)))) \<and>
        (\<forall>j. (\<forall>l \<in> set (sf_Loads f). map_option ld_ID (load_named d' (lds_Name l)) \<noteq> Some j) \<longrightarrow>
          tags_of d' j = tags_of d j \<and> nodes_of d' j = nodes_of d j) \<and>
        d_watermarks d' = d_watermarks d \<and> d_runs d' = d_runs d \<and> d_logs d' = d_logs d \<and> keys_ok d'"
proof (cases r)
  case (Inl e)
  then show ?thesis
    using seed_store.Apply_err [OF assms(1)] assms(3) by (simp add: Let_def)
next
  case (Inr u)
  obtain mb oc d1 where gr: "seed_groups ord f = Inr (mb, oc)" and d1: "d1 = d_sources_update (\<lambda>_. d_sources d1) (view g)"
    "sources_by_name d1 = seeded_sources (sf_Sources f) (sources_by_name (view g))"
    and k: "keys_ok (view g')" "same_rest d1 (view g')" "\<forall>spec \<in> set (sf_Loads f). source_named d1 (lds_Source spec) \<noteq> None"
      "loads_by_name (view g') = seeded_loads (source_key d1) (sf_Loads f) (loads_by_name d1)"
    and pts: "\<forall>spec \<in> set (sf_Loads f). \<exists>row. load_named (view g') (lds_Name spec) = Some row \<and>
      points_set mb oc (view g') (lds_Name spec) (ld_ID row)"
    and tg: "\<forall>j. (\<forall>spec \<in> set (sf_Loads f). \<forall>row. load_named (view g') (lds_Name spec) = Some row \<and> ld_ID row = j \<longrightarrow> mb (lds_Name spec) = None) \<longrightarrow>
      tags_of (view g') j = tags_of d1 j"
    and nd: "\<forall>j. (\<forall>spec \<in> set (sf_Loads f). \<forall>row. load_named (view g') (lds_Name spec) = Some row \<and> ld_ID row = j \<longrightarrow> oc (lds_Name spec) = None) \<longrightarrow>
      nodes_of (view g') j = nodes_of d1 j"
    using seed_store.Apply_ok [OF assms(1) assms(3) [unfolded Inr] assms(2)] by (elim exE conjE) (rule that)
  note tg = mp [OF spec [OF tg]] and nd = mp [OF spec [OF nd]]
  obtain rs where rs: "d1 = d_sources_update (\<lambda>_. rs) (view g)"
    using d1(1) by blast
  have e1: "tags_of d1 = tags_of (view g)" "nodes_of d1 = nodes_of (view g)" "loads_by_name d1 = loads_by_name (view g)"
    "d_watermarks d1 = d_watermarks (view g)" "d_runs d1 = d_runs (view g)" "d_logs d1 = d_logs (view g)"
    unfolding rs by (simp_all add: tags_of_def nodes_of_def loads_by_name_def load_named_def fun_eq_iff)
  have e3: "source_named (view g') = source_named d1" "source_key (view g') = source_key d1" "sources_by_name (view g') = sources_by_name d1"
    using k(2) by (simp_all add: same_rest_def source_named_def source_key_def sources_by_name_def fun_eq_iff)
  have loads: "\<exists>row. load_named (view g') (lds_Name l) = Some row \<and>
      (let ts = filter (\<lambda>t. ts_Load t = lds_Name l) (sf_ModbusTags f); ns = filter (\<lambda>x. ns_Load x = lds_Name l) (sf_OPCUANodes f) in
       tags_of (view g') (ld_ID row) = (if ts = [] then tags_of (view g) (ld_ID row) else map (\<lambda>t. ModbusTag_defaults (new_tag (ld_ID row) t)) ts) \<and>
       nodes_of (view g') (ld_ID row) = (if ns = [] then nodes_of (view g) (ld_ID row) else map (\<lambda>x. OPCUANode_defaults (new_node (ld_ID row) x)) ns))"
    if l: "l \<in> set (sf_Loads f)" for l
  proof -
    obtain row where row: "load_named (view g') (lds_Name l) = Some row" "points_set mb oc (view g') (lds_Name l) (ld_ID row)"
      using bspec [OF pts l] by (elim exE conjE)
    have one: "m = lds_Name l" if "load_named (view g') m = Some r2" "ld_ID r2 = ld_ID row" for m r2
      using load_named_inj [OF k(1) that(1) row(1) that(2)] .
    have "tags_of (view g') (ld_ID row) = tags_of d1 (ld_ID row)" if "mb (lds_Name l) = None"
      using one that by (intro tg) auto
    moreover have "nodes_of (view g') (ld_ID row) = nodes_of d1 (ld_ID row)" if "oc (lds_Name l) = None"
      using one that by (intro nd) auto
    ultimately show ?thesis
      using row seed_groups_ok [OF gr, of "lds_Name l"] by (simp add: points_set_def Let_def e1)
  qed
  have rest: "tags_of (view g') j = tags_of d1 j \<and> nodes_of (view g') j = nodes_of d1 j"
    if "\<forall>l \<in> set (sf_Loads f). map_option ld_ID (load_named (view g') (lds_Name l)) \<noteq> Some j" for j
    using that by (intro conjI tg nd) auto
  show ?thesis
    unfolding Let_def Inr sum.case
    using d1(2) k loads [unfolded Let_def] rest unfolding e1 e3 same_rest_def by simp
qed

definition demo_seed :: seed_File where
  "demo_seed = \<lparr>
     sf_Sources = [\<lparr> srs_Name = ''plc'', srs_Kind = ''modbus'', srs_Description = [], srs_IsEnabled = Some False, srs_Params = None \<rparr>],
     sf_Loads = [\<lparr> lds_Name = ''flow'', lds_Source = ''plc'', lds_CronExpr = ''@hourly'', lds_Mode = ''append'', lds_ObjectName = ''flow'',
       lds_WatermarkColumn = [], lds_WatermarkType = [], lds_TargetSchema = [], lds_TargetTable = ''flow'', lds_BatchSize = 0,
       lds_AutoCreateTable = None, lds_IsEnabled = Some False \<rparr>],
     sf_ModbusTags = [\<lparr> ts_Load = ''flow'', ts_TagName = ''f1'', ts_CorrelationID = [], ts_UnitID = 0, ts_RegisterType = ''holding'',
       ts_Address = 4, ts_Quantity = 0, ts_DataType = ''uint16'', ts_ByteOrder = [], ts_WordOrder = [], ts_Scale = None, ts_Offset = None,
       ts_IsEnabled = Some False \<rparr>],
     sf_OPCUANodes = [] \<rparr>"

definition demo_seeded :: "unit res \<times> (memgorm \<times> Report)" where
  "demo_seeded = seed_Apply sorted_list_of_set MemSeed demo_seed demo_meta"

lemma demo_groups: "\<exists>mb. seed_groups sorted_list_of_set demo_seed = Inr (mb, Map.empty) \<and> mb ''flow'' = Some (sf_ModbusTags demo_seed)"
  by (simp add: seed_groups_def demo_seed_def undeclared_def declaredLoads_def)

lemma demo_seeded_ok: "fst demo_seeded = Inr ()"
proof -
  obtain mb where gr: "seed_groups sorted_list_of_set demo_seed = Inr (mb, Map.empty)" "mb ''flow'' = Some (sf_ModbusTags demo_seed)"
    using demo_groups by blast
  show ?thesis
    unfolding demo_seeded_def seed_Apply_def gr(1) sum.case prod.case using gr(2)
    by (simp add: demo_seed_def MemSeed_def mem_seed_tx_def demo_meta_defs bindA_def wrapA_def on_db_def report_def upsertSource_def
        upsertLoad_def seed_load_def source_of_def replaceModbusTags_def mem_gorm_defs live_source_def live_load_def Let_def
        Source_stamp_def Source_defaults_def Load_stamp_def Load_defaults_def new_source_def new_load_def fresh_def)
qed

lemma demo_keys_ok: "keys_ok (mg_db demo_meta)"
  by (simp add: keys_ok_def demo_meta_defs)

lemma demo_seeded_eq: "seed_Apply sorted_list_of_set MemSeed demo_seed demo_meta = (Inr (), (fst (snd demo_seeded), snd (snd demo_seeded)))"
  using demo_seeded_ok unfolding demo_seeded_def by (metis prod.collapse)

theorem seed_Apply_reconciles_witness:
  "let d' = mg_db (fst (snd demo_seeded)) in
   sources_by_name d' ''plc'' = Some (put_source (hd (sf_Sources demo_seed)) None) \<and>
   sources_by_name d' ''erp'' = sources_by_name (mg_db demo_meta) ''erp'' \<and>
   (\<exists>row. load_named d' ''flow'' = Some row \<and> map mt_TagName (tags_of d' (ld_ID row)) = [''f1''])"
proof -
  note T = seed_Apply_reconciles [OF mems.seed_store_axioms demo_keys_ok demo_seeded_eq, unfolded Let_def sum.case]
  have "source_named (mg_db demo_meta) ''plc'' = None"
    by (simp add: source_named_def live_source_def demo_meta_defs)
  then have "seeded_sources (sf_Sources demo_seed) (sources_by_name (mg_db demo_meta)) ''plc'' = Some (put_source (hd (sf_Sources demo_seed)) None)"
    "seeded_sources (sf_Sources demo_seed) (sources_by_name (mg_db demo_meta)) ''erp'' = sources_by_name (mg_db demo_meta) ''erp''"
    by (simp_all add: seeded_sources_def demo_seed_def sources_by_name_def)
  moreover have "map mt_TagName (map (\<lambda>t. ModbusTag_defaults (new_tag i t)) (sf_ModbusTags demo_seed)) = [''f1'']" for i
    by (simp add: demo_seed_def new_tag_def ModbusTag_defaults_def)
  moreover have "filter (\<lambda>t. ts_Load t = ''flow'') (sf_ModbusTags demo_seed) = sf_ModbusTags demo_seed" "sf_ModbusTags demo_seed \<noteq> []"
    "\<exists>l \<in> set (sf_Loads demo_seed). lds_Name l = ''flow''"
    by (simp_all add: demo_seed_def)
  ultimately show ?thesis
    unfolding Let_def using T by metis
qed

lemma seeded_sources_named:
  "seeded_sources specs m n = fold (\<lambda>sp x. Some (put_source sp x)) (filter (\<lambda>sp. srs_Name sp = n) specs) (m n)"
  by (induction specs arbitrary: m) (simp_all add: seeded_sources_def)

text \<open>
  (C38) A seed file cannot create anything disabled. After a successful \<^verbatim>\<open>Apply\<close> a source that the file declares
  once and that was not there before is enabled, also if the file says \<^verbatim>\<open>is_enabled: false\<close>; and of a load with Modbus
  tags in the file all tags are enabled, also those that the file disables, however often it is applied.
\<close>

theorem seed_ignores_disabled:
  assumes "seed_store D view" and "keys_ok (view g)" and "seed_Apply ord D f g = (Inr u, (g', rep))"
    and "filter (\<lambda>s. srs_Name s = srs_Name spec) (sf_Sources f) = [spec]" and "source_named (view g) (srs_Name spec) = None"
    and "l \<in> set (sf_Loads f)" and "t \<in> set (sf_ModbusTags f)" and "ts_Load t = lds_Name l"
  shows "(\<exists>s. source_named (view g') (srs_Name spec) = Some s \<and> ms_IsEnabled s) \<and>
    (\<exists>row. load_named (view g') (lds_Name l) = Some row \<and>
      length (tags_of (view g') (ld_ID row)) = length (filter (\<lambda>t. ts_Load t = lds_Name l) (sf_ModbusTags f)) \<and>
      (\<forall>tag \<in> set (tags_of (view g') (ld_ID row)). mt_IsEnabled tag))"
proof -
  obtain mb oc d1 where gr: "seed_groups ord f = Inr (mb, oc)"
    and src: "sources_by_name d1 = seeded_sources (sf_Sources f) (sources_by_name (view g))" "same_rest d1 (view g')"
    and pts: "\<forall>spec \<in> set (sf_Loads f). \<exists>row. load_named (view g') (lds_Name spec) = Some row \<and>
      points_set mb oc (view g') (lds_Name spec) (ld_ID row)"
    using seed_store.Apply_ok [OF assms(1,3,2)] by (elim exE conjE) (rule that)
  have "sources_by_name (view g') (srs_Name spec) = Some ((new_source spec)\<lparr> ms_IsEnabled := True \<rparr>)"
    using src(2) assms(4,5) fun_cong [OF src(1), of "srs_Name spec"]
    by (simp add: seeded_sources_named sources_by_name_def source_named_def same_rest_def put_source_def)
  then obtain s where s: "source_named (view g') (srs_Name spec) = Some s" "source_cfg s = (new_source spec)\<lparr> ms_IsEnabled := True \<rparr>"
    by (auto simp: sources_by_name_def)
  have "ms_IsEnabled s = ms_IsEnabled (source_cfg s)"
    by (simp add: source_cfg_def)
  then have en: "ms_IsEnabled s" using s(2) by simp
  obtain row where row: "load_named (view g') (lds_Name l) = Some row" "points_set mb oc (view g') (lds_Name l) (ld_ID row)"
    using bspec [OF pts assms(6)] by (elim exE conjE)
  have "filter (\<lambda>t. ts_Load t = lds_Name l) (sf_ModbusTags f) \<noteq> []"
    using assms(7,8) by (auto simp: filter_empty_conv)
  then have "tags_of (view g') (ld_ID row) = map (\<lambda>t. ModbusTag_defaults (new_tag (ld_ID row) t)) (filter (\<lambda>t. ts_Load t = lds_Name l) (sf_ModbusTags f))"
    using row(2) seed_groups_ok(1) [OF gr, of "lds_Name l"] by (simp add: points_set_def)
  then show ?thesis
    using s(1) en row(1) by (auto simp: ModbusTag_defaults_def)
qed

theorem seed_ignores_disabled_witness:
  "srs_IsEnabled (hd (sf_Sources demo_seed)) = Some False \<and> ts_IsEnabled (hd (sf_ModbusTags demo_seed)) = Some False \<and>
   (\<exists>s. source_named (mg_db (fst (snd demo_seeded))) ''plc'' = Some s \<and> ms_IsEnabled s)"
proof -
  let ?sp = "hd (sf_Sources demo_seed)" and ?l = "hd (sf_Loads demo_seed)" and ?t = "hd (sf_ModbusTags demo_seed)"
  have d: "srs_Name ?sp = ''plc''" "filter (\<lambda>s. srs_Name s = srs_Name ?sp) (sf_Sources demo_seed) = [?sp]"
    "?l \<in> set (sf_Loads demo_seed)" "?t \<in> set (sf_ModbusTags demo_seed)" "ts_Load ?t = lds_Name ?l"
    "srs_IsEnabled ?sp = Some False" "ts_IsEnabled ?t = Some False"
    by (simp_all add: demo_seed_def)
  have "source_named (mg_db demo_meta) (srs_Name ?sp) = None"
    by (simp add: d(1) source_named_def live_source_def demo_meta_defs)
  from seed_ignores_disabled [OF mems.seed_store_axioms demo_keys_ok demo_seeded_eq d(2) this d(3-5)]
  show ?thesis using d by simp
qed

end
