(* ===== verification/Coordinator.thy ===== *)
theory Coordinator
  imports PooledRuns Scheduler
begin

text \<open>
  \<^verbatim>\<open>internal/reload\<close> (coordinator.go, fanout.go): the two loops that ask for a reload, on SIGHUP and periodically,
  and the fan-out from the scheduler to the pool. The channels of the loops are a list of events in the
  order in which they are received.
\<close>

section \<open>The coordinator\<close>

record reload_Config =
  rc_Interval :: int
  rc_HandleHUP :: bool

record 'w Coordinator =
  co_reloader :: "('w, unit) act"
  co_interval :: int
  co_handleHUP :: bool

definition reload_New :: "('w, unit) act \<Rightarrow> reload_Config \<Rightarrow> 'w Coordinator" where
  "reload_New reloader cfg = \<lparr> co_reloader = reloader, co_interval = rc_Interval cfg, co_handleHUP = rc_HandleHUP cfg \<rparr>"

text \<open>The error of a reload is only logged; the next event tries again.\<close>

definition doReload :: "'w Coordinator \<Rightarrow> 'w \<Rightarrow> 'w" where
  "doReload c W = snd (co_reloader c W)"

datatype co_event = Sig_hup | Timer_tick | Stop_closed

fun sighupLoop :: "'w Coordinator \<Rightarrow> co_event list \<Rightarrow> 'w \<Rightarrow> 'w" where
  "sighupLoop c [] W = W"
| "sighupLoop c (Stop_closed # es) W = W"
| "sighupLoop c (Sig_hup # es) W = sighupLoop c es (doReload c W)"
| "sighupLoop c (Timer_tick # es) W = sighupLoop c es W"

fun pollLoop :: "'w Coordinator \<Rightarrow> co_event list \<Rightarrow> 'w \<Rightarrow> 'w" where
  "pollLoop c [] W = W"
| "pollLoop c (Stop_closed # es) W = W"
| "pollLoop c (Timer_tick # es) W = pollLoop c es (doReload c W)"
| "pollLoop c (Sig_hup # es) W = pollLoop c es W"

text \<open>
  The loops that \<^verbatim>\<open>Start\<close> starts share the events: each event is received by the loop that waits for it, if
  that loop runs, and a closed channel ends both.
\<close>

fun coordinate :: "'w Coordinator \<Rightarrow> co_event list \<Rightarrow> 'w \<Rightarrow> 'w" where
  "coordinate c [] W = W"
| "coordinate c (Stop_closed # es) W = W"
| "coordinate c (Sig_hup # es) W = coordinate c es (if co_handleHUP c then doReload c W else W)"
| "coordinate c (Timer_tick # es) W = coordinate c es (if co_interval c > 0 then doReload c W else W)"

lemma coordinate_sighup: "\<not> co_interval c > 0 \<Longrightarrow> co_handleHUP c \<Longrightarrow> coordinate c es W = sighupLoop c es W"
  by (induction c es W rule: sighupLoop.induct) simp_all

lemma coordinate_poll: "co_interval c > 0 \<Longrightarrow> \<not> co_handleHUP c \<Longrightarrow> coordinate c es W = pollLoop c es W"
  by (induction c es W rule: pollLoop.induct) simp_all

lemma coordinate_off: "\<not> co_interval c > 0 \<Longrightarrow> \<not> co_handleHUP c \<Longrightarrow> coordinate c es W = W"
  by (induction c es W rule: coordinate.induct) simp_all

section \<open>The fan-out\<close>

definition Fanout_Reload :: "('w, unit) act \<Rightarrow> ('w \<Rightarrow> 'w) option list \<Rightarrow> ('w, unit) act" where
  "Fanout_Reload primary after W =
     (case primary W of (r, W1) \<Rightarrow> (r, fold (\<lambda>fn W. case fn of None \<Rightarrow> W | Some f \<Rightarrow> f W) after W1))"

definition on_pool :: "(('w, 'x) pool \<Rightarrow> ('w, 'x) pool) \<Rightarrow> ('c, 'r, 'k, ('w, 'x) pool) sworld \<Rightarrow> ('c, 'r, 'k, ('w, 'x) pool) sworld" where
  "on_pool f S = S\<lparr> sw_run := (sw_run S)\<lparr> rw_sess := f (rw_sess (sw_run S)) \<rparr> \<rparr>"

text \<open>The target of the reloads in a service with a pool.\<close>

definition service_reload :: "'c cron_lib \<Rightarrow> (int set \<Rightarrow> int list) \<Rightarrow> 'r RunAborter \<Rightarrow>
    (('c, 'r, 'k, ('w, 'x) pool) sworld, unit) act" where
  "service_reload C ord A = Fanout_Reload (Reload C ord A) [Some (on_pool InvalidateAll)]"

lemma Invalidates_live: "live_ids (fold Invalidate is s) = live_ids s - set is"
  by (induction "is" arbitrary: s) (auto simp: Invalidate_closeEntry)

lemma InvalidateAll_empty: "pe_src (entry (InvalidateAll s) i) = None"
proof -
  have "live_ids (InvalidateAll s) = {}"
    using live_ids_in [of s] by (auto simp: InvalidateAll_def Invalidates_live)
  then show ?thesis
    by (auto simp: live_ids_def)
qed

lemma Reload_unchanged:
  "ra_MetadataFingerprint A (rw_repo (sw_run S)) = (Inr (sh_fingerprint (sw_sched S)), r1) \<Longrightarrow>
   Reload C ord A S = (Inr (), S\<lparr> sw_run := (sw_run S)\<lparr> rw_repo := r1 \<rparr> \<rparr>)"
  by (simp add: Reload_def on_repo_def)

text \<open>
  (C40) A tick of the timer closes the pooled connections although nothing has changed. Let the metadata have
  the fingerprint of the last reload and let a source that was given back wait in the pool. The next tick
  leaves the schedule as it is, but every slot of the pool is empty afterwards, so the next run of the source
  builds and opens it anew, however short the interval of the timer is against the idle time of the pool.
\<close>

theorem unchanged_tick_empties_pool:
  assumes "co_reloader c = service_reload C ord A" and "co_interval c > 0"
    and "ra_MetadataFingerprint A (rw_repo (sw_run S)) = (Inr (sh_fingerprint (sw_sched S)), r1)"
  shows "let S' = coordinate c [Timer_tick] S; s' = rw_sess (sw_run S') in
    sw_sched S' = sw_sched S \<and> (\<forall>i. pe_src (entry s' i) = None) \<and>
    (\<forall>cfg. fst (pool_Obtain P cfg s') =
       (case sp_build P cfg (pl_w s') of
          (Inl e, w) \<Rightarrow> Inl e
        | (Inr src, w) \<Rightarrow> (case src_Open src w of
             (Inl e, _) \<Rightarrow> Inl e
           | (Inr _, _) \<Rightarrow> Inr (pooled src, pool_release P (sc_SourceID cfg) (pl_next s')))))"
proof -
  let ?s' = "InvalidateAll (rw_sess (sw_run S))"
  have c: "coordinate c [Timer_tick] S = on_pool InvalidateAll (S\<lparr> sw_run := (sw_run S)\<lparr> rw_repo := r1 \<rparr> \<rparr>)"
    using assms(1,2) Reload_unchanged [OF assms(3), of C ord] by (simp add: doReload_def service_reload_def Fanout_Reload_def)
  have e: "pe_src (entry ?s' i) = None" for i
    by (rule InvalidateAll_empty)
  then have "checked_slot P cfg ?s' = set_entry (sc_SourceID cfg) (entry ?s' (sc_SourceID cfg)) ?s'" for cfg
    by (simp add: checked_slot_def Let_def)
  then show ?thesis
    unfolding c by (simp add: e on_pool_def Let_def pool_Obtain_def lease_def split: prod.split sum.split)
qed

definition demo_service :: "(memcron, unit, unit, (fake_calls, unit) pool) sworld" where
  "demo_service = \<lparr> sw_sched = demo_sched,
     sw_run = \<lparr> rw_repo = (), rw_sink = (), rw_sess = fake_returned, rw_reg = runstate_New 0, rw_met = [] \<rparr> \<rparr>"

definition quiet_aborter :: "unit RunAborter" where
  "quiet_aborter = demo_aborter\<lparr> ra_MetadataFingerprint := retA ''v1'' \<rparr>"

theorem unchanged_tick_empties_pool_witness:
  "let c = reload_New (service_reload mem_cron sorted_list_of_set quiet_aborter) \<lparr> rc_Interval = second_ns, rc_HandleHUP = True \<rparr>;
       S' = coordinate c [Timer_tick] demo_service
   in LiveCount (rw_sess (sw_run demo_service)) = 1 \<and> sw_sched S' = demo_sched \<and> pe_src (entry (rw_sess (sw_run S')) 7) = None"
proof -
  let ?c = "reload_New (service_reload mem_cron sorted_list_of_set quiet_aborter) \<lparr> rc_Interval = second_ns, rc_HandleHUP = True \<rparr>"
  have fp: "ra_MetadataFingerprint quiet_aborter (rw_repo (sw_run demo_service)) = (Inr (sh_fingerprint (sw_sched demo_service)), ())"
    by (simp add: quiet_aborter_def demo_aborter_def retA_def demo_service_def demo_sched_def)
  have l: "LiveCount (rw_sess (sw_run demo_service)) = 1" "sw_sched demo_service = demo_sched"
    by (simp_all add: demo_service_def) code_simp
  show ?thesis
    using unchanged_tick_empties_pool [of ?c, OF _ _ fp] l by (simp add: reload_New_def Let_def second_ns_def)
qed

end
