(* ===== verification/Housekeeping.thy ===== *)
theory Housekeeping
  imports Scheduler
begin

text \<open>
  \<^verbatim>\<open>internal/housekeeping/housekeeper.go\<close>: the periodic retention over the log and the run table. A sweep is a
  function to an option, as the pruning loop is; sweeps started by cron and by \<^verbatim>\<open>RunNow\<close> interleave in a
  step relation.
\<close>

section \<open>The housekeeper\<close>

record hk_Config =
  hc_CronExpression :: string
  hc_LogRetentionDays :: int
  hc_LoadRunRetentionDays :: int
  hc_BatchSize :: int
  hc_BatchPause :: int

text \<open>The housekeeper with the store it works on.\<close>

record 'g Housekeeper =
  hk_cfg :: hk_Config
  hk_running :: bool
  hk_repo :: 'g

definition housekeeping_New :: "'g \<Rightarrow> hk_Config \<Rightarrow> 'g Housekeeper" where
  "housekeeping_New repo cfg =
     \<lparr> hk_cfg = (if hc_BatchSize cfg \<le> 0 then cfg\<lparr> hc_BatchSize := 5000 \<rparr> else cfg), hk_running = False, hk_repo = repo \<rparr>"

text \<open>The housekeeper has a cron table of its own, with one entry, its tick.\<close>

definition hk_Start :: "'c cron_lib \<Rightarrow> 'g Housekeeper \<Rightarrow> ('c, unit) act" where
  "hk_Start C H = bindA (cr_AddFunc C (hc_CronExpression (hk_cfg H)) 0) (\<lambda>_. retA ())"

text \<open>\<^verbatim>\<open>t.UTC().AddDate(0, 0, d)\<close>: days of Coordinated Universal Time all have 24 hours.\<close>

definition AddDays :: "gtime \<Rightarrow> int \<Rightarrow> gtime" where
  "AddDays t d = t + d * day_ns"

definition hk_logs :: "'g gorm_db \<Rightarrow> hk_Config \<Rightarrow> 'g \<Rightarrow> 'g option" where
  "hk_logs G cfg g =
     (if hc_LogRetentionDays cfg > 0 then
        (case g_Now G g of (now, g1) \<Rightarrow>
           map_option snd (PruneLogEntries G (AddDays now (- hc_LogRetentionDays cfg)) (hc_BatchSize cfg) (hc_BatchPause cfg) g1))
      else Some g)"

definition hk_runs :: "'g gorm_db \<Rightarrow> hk_Config \<Rightarrow> 'g \<Rightarrow> 'g option" where
  "hk_runs G cfg g =
     (if hc_LoadRunRetentionDays cfg > 0 then
        (case g_Now G g of (now, g1) \<Rightarrow>
           map_option snd (PruneLoadRuns G (AddDays now (- hc_LoadRunRetentionDays cfg)) (hc_BatchSize cfg) (hc_BatchPause cfg) g1))
      else Some g)"

text \<open>A whole sweep: the clock is read for its duration at both ends.\<close>

definition sweep :: "'g gorm_db \<Rightarrow> hk_Config \<Rightarrow> 'g \<Rightarrow> 'g option" where
  "sweep G cfg g =
     Option.bind (hk_logs G cfg (snd (g_Now G g))) (\<lambda>g1.
     Option.bind (hk_runs G cfg g1) (\<lambda>g2. Some (snd (g_Now G g2))))"

text \<open>The guard at the beginning of \<^verbatim>\<open>execute\<close> and its deferred function.\<close>

definition exec_begin :: "'g Housekeeper \<Rightarrow> 'g Housekeeper option" where
  "exec_begin H = (if hk_running H then None else Some (H\<lparr> hk_running := True \<rparr>))"

definition exec_end :: "'g Housekeeper \<Rightarrow> 'g Housekeeper" where
  "exec_end H = H\<lparr> hk_running := False \<rparr>"

definition execute :: "'g gorm_db \<Rightarrow> 'g Housekeeper \<Rightarrow> 'g Housekeeper option" where
  "execute G H =
     (case exec_begin H of
        None \<Rightarrow> Some H
      | Some H1 \<Rightarrow> map_option (\<lambda>g. exec_end (H1\<lparr> hk_repo := g \<rparr>)) (sweep G (hk_cfg H1) (hk_repo H1)))"

definition tick :: "'g gorm_db \<Rightarrow> 'g Housekeeper \<Rightarrow> 'g Housekeeper option" where
  "tick G H = execute G H"

definition RunNow :: "'g gorm_db \<Rightarrow> 'g Housekeeper \<Rightarrow> 'g Housekeeper option" where
  "RunNow G H = execute G H"

section \<open>Concurrent sweeps\<close>

text \<open>
  Sweeps started by cron and by \<^verbatim>\<open>RunNow\<close>: \<open>n\<close> is the number of those past the guard. A sweep in progress
  changes the store, and so do the other users of the store.
\<close>

inductive hk_step :: "'g Housekeeper \<times> nat \<Rightarrow> 'g Housekeeper \<times> nat \<Rightarrow> bool" where
  Begin_step: "hk_step (H, n) (H', Suc n)" if "exec_begin H = Some H'"
| Refused_step: "hk_step (H, n) (H, n)" if "exec_begin H = None"
| Store_step: "hk_step (H, n) (H\<lparr> hk_repo := g \<rparr>, n)"
| Finish_step: "hk_step (H, Suc n) (exec_end H, n)"

lemma one_sweep:
  assumes "hk_step\<^sup>*\<^sup>* (housekeeping_New repo cfg, 0) (H, n)"
  shows "n = (if hk_running H then 1 else 0)"
  using assms
proof (induction rule: rtranclp_induct2)
  case refl
  then show ?case by (simp add: housekeeping_New_def)
next
  case (step H1 n1 H2 n2)
  from step.hyps(2) step.IH show ?case
    by cases (auto simp: exec_begin_def exec_end_def split: if_splits)
qed

section \<open>What a sweep does\<close>

context gorm_store
begin

lemma now_snd [simp]: "view (snd (g_Now G g)) = view g"
  using now_view by (metis prod.collapse)

lemma hk_logs_ok:
  "\<exists>g1. hk_logs G cfg g = Some g1 \<and>
     (let old = (\<lambda>e. 0 < hc_LogRetentionDays cfg \<and> le_CreatedAt e < AddDays (fst (g_Now G g)) (- hc_LogRetentionDays cfg)) in
      filter (\<lambda>e. \<not> old e) (d_logs (view g1)) = filter (\<lambda>e. \<not> old e) (d_logs (view g)) \<and>
      set (d_logs (view g1)) \<subseteq> set (d_logs (view g)) \<and>
      d_logs_update (\<lambda>_. []) (view g1) = d_logs_update (\<lambda>_. []) (view g))"
proof (cases "0 < hc_LogRetentionDays cfg")
  case True
  let ?cut = "AddDays (fst (g_Now G g)) (- hc_LogRetentionDays cfg)" and ?g = "snd (g_Now G g)"
  obtain t e g1 where p: "PruneLogEntries G ?cut (hc_BatchSize cfg) (hc_BatchPause cfg) ?g = Some ((t, e), g1)"
    "d_logs_update (\<lambda>_. []) (view g1) = d_logs_update (\<lambda>_. []) (view ?g)"
    "filter (\<lambda>e. \<not> le_CreatedAt e < ?cut) (d_logs (view g1)) = filter (\<lambda>e. \<not> le_CreatedAt e < ?cut) (d_logs (view ?g))"
    "set (d_logs (view g1)) \<subseteq> set (d_logs (view ?g))"
    using prune_logs [of "\<lambda>e. le_CreatedAt e < ?cut" "g_CtxErr G" "hc_BatchSize cfg" "hc_BatchPause cfg" ?g]
    unfolding PruneLogEntries_def by blast
  then have "hk_logs G cfg g = Some g1"
    using True by (simp add: hk_logs_def split_beta)
  with p True show ?thesis by (simp add: Let_def)
qed (simp add: hk_logs_def Let_def)

lemma hk_runs_ok:
  "\<exists>g1. hk_runs G cfg g = Some g1 \<and>
     (let old = (\<lambda>r :: LoadRun. 0 < hc_LoadRunRetentionDays cfg \<and> run_StartedAt r < AddDays (fst (g_Now G g)) (- hc_LoadRunRetentionDays cfg) \<and>
                     run_Status r \<in> {''success'', ''failed'', ''aborted''}) in
      filter (\<lambda>r. \<not> old r) (d_runs (view g1)) = filter (\<lambda>r. \<not> old r) (d_runs (view g)) \<and>
      set (d_runs (view g1)) \<subseteq> set (d_runs (view g)) \<and>
      d_runs_update (\<lambda>_. []) (view g1) = d_runs_update (\<lambda>_. []) (view g))"
proof (cases "0 < hc_LoadRunRetentionDays cfg")
  case True
  let ?cut = "AddDays (fst (g_Now G g)) (- hc_LoadRunRetentionDays cfg)" and ?g = "snd (g_Now G g)"
  let ?old = "\<lambda>r :: LoadRun. run_StartedAt r < ?cut \<and> run_Status r \<in> {''success'', ''failed'', ''aborted''}"
  obtain t e g1 where p: "PruneLoadRuns G ?cut (hc_BatchSize cfg) (hc_BatchPause cfg) ?g = Some ((t, e), g1)"
    "d_runs_update (\<lambda>_. []) (view g1) = d_runs_update (\<lambda>_. []) (view ?g)"
    "filter (\<lambda>r. \<not> ?old r) (d_runs (view g1)) = filter (\<lambda>r. \<not> ?old r) (d_runs (view ?g))"
    "set (d_runs (view g1)) \<subseteq> set (d_runs (view ?g))"
    using prune_runs [of ?old "g_CtxErr G" "hc_BatchSize cfg" "hc_BatchPause cfg" ?g]
    unfolding PruneLoadRuns_def by blast
  then have "hk_runs G cfg g = Some g1"
    using True by (simp add: hk_runs_def split_beta)
  with p True show ?thesis unfolding Let_def by simp
qed (simp add: hk_runs_def Let_def)

end

text \<open>
  (C25) A sweep returns and removes only what has expired. On any store that keeps its contract, with calls
  failing as they may, \<^verbatim>\<open>execute\<close> ends and frees the housekeeper. A log entry younger than the retention, and
  a run that is younger, or running, stays; a retention of zero or less removes nothing. No row is added or
  changed, and sources, loads, watermarks and tags are as they were. While a sweep is in progress another
  one does nothing, so of the sweeps started by cron and by hand at most one is in progress.
\<close>

theorem housekeeping_sweep:
  assumes "gorm_store G view" and "hk_step\<^sup>*\<^sup>* (housekeeping_New repo cfg, 0) (H, n)"
  shows "if hk_running H then n = 1 \<and> execute G H = Some H
    else n = 0 \<and> ( \<exists>g1 H'. hk_logs G (hk_cfg H) (snd (g_Now G (hk_repo H))) = Some g1 \<and> execute G H = Some H' \<and>
      \<not> hk_running H' \<and> hk_cfg H' = hk_cfg H \<and>
      (let d = view (hk_repo H); d' = view (hk_repo H');
           logs_from = AddDays (fst (g_Now G (snd (g_Now G (hk_repo H))))) (- hc_LogRetentionDays (hk_cfg H));
           runs_from = AddDays (fst (g_Now G g1)) (- hc_LoadRunRetentionDays (hk_cfg H));
           old_log = (\<lambda>e. 0 < hc_LogRetentionDays (hk_cfg H) \<and> le_CreatedAt e < logs_from);
           old_run = (\<lambda>r :: LoadRun. 0 < hc_LoadRunRetentionDays (hk_cfg H) \<and> run_StartedAt r < runs_from \<and>
                         run_Status r \<in> {''success'', ''failed'', ''aborted''})
       in filter (\<lambda>e. \<not> old_log e) (d_logs d') = filter (\<lambda>e. \<not> old_log e) (d_logs d) \<and>
          set (d_logs d') \<subseteq> set (d_logs d) \<and>
          filter (\<lambda>r. \<not> old_run r) (d_runs d') = filter (\<lambda>r. \<not> old_run r) (d_runs d) \<and>
          set (d_runs d') \<subseteq> set (d_runs d) \<and>
          d'\<lparr> d_logs := [], d_runs := [] \<rparr> = d\<lparr> d_logs := [], d_runs := [] \<rparr>))"
proof -
  let ?g = "snd (g_Now G (hk_repo H))"
  obtain g1 where g1: "hk_logs G (hk_cfg H) ?g = Some g1"
    and l: "let old = (\<lambda>e. 0 < hc_LogRetentionDays (hk_cfg H) \<and>
        le_CreatedAt e < AddDays (fst (g_Now G ?g)) (- hc_LogRetentionDays (hk_cfg H))) in
      filter (\<lambda>e. \<not> old e) (d_logs (view g1)) = filter (\<lambda>e. \<not> old e) (d_logs (view ?g)) \<and>
      set (d_logs (view g1)) \<subseteq> set (d_logs (view ?g)) \<and>
      d_logs_update (\<lambda>_. []) (view g1) = d_logs_update (\<lambda>_. []) (view ?g)"
    using gorm_store.hk_logs_ok [OF assms(1), of "hk_cfg H" ?g] by blast
  obtain g2 where g2: "hk_runs G (hk_cfg H) g1 = Some g2"
    and r: "let old = (\<lambda>r :: LoadRun. 0 < hc_LoadRunRetentionDays (hk_cfg H) \<and>
        run_StartedAt r < AddDays (fst (g_Now G g1)) (- hc_LoadRunRetentionDays (hk_cfg H)) \<and>
                     run_Status r \<in> {''success'', ''failed'', ''aborted''}) in
      filter (\<lambda>r. \<not> old r) (d_runs (view g2)) = filter (\<lambda>r. \<not> old r) (d_runs (view g1)) \<and>
      set (d_runs (view g2)) \<subseteq> set (d_runs (view g1)) \<and>
      d_runs_update (\<lambda>_. []) (view g2) = d_runs_update (\<lambda>_. []) (view g1)"
    using gorm_store.hk_runs_ok [OF assms(1), of "hk_cfg H" g1] by blast
  have v: "view ?g = view (hk_repo H)" "view (snd (g_Now G g2)) = view g2"
    by (rule gorm_store.now_snd [OF assms(1)])+
  have e: "execute G H = Some (H\<lparr> hk_repo := snd (g_Now G g2), hk_running := False \<rparr>)" if "\<not> hk_running H"
    using g1 g2 that by (simp add: execute_def exec_begin_def exec_end_def sweep_def)
  have dl: "d_runs (view g1) = d_runs (view (hk_repo H))"
    "(view g1)\<lparr> d_logs := [], d_runs := [] \<rparr> = (view (hk_repo H))\<lparr> d_logs := [], d_runs := [] \<rparr>"
    using l v(1) unfolding Let_def by (metis meta_db.ext_inject meta_db.surjective meta_db.update_convs(4,5))+
  have dr: "d_logs (view g2) = d_logs (view g1)"
    "(view g2)\<lparr> d_logs := [], d_runs := [] \<rparr> = (view g1)\<lparr> d_logs := [], d_runs := [] \<rparr>"
    using r unfolding Let_def by (metis meta_db.ext_inject meta_db.surjective meta_db.update_convs(4,5))+
  show ?thesis
  proof (cases "hk_running H")
    case False
    then show ?thesis
      unfolding if_not_P [OF False] Let_def using g1 e [OF False] l r dl dr v one_sweep [OF assms(2)] False
      by (intro conjI exI [of _ g1] exI [of _ "H\<lparr> hk_repo := snd (g_Now G g2), hk_running := False \<rparr>"]) (simp_all add: Let_def)
  qed (use one_sweep [OF assms(2)] in \<open>simp add: execute_def exec_begin_def\<close>)
qed

definition demo_cfg :: hk_Config where
  "demo_cfg = \<lparr> hc_CronExpression = ''@daily'', hc_LogRetentionDays = 0, hc_LoadRunRetentionDays = 1, hc_BatchSize = 0,
     hc_BatchPause = 0 \<rparr>"

theorem housekeeping_sweep_witness:
  "\<exists>H'. execute MemGorm (housekeeping_New demo_meta demo_cfg) = Some H' \<and> \<not> hk_running H' \<and>
     d_loads (mg_db (hk_repo H')) = d_loads (mg_db demo_meta)"
proof -
  have r: "\<not> hk_running (housekeeping_New demo_meta demo_cfg)" "hk_repo (housekeeping_New demo_meta demo_cfg) = demo_meta"
    by (simp_all add: housekeeping_New_def)
  have "d_loads d = d_loads (d\<lparr> d_logs := [], d_runs := [] \<rparr>)" for d :: meta_db
    by simp
  then show ?thesis
    using housekeeping_sweep [OF memg.gorm_store_axioms rtranclp.rtrancl_refl, of demo_meta demo_cfg]
    unfolding if_not_P [OF r(1)] Let_def r(2) by metis
qed

end
