(* ===== verification/Health.thy ===== *)
theory Health
  imports Runstate Pool
begin

text \<open>
  \<^verbatim>\<open>internal/health/server.go\<close>: the handlers of the health server. A handler returns the status code and the body
  before it is encoded as JSON; the probes of \<^verbatim>\<open>/readyz\<close> are calls on the state \<open>'w\<close> of what they probe.
\<close>

section \<open>The server\<close>

record 'w ReadyCheck =
  rk_Name :: string
  rk_Check :: "('w, unit) act option"

text \<open>\<open>hs_metaDB\<close> has the call of \<^verbatim>\<open>DB()\<close> and the ping of the handle it returns.\<close>

record 'w health_Server =
  hs_state :: Registry
  hs_metaDB :: "(('w, unit) act \<times> ('w, unit) act) option"
  hs_sinkDB :: "('w, unit) act option"
  hs_version :: string
  hs_extras :: "'w ReadyCheck list"

definition health_New :: "Registry \<Rightarrow> (('w, unit) act \<times> ('w, unit) act) option \<Rightarrow> ('w, unit) act option \<Rightarrow> string \<Rightarrow>
    'w ReadyCheck list \<Rightarrow> 'w health_Server" where
  "health_New state metaDB sinkDB version extras =
     \<lparr> hs_state = state, hs_metaDB = metaDB, hs_sinkDB = sinkDB, hs_version = (if version = [] then ''dev'' else version),
       hs_extras = extras \<rparr>"

definition StatusOK :: int where "StatusOK = 200"
definition StatusServiceUnavailable :: int where "StatusServiceUnavailable = 503"

text \<open>\<^verbatim>\<open>int64(d.Seconds())\<close> of a duration that is not negative.\<close>

definition whole_seconds :: "int \<Rightarrow> int" where
  "whole_seconds d = d div second_ns"

definition handleHealthz :: "'w health_Server \<Rightarrow> gtime \<Rightarrow> int \<times> string \<times> int" where
  "handleHealthz s now = (StatusOK, ''ok'', whole_seconds (time_Sub now (rg_startedAt (hs_state s))))"

section \<open>Readiness\<close>

text \<open>The variables of the handler: the status code and the map of results.\<close>

type_synonym ready = "int \<times> strmap"

definition set_result :: "string \<Rightarrow> string \<Rightarrow> ready \<Rightarrow> ready" where
  "set_result k v = (\<lambda>(code, m). (code, AList.update k v m))"

definition degrade :: "string \<Rightarrow> gerr \<Rightarrow> ready \<Rightarrow> ready" where
  "degrade k e = (\<lambda>(code, m). (StatusServiceUnavailable, AList.update ''status'' ''degraded'' (AList.update k (Error e) m)))"

definition probe :: "string \<Rightarrow> ('w, unit) act \<Rightarrow> ready \<times> 'w \<Rightarrow> ready \<times> 'w" where
  "probe k m = (\<lambda>(r, w). case m w of (Inl e, w') \<Rightarrow> (degrade k e r, w') | (Inr _, w') \<Rightarrow> (r, w'))"

definition probe_meta :: "(('w, unit) act \<times> ('w, unit) act) option \<Rightarrow> ready \<times> 'w \<Rightarrow> ready \<times> 'w" where
  "probe_meta h = (case h of None \<Rightarrow> (\<lambda>x. x) | Some (db, ping) \<Rightarrow> probe ''metadata'' (bindA db (\<lambda>_. ping)))"

definition probe_sink :: "('w, unit) act option \<Rightarrow> ready \<times> 'w \<Rightarrow> ready \<times> 'w" where
  "probe_sink h = (case h of None \<Rightarrow> (\<lambda>x. x) | Some ping \<Rightarrow> probe ''sink'' ping)"

definition extra_name :: "'w ReadyCheck \<Rightarrow> string" where
  "extra_name x = (if rk_Name x = [] then ''extra'' else rk_Name x)"

definition probe_extra :: "'w ReadyCheck \<Rightarrow> ready \<times> 'w \<Rightarrow> ready \<times> 'w" where
  "probe_extra x = (\<lambda>(r, w).
     case rk_Check x of
       None \<Rightarrow> (set_result (extra_name x) ''ok'' r, w)
     | Some m \<Rightarrow>
         (case m w of
            (Inl e, w') \<Rightarrow> (degrade (extra_name x) e r, w')
          | (Inr _, w') \<Rightarrow> (set_result (extra_name x) ''ok'' r, w')))"

definition handleReadyz :: "'w health_Server \<Rightarrow> 'w \<Rightarrow> ready \<times> 'w" where
  "handleReadyz s w =
     fold probe_extra (hs_extras s) (probe_sink (hs_sinkDB s) (probe_meta (hs_metaDB s)
       ((StatusOK, [(''status'', ''ok''), (''metadata'', ''ok''), (''sink'', ''ok'')]), w)))"

text \<open>The extra probe of a service with a pool.\<close>

definition pool_check :: "(('v, 'x) pool, unit) act \<Rightarrow> ('v, 'x) pool ReadyCheck" where
  "pool_check ping_all = \<lparr> rk_Name = ''source_pool'', rk_Check = Some ping_all \<rparr>"

section \<open>Status\<close>

record health_Summary =
  hy_total :: nat
  hy_running :: nat
  hy_succeeded :: nat
  hy_failed :: nat

definition count_load :: "health_Summary \<Rightarrow> LoadState \<Rightarrow> health_Summary" where
  "count_load y l =
     (let y1 = (if ls_CurrentlyRunning l then y\<lparr> hy_running := hy_running y + 1 \<rparr> else y)
      in if ls_LastStatus l = ''success'' then y1\<lparr> hy_succeeded := hy_succeeded y1 + 1 \<rparr>
         else if ls_LastStatus l = ''failed'' then y1\<lparr> hy_failed := hy_failed y1 + 1 \<rparr>
         else y1)"

record health_Status =
  ht_version :: string
  ht_started_at :: gtime
  ht_uptime_seconds :: int
  ht_summary :: health_Summary
  ht_loads :: "LoadState list"

definition handleStatus :: "'w health_Server \<Rightarrow> gtime \<Rightarrow> int \<times> health_Status" where
  "handleStatus s now =
     (let loads = Snapshot (hs_state s);
          y = foldl count_load \<lparr> hy_total = 0, hy_running = 0, hy_succeeded = 0, hy_failed = 0 \<rparr> loads
      in (StatusOK, \<lparr> ht_version = hs_version s, ht_started_at = rg_startedAt (hs_state s),
            ht_uptime_seconds = whole_seconds (time_Sub now (rg_startedAt (hs_state s))),
            ht_summary = y\<lparr> hy_total := length loads \<rparr>, ht_loads = loads \<rparr>))"

section \<open>What is reported\<close>

text \<open>The probes of the server by name, and their outcomes when they are made one after the other.\<close>

definition probes_of :: "'w health_Server \<Rightarrow> (string \<times> ('w, unit) act) list" where
  "probes_of s =
     (case hs_metaDB s of None \<Rightarrow> [] | Some (db, ping) \<Rightarrow> [(''metadata'', bindA db (\<lambda>_. ping))]) @
     (case hs_sinkDB s of None \<Rightarrow> [] | Some ping \<Rightarrow> [(''sink'', ping)]) @
     map (\<lambda>x. (extra_name x, case rk_Check x of None \<Rightarrow> retA () | Some m \<Rightarrow> m)) (hs_extras s)"

fun outcomes :: "(string \<times> ('w, unit) act) list \<Rightarrow> 'w \<Rightarrow> (string \<times> unit res) list \<times> 'w" where
  "outcomes [] w = ([], w)"
| "outcomes ((k, m) # ps) w =
     (case m w of (r, w1) \<Rightarrow> case outcomes ps w1 of (rs, w2) \<Rightarrow> ((k, r) # rs, w2))"

lemma outcomes_append:
  "outcomes (ps @ qs) w = (case outcomes ps w of (rs, w1) \<Rightarrow> case outcomes qs w1 of (ts, w2) \<Rightarrow> (rs @ ts, w2))"
  by (induction ps arbitrary: w) (auto split: prod.splits)

lemma outcomes_names: "map fst (fst (outcomes ps w)) = map fst ps"
  by (induction ps arbitrary: w) (auto simp: split_beta)

text \<open>The result of the handler agrees with the outcomes so far.\<close>

definition reported :: "(string \<times> unit res) list \<Rightarrow> ready \<Rightarrow> bool" where
  "reported rs = (\<lambda>(code, m).
     code = (if \<forall>(k, r) \<in> set rs. r = Inr () then StatusOK else StatusServiceUnavailable) \<and>
     map_of m ''status'' = Some (if \<forall>(k, r) \<in> set rs. r = Inr () then ''ok'' else ''degraded'') \<and>
     (\<forall>(k, r) \<in> set rs. map_of m k = Some (case r of Inr _ \<Rightarrow> ''ok'' | Inl e \<Rightarrow> Error e)))"

lemma reported_degrade:
  assumes "reported rs r" and "k \<notin> fst ` set rs" and "k \<noteq> ''status''" and "''status'' \<notin> fst ` set rs"
  shows "reported (rs @ [(k, Inl e)]) (degrade k e r)"
proof -
  obtain code m where r: "r = (code, m)" by fastforce
  have "map_of (AList.update ''status'' ''degraded'' (AList.update k (Error e) m)) k' = map_of m k'" if "(k', y) \<in> set rs" for k' y
  proof -
    have "k' \<noteq> k" "k' \<noteq> ''status''"
      using that assms(2,4) by (metis fst_conv image_eqI)+
    then show ?thesis by (simp add: update_conv')
  qed
  then show ?thesis
    using assms(1,3) unfolding reported_def degrade_def r prod.case by (auto simp: update_conv')
qed

lemma reported_ok:
  assumes "reported rs r" and "k \<notin> fst ` set rs" and "k \<noteq> ''status''"
  shows "reported (rs @ [(k, Inr ())]) (set_result k ''ok'' r)"
proof -
  obtain code m where r: "r = (code, m)" by fastforce
  have "map_of (AList.update k ''ok'' m) k' = map_of m k'" if "(k', y) \<in> set rs" for k' y
  proof -
    have "k' \<noteq> k"
      using that assms(2) by (metis fst_conv image_eqI)
    then show ?thesis by (simp add: update_conv')
  qed
  moreover have "map_of (AList.update k ''ok'' m) ''status'' = map_of m ''status''"
    using assms(3) by (metis fun_upd_other update_conv')
  ultimately show ?thesis
    using assms(1) unfolding reported_def set_result_def r prod.case by (auto simp: update_conv')
qed

lemma reported_probe:
  assumes "reported rs r" and "k \<notin> fst ` set rs" and "k \<noteq> ''status''" and "''status'' \<notin> fst ` set rs"
    and "map_of (snd r) k = Some ''ok''" and "m w = (y, w1)"
  shows "\<exists>r1. probe k m (r, w) = (r1, w1) \<and> reported (rs @ [(k, y)]) r1 \<and>
    (\<forall>k'. k' \<noteq> k \<and> k' \<noteq> ''status'' \<longrightarrow> map_of (snd r1) k' = map_of (snd r) k')"
proof (cases y)
  case (Inl e)
  then have "probe k m (r, w) = (degrade k e r, w1)"
    using assms(6) by (simp add: probe_def)
  moreover have "map_of (snd (degrade k e r)) k' = map_of (snd r) k'" if "k' \<noteq> k" "k' \<noteq> ''status''" for k'
    using that by (simp add: degrade_def update_conv' split_beta)
  ultimately show ?thesis
    using reported_degrade [OF assms(1-4), of e] Inl by blast
next
  case (Inr u)
  then have "probe k m (r, w) = (r, w1)"
    using assms(6) by (simp add: probe_def)
  moreover have "reported (rs @ [(k, Inr ())]) r"
    using assms(1,5) unfolding reported_def by (auto simp: split_beta)
  ultimately show ?thesis
    using Inr by auto
qed

lemma reported_meta:
  assumes "outcomes (case mo of None \<Rightarrow> [] | Some (db, ping) \<Rightarrow> [(''metadata'', bindA db (\<lambda>_. ping))]) w = (rs, w1)"
  shows "\<exists>r1. probe_meta mo ((StatusOK, [(''status'', ''ok''), (''metadata'', ''ok''), (''sink'', ''ok'')]), w) = (r1, w1) \<and>
    reported rs r1 \<and> map_of (snd r1) ''sink'' = Some ''ok'' \<and> set (map fst rs) \<subseteq> {''metadata''}"
proof (cases mo)
  case None
  then show ?thesis
    using assms by (simp add: probe_meta_def reported_def)
next
  case (Some p)
  obtain db ping where p: "p = (db, ping)" by fastforce
  let ?r = "(StatusOK, [(''status'', ''ok''), (''metadata'', ''ok''), (''sink'', ''ok'')])"
  obtain y w' where m: "bindA db (\<lambda>_. ping) w = (y, w')" by fastforce
  have rs: "rs = [(''metadata'', y)]" "w1 = w'"
    using assms Some p m by simp_all
  have "reported [] ?r"
    by (simp add: reported_def)
  from reported_probe [of "[]" ?r "''metadata''" "bindA db (\<lambda>_. ping)" w y w', OF this _ _ _ _ m] show ?thesis
    using Some p rs by (auto simp: probe_meta_def)
qed

lemma reported_sink:
  assumes "reported rs r" and "map_of (snd r) ''sink'' = Some ''ok''" and "set (map fst rs) \<subseteq> {''metadata''}"
    and "outcomes (case so of None \<Rightarrow> [] | Some ping \<Rightarrow> [(''sink'', ping)]) w = (ts, w1)"
  shows "\<exists>r1. probe_sink so (r, w) = (r1, w1) \<and> reported (rs @ ts) r1"
proof (cases so)
  case None
  then show ?thesis
    using assms by (simp add: probe_sink_def)
next
  case (Some ping)
  obtain y w' where m: "ping w = (y, w')" by fastforce
  have n: "''sink'' \<notin> fst ` set rs" "''status'' \<notin> fst ` set rs"
    using assms(3) by auto
  have ts: "ts = [(''sink'', y)]" "w1 = w'"
    using assms(4) Some m by simp_all
  from reported_probe [of rs r "''sink''" ping w y w', OF assms(1) n(1) _ n(2) assms(2) m] show ?thesis
    using Some ts by (auto simp: probe_sink_def)
qed

lemma reported_extras:
  assumes "reported rs r" and "distinct (map fst rs @ map extra_name xs)" and "''status'' \<notin> set (map fst rs @ map extra_name xs)"
  shows "case outcomes (map (\<lambda>x. (extra_name x, case rk_Check x of None \<Rightarrow> retA () | Some m \<Rightarrow> m)) xs) w of (ts, w') \<Rightarrow>
     \<exists>r'. fold probe_extra xs (r, w) = (r', w') \<and> reported (rs @ ts) r'"
  using assms
proof (induction xs arbitrary: rs r w)
  case (Cons x xs)
  let ?k = "extra_name x" and ?m = "case rk_Check x of None \<Rightarrow> retA () | Some m \<Rightarrow> m"
  obtain y w1 where m: "?m w = (y, w1)" by fastforce
  have n: "?k \<notin> fst ` set rs" "?k \<noteq> ''status''" "''status'' \<notin> fst ` set rs"
    using Cons.prems(2,3) by auto
  obtain r1 where p: "probe_extra x (r, w) = (r1, w1)" and ok: "reported (rs @ [(?k, y)]) r1"
  proof (cases y)
    case (Inl e)
    then have "probe_extra x (r, w) = (degrade ?k e r, w1)"
      using m by (simp add: probe_extra_def retA_def split: option.splits)
    then show thesis
      using that reported_degrade [OF Cons.prems(1) n] Inl by blast
  next
    case (Inr u)
    then have "probe_extra x (r, w) = (set_result ?k ''ok'' r, w1)"
      using m by (auto simp: probe_extra_def retA_def split: option.splits)
    then show thesis
      using that reported_ok [OF Cons.prems(1) n(1,2)] Inr by simp
  qed
  have "distinct (map fst (rs @ [(?k, y)]) @ map extra_name xs)" "''status'' \<notin> set (map fst (rs @ [(?k, y)]) @ map extra_name xs)"
    using Cons.prems(2,3) by auto
  from Cons.IH [OF ok this, of w1] show ?case
    using p m by (auto split: prod.splits)
qed simp

text \<open>
  (C27) \<^verbatim>\<open>/readyz\<close> tells the truth. If the names of the probes differ, and none is \<^verbatim>\<open>status\<close>, the handler makes
  every probe, also after one has failed; it answers 200 and \<^verbatim>\<open>ok\<close> exactly when all of them pass, else 503 and
  \<^verbatim>\<open>degraded\<close>; and the body has \<^verbatim>\<open>ok\<close> or the error text under the name of each probe.
\<close>

theorem readyz_reports:
  assumes "distinct (map fst (probes_of s))" and "''status'' \<notin> set (map fst (probes_of s))"
  shows "case outcomes (probes_of s) w of (rs, w') \<Rightarrow> \<exists>m. map fst rs = map fst (probes_of s) \<and>
    handleReadyz s w = ((if \<forall>(k, r) \<in> set rs. r = Inr () then StatusOK else StatusServiceUnavailable, m), w') \<and>
    map_of m ''status'' = Some (if \<forall>(k, r) \<in> set rs. r = Inr () then ''ok'' else ''degraded'') \<and>
    (\<forall>(k, r) \<in> set rs. map_of m k = Some (case r of Inr _ \<Rightarrow> ''ok'' | Inl e \<Rightarrow> Error e))"
proof -
  let ?meta = "case hs_metaDB s of None \<Rightarrow> [] | Some (db, ping) \<Rightarrow> [(''metadata'', bindA db (\<lambda>_. ping))]"
  let ?sink = "case hs_sinkDB s of None \<Rightarrow> [] | Some ping \<Rightarrow> [(''sink'', ping)]"
  let ?ext = "map (\<lambda>x. (extra_name x, case rk_Check x of None \<Rightarrow> retA () | Some m \<Rightarrow> m)) (hs_extras s)"
  let ?r0 = "(StatusOK, [(''status'', ''ok''), (''metadata'', ''ok''), (''sink'', ''ok'')])"
  have pr: "probes_of s = (?meta @ ?sink) @ ?ext"
    by (simp add: probes_of_def)
  obtain rs1 w0 where o1: "outcomes ?meta w = (rs1, w0)" by fastforce
  obtain rs2 w1 where o2: "outcomes ?sink w0 = (rs2, w1)" by fastforce
  define rs where "rs = rs1 @ rs2"
  have o: "outcomes (?meta @ ?sink) w = (rs, w1)"
    using o1 o2 by (simp only: outcomes_append rs_def prod.case)
  obtain r0 where r0: "probe_meta (hs_metaDB s) (?r0, w) = (r0, w0)" "reported rs1 r0"
    "map_of (snd r0) ''sink'' = Some ''ok''" "set (map fst rs1) \<subseteq> {''metadata''}"
    using reported_meta [OF o1] by blast
  obtain r1 where r1: "probe_sink (hs_sinkDB s) (probe_meta (hs_metaDB s) (?r0, w)) = (r1, w1)" "reported rs r1"
    using reported_sink [OF r0(2-4) o2] unfolding r0(1) rs_def by blast
  have names: "map fst rs = map fst (?meta @ ?sink)"
    using outcomes_names [of "?meta @ ?sink" w] o by simp
  have ext: "map fst ?ext = map extra_name (hs_extras s)"
    by simp
  have d: "distinct (map fst rs @ map extra_name (hs_extras s))" "''status'' \<notin> set (map fst rs @ map extra_name (hs_extras s))"
    using assms unfolding pr names map_append [of fst "?meta @ ?sink"] ext by blast+
  obtain ts w2 where t: "outcomes ?ext w1 = (ts, w2)" by fastforce
  obtain code m where h: "handleReadyz s w = ((code, m), w2)" "reported (rs @ ts) (code, m)"
    using reported_extras [OF r1(2) d, of w1] t r1(1) by (auto simp: handleReadyz_def)
  have all: "outcomes (probes_of s) w = (rs @ ts, w2)"
    unfolding pr outcomes_append [of "?meta @ ?sink"] using o t by simp
  have "map fst (rs @ ts) = map fst (probes_of s)"
    using outcomes_names [of "probes_of s" w] all by simp
  then show ?thesis
    unfolding all using h by (auto simp: reported_def)
qed

definition demo_health :: "(fake_calls, unit) pool health_Server" where
  "demo_health = health_New (runstate_New 0) (Some (retA (), retA ())) (Some (failA (ErrExt ''down''))) []
     [pool_check pool_PingAll]"

theorem readyz_reports_witness:
  "\<exists>m w'. handleReadyz demo_health fake_returned = ((StatusServiceUnavailable, m), w') \<and>
     map_of m ''status'' = Some ''degraded'' \<and> map_of m ''sink'' = Some ''down''"
proof -
  have p: "probes_of demo_health = [(''metadata'', bindA (retA ()) (\<lambda>_. retA ())), (''sink'', failA (ErrExt ''down'')), (''source_pool'', pool_PingAll)]"
    by (simp add: demo_health_def health_New_def probes_of_def pool_check_def extra_name_def)
  obtain y w' where q: "pool_PingAll fake_returned = (y, w')" by fastforce
  have o: "outcomes (probes_of demo_health) fake_returned =
      ([(''metadata'', Inr ()), (''sink'', Inl (ErrExt ''down'')), (''source_pool'', y)], w')"
    using q by (simp add: p bindA_def retA_def failA_def)
  show ?thesis
    using readyz_reports [of demo_health fake_returned] unfolding o by (auto simp: p Error_def)
qed

text \<open>The counters of \<^verbatim>\<open>/status\<close> are the numbers of loads in each state.\<close>

lemma count_loads:
  "foldl count_load y ls = \<lparr> hy_total = hy_total y, hy_running = hy_running y + length (filter ls_CurrentlyRunning ls),
     hy_succeeded = hy_succeeded y + length (filter (\<lambda>l. ls_LastStatus l = ''success'') ls),
     hy_failed = hy_failed y + length (filter (\<lambda>l. ls_LastStatus l = ''failed'') ls) \<rparr>"
  by (induction ls arbitrary: y) (auto simp: count_load_def Let_def)

end
