(* ===== verification/DbLog.thy ===== *)
theory DbLog
  imports Json Repository "HOL-Library.AList"
begin

text \<open>
  \<^verbatim>\<open>internal/logging\<close> (logger.go, dbhandler.go): the handler that mirrors log records into the metadata database.
  A record becomes a log entry, the entry goes through a bounded channel, and one worker writes the entries.
  The goroutines that log, close and write interleave in a step relation.
\<close>

section \<open>Records and values\<close>

text \<open>
  The attribute values after \<^verbatim>\<open>Resolve\<close>. A float comes with its text, any other value with its text and
  its JSON encoding, if it has one.
\<close>

datatype slog_value = SInt64 int | SUint64 "64 word" | SFloat64 f64 string | SString string | SBool bool | SAny string "string option"

type_synonym slog_attr = "string \<times> slog_value"

record slog_Record =
  sr_Time :: gtime
  sr_Level :: int
  sr_Message :: string
  sr_Attrs :: "slog_attr list"

definition LevelDebug :: int where "LevelDebug = -4"
definition LevelInfo :: int where "LevelInfo = 0"
definition LevelWarn :: int where "LevelWarn = 4"
definition LevelError :: int where "LevelError = 8"

fun value_String :: "slog_value \<Rightarrow> string" where
  "value_String (SInt64 i) = itoa i"
| "value_String (SUint64 w) = itoa (uint w)"
| "value_String (SFloat64 f s) = s"
| "value_String (SString s) = s"
| "value_String (SBool b) = (if b then ''true'' else ''false'')"
| "value_String (SAny s j) = s"

fun value_json :: "slog_value \<Rightarrow> string option" where
  "value_json (SInt64 i) = Some (itoa i)"
| "value_json (SUint64 w) = Some (itoa (uint w))"
| "value_json (SFloat64 f s) = (if IsNaN f \<or> IsInf f then None else Some s)"
| "value_json (SString s) = Some (json_quote s)"
| "value_json (SBool b) = Some (if b then ''true'' else ''false'')"
| "value_json (SAny s j) = j"

text \<open>The conversion to \<^verbatim>\<open>int64\<close> truncates; out of range it gives the smallest number, as on amd64.\<close>

fun int64_of_f64 :: "f64 \<Rightarrow> int" where
  "int64_of_f64 (Fin s m e) =
     (let n = (if 0 \<le> e then int m * 2 ^ nat e else int m div 2 ^ nat (- e)); v = (if s then - n else n)
      in if - (2 ^ 63) \<le> v \<and> v < 2 ^ 63 then v else - (2 ^ 63))"
| "int64_of_f64 _ = - (2 ^ 63)"

fun int64FromAttr :: "slog_value \<Rightarrow> int" where
  "int64FromAttr (SInt64 i) = i"
| "int64FromAttr (SUint64 w) = sint w"
| "int64FromAttr (SFloat64 f s) = int64_of_f64 f"
| "int64FromAttr _ = 0"

definition levelString :: "int \<Rightarrow> string" where
  "levelString l =
     (if l \<le> LevelDebug then ''debug'' else if l \<le> LevelInfo then ''info'' else if l \<le> LevelWarn then ''warn'' else ''error'')"

text \<open>The root logger: its level, and whether it writes text or JSON.\<close>

definition logging_New :: "string \<Rightarrow> string \<Rightarrow> int \<times> bool" where
  "logging_New level format =
     ((let l = ToLower level in
       if l = ''debug'' then LevelDebug else if l = ''warn'' then LevelWarn else if l = ''error'' then LevelError else LevelInfo),
      ToLower format = ''text'')"

section \<open>The handler\<close>

record ('b, 'h) slog_base =
  sl_Enabled :: "'h \<Rightarrow> int \<Rightarrow> bool"
  sl_Handle :: "'h \<Rightarrow> slog_Record \<Rightarrow> ('b, unit) act"
  sl_WithAttrs :: "'h \<Rightarrow> slog_attr list \<Rightarrow> 'h"
  sl_WithGroup :: "'h \<Rightarrow> string \<Rightarrow> 'h"

record 'h DBHandler =
  dh_base :: 'h
  dh_attrs :: "slog_attr list"
  dh_groups :: "string list"

text \<open>
  \<^verbatim>\<open>sharedState\<close>: \<open>lg_w\<close> is the state of the writer, \<open>lg_ch\<close> the buffer of the channel and \<open>lg_cap\<close> its capacity.
\<close>

record 'g log_state =
  lg_w :: 'g
  lg_ch :: "LogEntry list"
  lg_cap :: nat
  lg_closed :: bool
  lg_chclosed :: bool
  lg_done :: bool
  lg_dropped :: "64 word"

definition NewDBHandler :: "'h \<Rightarrow> 'g \<Rightarrow> int \<Rightarrow> 'h DBHandler \<times> 'g log_state" where
  "NewDBHandler base w buffer =
     (\<lparr> dh_base = base, dh_attrs = [], dh_groups = [] \<rparr>,
      \<lparr> lg_w = w, lg_ch = [], lg_cap = nat (if buffer \<le> 0 then 256 else buffer), lg_closed = False, lg_chclosed = False,
        lg_done = False, lg_dropped = 0 \<rparr>)"

definition Dropped :: "'g log_state \<Rightarrow> 64 word" where
  "Dropped st = lg_dropped st"

definition Enabled :: "('b, 'h) slog_base \<Rightarrow> 'h DBHandler \<Rightarrow> int \<Rightarrow> bool" where
  "Enabled L h l = sl_Enabled L (dh_base h) l"

definition zero_LogEntry :: LogEntry where
  "zero_LogEntry = \<lparr> le_ID = 0, le_CreatedAt = zero_time, le_Level = [], le_RunUUID = [], le_LoadID = None,
     le_SourceID = None, le_Category = [], le_Message = [], le_Details = [] \<rparr>"

definition apply_attr :: "slog_attr \<Rightarrow> LogEntry \<times> (string \<times> slog_value) list \<Rightarrow> LogEntry \<times> (string \<times> slog_value) list" where
  "apply_attr = (\<lambda>(k, v) (e, details).
     if k = ''run_uuid'' then (e\<lparr> le_RunUUID := value_String v \<rparr>, details)
     else if k = ''load_id'' then (if int64FromAttr v \<noteq> 0 then (e\<lparr> le_LoadID := Some (int64FromAttr v) \<rparr>, details) else (e, details))
     else if k = ''source_id'' then (if int64FromAttr v \<noteq> 0 then (e\<lparr> le_SourceID := Some (int64FromAttr v) \<rparr>, details) else (e, details))
     else if k = ''category'' then (e\<lparr> le_Category := value_String v \<rparr>, details)
     else (e, AList.update k v details))"

definition prefixed :: "string list \<Rightarrow> slog_attr \<Rightarrow> slog_attr" where
  "prefixed groups = (\<lambda>(k, v). let prefix = Join groups ''.'' in (if prefix \<noteq> [] then prefix @ ''.'' @ k else k, v))"

text \<open>\<^verbatim>\<open>json.Marshal\<close> of the details: sorted keys; a value without encoding is an error.\<close>

definition marshal_details :: "(string \<times> slog_value) list \<Rightarrow> string option" where
  "marshal_details d =
     (if \<exists>(k, v) \<in> set d. value_json v = None then None
      else Some (''{'' @ Join (map (\<lambda>(k, v). json_quote k @ '':'' @ the (value_json v)) (sort_key fst d)) '','' @ ''}''))"

definition entry_of :: "'h DBHandler \<Rightarrow> slog_Record \<Rightarrow> LogEntry" where
  "entry_of h r =
     (let e0 = zero_LogEntry\<lparr> le_CreatedAt := sr_Time r, le_Level := levelString (sr_Level r), le_Message := sr_Message r \<rparr>
      in case fold apply_attr (dh_attrs h @ map (prefixed (dh_groups h)) (sr_Attrs r)) (e0, []) of
           (e, details) \<Rightarrow>
             (if details \<noteq> [] then (case marshal_details details of Some b \<Rightarrow> e\<lparr> le_Details := b \<rparr> | None \<Rightarrow> e) else e))"

text \<open>The \<^verbatim>\<open>select\<close> with the send: a full buffer drops the entry, a closed channel panics.\<close>

definition closed_send :: gerr where
  "closed_send = ErrExt ''panic: send on closed channel''"

definition enqueue :: "LogEntry \<Rightarrow> ('g log_state, unit) act" where
  "enqueue e st =
     (if lg_chclosed st then (Inl closed_send, st)
      else if length (lg_ch st) < lg_cap st then (Inr (), st\<lparr> lg_ch := lg_ch st @ [e] \<rparr>)
      else (Inr (), st\<lparr> lg_dropped := lg_dropped st + 1 \<rparr>))"

definition log_Handle :: "('b, 'h) slog_base \<Rightarrow> 'h DBHandler \<Rightarrow> slog_Record \<Rightarrow> ('b \<times> 'g log_state, unit) act" where
  "log_Handle L h r = (\<lambda>(b, st).
     case sl_Handle L (dh_base h) r b of
       (Inl e, b') \<Rightarrow> (Inl e, (b', st))
     | (Inr _, b') \<Rightarrow>
         if lg_closed st then (Inr (), (b', st))
         else (case enqueue (entry_of h r) st of (x, st') \<Rightarrow> (x, (b', st'))))"

definition WithAttrs :: "('b, 'h) slog_base \<Rightarrow> 'h DBHandler \<Rightarrow> slog_attr list \<Rightarrow> 'h DBHandler" where
  "WithAttrs L h attrs =
     \<lparr> dh_base = sl_WithAttrs L (dh_base h) attrs, dh_attrs = dh_attrs h @ map (prefixed (dh_groups h)) attrs,
       dh_groups = dh_groups h \<rparr>"

definition WithGroup :: "('b, 'h) slog_base \<Rightarrow> 'h DBHandler \<Rightarrow> string \<Rightarrow> 'h DBHandler" where
  "WithGroup L h name =
     (if name = [] then h
      else \<lparr> dh_base = sl_WithGroup L (dh_base h) name, dh_attrs = dh_attrs h, dh_groups = dh_groups h @ [name] \<rparr>)"

text \<open>\<^verbatim>\<open>Close\<close> before it waits: the flag is swapped, and whoever swaps it closes the channel.\<close>

definition close_flag :: "'g log_state \<Rightarrow> bool \<times> 'g log_state" where
  "close_flag st = (\<not> lg_closed st, st\<lparr> lg_closed := True \<rparr>)"

definition close_chan :: "'g log_state \<Rightarrow> 'g log_state" where
  "close_chan st = st\<lparr> lg_chclosed := True \<rparr>"

definition log_Close :: "'g log_state \<Rightarrow> 'g log_state" where
  "log_Close st = (case close_flag st of (first, st1) \<Rightarrow> if first then close_chan st1 else st1)"

text \<open>One turn of the worker's loop over the channel; the error of the writer is ignored.\<close>

definition work :: "(LogEntry \<Rightarrow> ('g, unit) act) \<Rightarrow> 'g log_state \<Rightarrow> 'g log_state" where
  "work writer st =
     (case lg_ch st of
        e # es \<Rightarrow> st\<lparr> lg_ch := es, lg_w := snd (writer e (lg_w st)) \<rparr>
      | [] \<Rightarrow> if lg_chclosed st then st\<lparr> lg_done := True \<rparr> else st)"

section \<open>Concurrent logging\<close>

text \<open>
  The goroutines: \<open>lr_checked\<close> holds the entries of those that have seen the flag unset and are about to send,
  \<open>lr_closing\<close> says that one is about to close the channel, \<open>lr_panic\<close> that one has panicked. What was accepted,
  what was handed to the writer and how many entries were dropped is recorded for the statements below.
\<close>

record 'g log_run =
  lr_st :: "'g log_state"
  lr_checked :: "LogEntry list"
  lr_closing :: bool
  lr_panic :: bool
  lr_accepted :: "LogEntry list"
  lr_written :: "LogEntry list"
  lr_lost :: nat

definition log_start :: "'g log_state \<Rightarrow> 'g log_run" where
  "log_start st = \<lparr> lr_st = st, lr_checked = [], lr_closing = False, lr_panic = False, lr_accepted = [], lr_written = [], lr_lost = 0 \<rparr>"

definition do_send :: "LogEntry \<Rightarrow> 'g log_run \<Rightarrow> 'g log_run" where
  "do_send e R =
     (case enqueue e (lr_st R) of
        (Inl _, _) \<Rightarrow> R\<lparr> lr_checked := remove1 e (lr_checked R), lr_panic := True \<rparr>
      | (Inr _, st') \<Rightarrow>
          if length (lg_ch (lr_st R)) < lg_cap (lr_st R)
          then R\<lparr> lr_st := st', lr_checked := remove1 e (lr_checked R), lr_accepted := lr_accepted R @ [e] \<rparr>
          else R\<lparr> lr_st := st', lr_checked := remove1 e (lr_checked R), lr_lost := lr_lost R + 1 \<rparr>)"

definition do_work :: "(LogEntry \<Rightarrow> ('g, unit) act) \<Rightarrow> 'g log_run \<Rightarrow> 'g log_run" where
  "do_work writer R =
     R\<lparr> lr_st := work writer (lr_st R),
        lr_written := (case lg_ch (lr_st R) of e # es \<Rightarrow> lr_written R @ [e] | [] \<Rightarrow> lr_written R) \<rparr>"

inductive log_step :: "(LogEntry \<Rightarrow> ('g, unit) act) \<Rightarrow> 'g log_run \<Rightarrow> 'g log_run \<Rightarrow> bool" for writer where
  Check_step: "log_step writer R (R\<lparr> lr_checked := e # lr_checked R \<rparr>)" if "\<not> lg_closed (lr_st R)"
| Send_step: "log_step writer R (do_send e R)" if "e \<in> set (lr_checked R)"
| Flag_step: "log_step writer R (R\<lparr> lr_st := st', lr_closing := (lr_closing R \<or> first) \<rparr>)" if "close_flag (lr_st R) = (first, st')"
| Chan_step: "log_step writer R (R\<lparr> lr_st := close_chan (lr_st R), lr_closing := False \<rparr>)" if "lr_closing R"
| Work_step: "log_step writer R (do_work writer R)"

text \<open>What holds in every state.\<close>

definition log_inv :: "(LogEntry \<Rightarrow> ('g, unit) act) \<Rightarrow> 'g \<Rightarrow> nat \<Rightarrow> 'g log_run \<Rightarrow> bool" where
  "log_inv writer w cap R \<longleftrightarrow>
     lr_written R @ lg_ch (lr_st R) = lr_accepted R \<and> length (lg_ch (lr_st R)) \<le> lg_cap (lr_st R) \<and> lg_cap (lr_st R) = cap \<and>
     lg_w (lr_st R) = fold (\<lambda>e w. snd (writer e w)) (lr_written R) w \<and> lg_dropped (lr_st R) = of_nat (lr_lost R) \<and>
     (lg_done (lr_st R) \<longrightarrow> lg_ch (lr_st R) = [] \<and> lg_chclosed (lr_st R)) \<and> (lg_chclosed (lr_st R) \<longrightarrow> lg_closed (lr_st R)) \<and>
     (lr_closing R \<longrightarrow> lg_closed (lr_st R) \<and> \<not> lg_chclosed (lr_st R)) \<and> (lr_panic R \<longrightarrow> lg_chclosed (lr_st R))"

lemma log_inv_step: "log_step writer R R' \<Longrightarrow> log_inv writer w cap R \<Longrightarrow> log_inv writer w cap R'"
proof (induction rule: log_step.induct)
  case (Send_step e R)
  then show ?case
    by (auto simp: log_inv_def do_send_def enqueue_def)
next
  case (Work_step R)
  then show ?case
    by (auto simp: log_inv_def do_work_def work_def split: list.splits)
qed (auto simp: log_inv_def close_flag_def close_chan_def)

lemma log_inv_reach:
  "(log_step writer)\<^sup>*\<^sup>* R R' \<Longrightarrow> log_inv writer w cap R \<Longrightarrow> log_inv writer w cap R'"
  by (induction rule: rtranclp_induct) (auto intro: log_inv_step)

lemma log_inv_start: "log_inv writer w (lg_cap (snd (NewDBHandler base w buffer))) (log_start (snd (NewDBHandler base w buffer)))"
  by (simp add: log_inv_def log_start_def NewDBHandler_def)

text \<open>The worker empties a closed channel and is done.\<close>

lemma worker_drains:
  "lg_chclosed (lr_st R) \<Longrightarrow> log_inv writer w cap R \<Longrightarrow>
   \<exists>R'. (log_step writer)\<^sup>*\<^sup>* R R' \<and> lg_done (lr_st R') \<and> lr_accepted R' = lr_accepted R"
proof (induction "lg_ch (lr_st R)" arbitrary: R)
  case Nil
  have "lg_done (lr_st (do_work writer R)) \<and> lr_accepted (do_work writer R) = lr_accepted R"
    using Nil by (simp add: do_work_def work_def split: list.splits)
  then show ?case
    by (intro exI [of _ "do_work writer R"] conjI r_into_rtranclp log_step.Work_step) simp_all
next
  case (Cons e es)
  let ?R = "do_work writer R"
  have st: "es = lg_ch (lr_st ?R)" "lg_chclosed (lr_st ?R)" "lr_accepted ?R = lr_accepted R"
    using Cons.hyps(2) [symmetric] Cons.prems(1) by (simp_all add: do_work_def work_def)
  have step: "log_step writer R ?R" by (rule log_step.Work_step)
  obtain R' where "(log_step writer)\<^sup>*\<^sup>* ?R R'" "lg_done (lr_st R')" "lr_accepted R' = lr_accepted ?R"
    using Cons.hyps(1) [OF st(1,2) log_inv_step [OF step Cons.prems(2)]] by auto
  then show ?case
    using st(3) converse_rtranclp_into_rtranclp [of "log_step writer", OF step] by auto
qed

text \<open>\<^verbatim>\<open>Handle\<close> and \<^verbatim>\<open>Close\<close> of one goroutine, undisturbed, are steps of the relation.\<close>

lemma log_Handle_steps:
  assumes "log_Handle L h r (b, lr_st R) = (x, (b', st'))"
  shows "\<exists>R'. (log_step writer)\<^sup>*\<^sup>* R R' \<and> lr_st R' = st'"
proof (cases "fst (sl_Handle L (dh_base h) r b)")
  case (Inl e)
  then have "st' = lr_st R"
    using assms by (cases "sl_Handle L (dh_base h) r b") (simp add: log_Handle_def)
  then show ?thesis by blast
next
  case (Inr u)
  show ?thesis
  proof (cases "lg_closed (lr_st R)")
    case True
    then have "st' = lr_st R"
      using assms Inr by (cases "sl_Handle L (dh_base h) r b") (simp add: log_Handle_def)
    then show ?thesis by blast
  next
    case False
    let ?e = "entry_of h r"
    let ?R1 = "R\<lparr> lr_checked := ?e # lr_checked R \<rparr>"
    have "log_step writer R ?R1" "log_step writer ?R1 (do_send ?e ?R1)"
      using False by (auto intro: log_step.Check_step log_step.Send_step)
    moreover have "lr_st (do_send ?e ?R1) = st'"
      using assms Inr False by (cases "sl_Handle L (dh_base h) r b") (auto simp: log_Handle_def do_send_def enqueue_def split: if_splits)
    ultimately show ?thesis
      by (intro exI [of _ "do_send ?e ?R1"]) auto
  qed
qed

lemma log_Close_steps: "\<exists>R'. (log_step writer)\<^sup>*\<^sup>* R R' \<and> lr_st R' = log_Close (lr_st R)"
proof -
  obtain first st1 where f: "close_flag (lr_st R) = (first, st1)" by fastforce
  let ?R1 = "R\<lparr> lr_st := st1, lr_closing := (lr_closing R \<or> first) \<rparr>"
  have 1: "log_step writer R ?R1" by (rule log_step.Flag_step [OF f])
  show ?thesis
  proof (cases first)
    case True
    then have "log_step writer ?R1 (?R1\<lparr> lr_st := close_chan (lr_st ?R1), lr_closing := False \<rparr>)"
      by (intro log_step.Chan_step) simp
    moreover have "log_Close (lr_st R) = close_chan st1"
      using f True by (simp add: log_Close_def)
    ultimately show ?thesis
      using 1 by (intro exI [of _ "?R1\<lparr> lr_st := close_chan (lr_st ?R1), lr_closing := False \<rparr>"]) auto
  next
    case False
    then show ?thesis
      using f 1 by (intro exI [of _ ?R1]) (auto simp: log_Close_def)
  qed
qed

text \<open>
  (C15) No entry is lost silently and none overtakes another. However the goroutines interleave, the entries the
  channel accepted are those handed to the writer followed by those in the buffer, in the order of the sends;
  the buffer never holds more than its capacity; the writer's state is that of one write after the other; and
  \<^verbatim>\<open>Dropped\<close> counts, modulo \<open>2^64\<close>, the entries that found the buffer full. Once the channel is closed, the worker can
  come to its end, and by then every accepted entry has been handed to the writer.
\<close>

theorem log_accounting:
  assumes "(log_step writer)\<^sup>*\<^sup>* (log_start (snd (NewDBHandler base w buffer))) R"
  shows "lr_written R @ lg_ch (lr_st R) = lr_accepted R \<and>
    length (lg_ch (lr_st R)) \<le> nat (if buffer \<le> 0 then 256 else buffer) \<and>
    lg_w (lr_st R) = fold (\<lambda>e w. snd (writer e w)) (lr_written R) w \<and> Dropped (lr_st R) = of_nat (lr_lost R) \<and>
    (lg_chclosed (lr_st R) \<longrightarrow>
      (\<exists>R'. (log_step writer)\<^sup>*\<^sup>* R R' \<and> lg_done (lr_st R') \<and> lr_written R' = lr_accepted R \<and>
            lg_w (lr_st R') = fold (\<lambda>e w. snd (writer e w)) (lr_accepted R) w))"
proof -
  let ?cap = "lg_cap (snd (NewDBHandler base w buffer))"
  have inv: "log_inv writer w ?cap R"
    using log_inv_reach [OF assms log_inv_start] .
  have cap: "?cap = nat (if buffer \<le> 0 then 256 else buffer)"
    by (simp add: NewDBHandler_def)
  have "\<exists>R'. (log_step writer)\<^sup>*\<^sup>* R R' \<and> lg_done (lr_st R') \<and> lr_written R' = lr_accepted R \<and>
            lg_w (lr_st R') = fold (\<lambda>e w. snd (writer e w)) (lr_accepted R) w" if c: "lg_chclosed (lr_st R)"
  proof -
    obtain R' where R': "(log_step writer)\<^sup>*\<^sup>* R R'" "lg_done (lr_st R')" "lr_accepted R' = lr_accepted R"
      using worker_drains [OF c inv] by blast
    have "log_inv writer w ?cap R'"
      using log_inv_reach [OF R'(1) inv] .
    then show ?thesis
      using R' by (auto simp: log_inv_def)
  qed
  then show ?thesis
    using inv cap by (auto simp: log_inv_def Dropped_def)
qed

theorem log_accounting_witness:
  "\<exists>R R'. (log_step (Repository_Log MemGorm))\<^sup>*\<^sup>* (log_start (snd (NewDBHandler () demo_meta 1))) R \<and>
     (log_step (Repository_Log MemGorm))\<^sup>*\<^sup>* R R' \<and> lg_done (lr_st R') \<and> lr_written R' = lr_accepted R"
proof -
  let ?w = "Repository_Log MemGorm" and ?R0 = "log_start (snd (NewDBHandler () demo_meta 1))"
  obtain R where R: "(log_step ?w)\<^sup>*\<^sup>* ?R0 R" "lr_st R = log_Close (lr_st ?R0)"
    using log_Close_steps [of ?w ?R0] by blast
  have "lg_chclosed (lr_st R)"
    by (simp add: R(2) log_Close_def close_flag_def close_chan_def log_start_def NewDBHandler_def)
  then show ?thesis
    using log_accounting [OF R(1)] R(1) by blast
qed

text \<open>
  (C39) Logging while the handler is closed can panic. There is an interleaving in which a goroutine sees the
  flag unset, another one closes the handler, and the send of the first then panics, although nothing is
  logged after \<^verbatim>\<open>Close\<close> has returned.
\<close>

theorem Handle_Close_race:
  "\<exists>R. (log_step writer)\<^sup>*\<^sup>* (log_start (snd (NewDBHandler base w buffer))) R \<and> lr_panic R"
proof -
  let ?R0 = "log_start (snd (NewDBHandler base w buffer))"
  let ?R1 = "?R0\<lparr> lr_checked := e # lr_checked ?R0 \<rparr>"
  let ?R2 = "?R1\<lparr> lr_st := snd (close_flag (lr_st ?R1)), lr_closing := (lr_closing ?R1 \<or> fst (close_flag (lr_st ?R1))) \<rparr>"
  let ?R3 = "?R2\<lparr> lr_st := close_chan (lr_st ?R2), lr_closing := False \<rparr>"
  have "log_step writer ?R0 ?R1"
    by (rule log_step.Check_step) (simp add: log_start_def NewDBHandler_def)
  moreover have "log_step writer ?R1 ?R2"
    by (rule log_step.Flag_step) simp
  moreover have "log_step writer ?R2 ?R3"
    by (rule log_step.Chan_step) (simp add: log_start_def NewDBHandler_def close_flag_def)
  moreover have "log_step writer ?R3 (do_send e ?R3)"
    by (rule log_step.Send_step) simp
  ultimately have "(log_step writer)\<^sup>*\<^sup>* ?R0 (do_send e ?R3)"
    by (meson rtranclp.rtrancl_into_rtrancl rtranclp.rtrancl_refl)
  moreover have "lr_panic (do_send e ?R3)"
    by (simp add: do_send_def enqueue_def close_chan_def)
  ultimately show ?thesis by blast
qed

end
