(* ===== verification/Migrate.thy ===== *)
theory Migrate
  imports Prelude
begin

text \<open>
  \<^verbatim>\<open>internal/migrate/migrate.go\<close> and \<^verbatim>\<open>cmd/loader/migrate.go\<close>: the migrations of the metadata schema. The goose library
  and the database are a parameter, a record of the calls that the runner makes.
\<close>

section \<open>The runner\<close>

record 'd goose =
  gs_NewProvider :: "('d, unit) act"
  gs_Up :: "('d, unit) act"
  gs_Down :: "('d, unit) act"
  gs_GetDBVersion :: "('d, int) act"
  gs_Status :: "('d, (int \<times> string \<times> bool) list) act"
  gs_ApplyVersion :: "int \<Rightarrow> ('d, unit) act"
  gs_CountTables :: "string \<Rightarrow> ('d, int) act"

definition baselineVersion :: int where "baselineVersion = 1"

definition tableExists_dbo :: "'d goose \<Rightarrow> string \<Rightarrow> ('d, bool) act" where
  "tableExists_dbo M name =
     bindA (wrapA (\<lambda>e. Errorf ''detect table %s: %w'' [AStr name, AErr e]) (gs_CountTables M name)) (\<lambda>n. retA (n > 0))"

definition baselineIfNeeded :: "'d goose \<Rightarrow> ('d, unit) act" where
  "baselineIfNeeded M =
     bindA (tableExists_dbo M ''meta_sources'') (\<lambda>hasMeta.
     if \<not> hasMeta then retA ()
     else
       bindA (gs_NewProvider M) (\<lambda>_.
       bindA (wrapA (wrapf ''read goose version'') (gs_GetDBVersion M)) (\<lambda>version.
       if version \<ge> baselineVersion then retA ()
       else wrapA (\<lambda>e. Errorf ''stamp baseline version %d: %w'' [AInt baselineVersion, AErr e]) (gs_ApplyVersion M baselineVersion))))"

definition migrate_Up :: "'d goose \<Rightarrow> ('d, unit) act" where
  "migrate_Up M =
     bindA (baselineIfNeeded M) (\<lambda>_.
     bindA (wrapA (wrapf ''migrate provider'') (gs_NewProvider M)) (\<lambda>_.
     wrapA (wrapf ''migrate up'') (gs_Up M)))"

definition migrate_Down :: "'d goose \<Rightarrow> ('d, unit) act" where
  "migrate_Down M =
     bindA (wrapA (wrapf ''migrate provider'') (gs_NewProvider M)) (\<lambda>_.
     wrapA (wrapf ''migrate down'') (gs_Down M))"

definition status_line :: "int \<times> string \<times> bool \<Rightarrow> string" where
  "status_line = (\<lambda>(v, path, applied).
     [CHR 0x0A] @ ''  '' @ itoa v @ '' '' @ path @ '' ['' @ (if applied then ''applied'' else ''pending'') @ '']'')"

definition migrate_Status :: "'d goose \<Rightarrow> ('d, int \<times> string) act" where
  "migrate_Status M =
     bindA (wrapA (wrapf ''migrate provider'') (gs_NewProvider M)) (\<lambda>_.
     bindA (wrapA (wrapf ''migrate status'') (gs_GetDBVersion M)) (\<lambda>version.
     bindA (wrapA (wrapf ''migrate status list'') (gs_Status M)) (\<lambda>results.
     retA (version, ''version='' @ itoa version @ '' migrations='' @ itoa (int (length results)) @ concat (map status_line results)))))"

section \<open>The command\<close>

text \<open>The exit code with the text printed; \<open>open_db\<close> opens and pings the database of the data source name.\<close>

definition runMigrate :: "(string \<Rightarrow> string) \<Rightarrow> (string \<Rightarrow> ('d, unit) act) \<Rightarrow> (string \<Rightarrow> ('d, unit) act) \<Rightarrow> ('d \<Rightarrow> 'd) \<Rightarrow> 'd goose \<Rightarrow>
    string list \<Rightarrow> 'd \<Rightarrow> (int \<times> string) \<times> 'd" where
  "runMigrate getenv open_db ping close_db M args d =
     (case args of
        [] \<Rightarrow> ((2, ''usage: loader migrate <up|down|status>''), d)
      | arg # _ \<Rightarrow>
          let cmd = ToLower arg; dsn = getenv ''LOADER_METADATA_DSN'' in
          if dsn = [] then ((1, ''LOADER_METADATA_DSN is required''), d)
          else case open_db dsn d of
            (Inl e, d1) \<Rightarrow> ((1, ''open metadata db: '' @ Error e), d1)
          | (Inr _, d1) \<Rightarrow>
              (case ping dsn d1 of
                 (Inl e, d2) \<Rightarrow> ((1, ''ping metadata db: '' @ Error e), close_db d2)
               | (Inr _, d2) \<Rightarrow>
                   (let (out, d3) =
                      (if cmd = ''up'' then
                         (case migrate_Up M d2 of
                            (Inl e, d3) \<Rightarrow> ((1, ''migrate up: '' @ Error e), d3)
                          | (Inr _, d3) \<Rightarrow>
                              (case migrate_Status M d3 of
                                 (Inl e, d4) \<Rightarrow> ((0, ''migrate up complete''), d4)
                               | (Inr (_, detail), d4) \<Rightarrow> ((0, ''migrate up complete'' @ [CHR 0x0A] @ detail), d4)))
                       else if cmd = ''down'' then
                         (case migrate_Down M d2 of
                            (Inl e, d3) \<Rightarrow> ((1, ''migrate down: '' @ Error e), d3)
                          | (Inr _, d3) \<Rightarrow> ((0, ''migrate down complete''), d3))
                       else if cmd = ''status'' then
                         (case migrate_Status M d2 of
                            (Inl e, d3) \<Rightarrow> ((1, ''migrate status: '' @ Error e), d3)
                          | (Inr (_, detail), d3) \<Rightarrow> ((0, detail), d3))
                       else ((2, ''unknown migrate command '' @ go_quote cmd @ '' (want up|down|status)''), d2))
                    in (out, close_db d3))))"

section \<open>What goose promises\<close>

text \<open>
  \<open>applied d\<close> are the versions in the order in which their migrations were executed, \<open>files\<close> the embedded ones.
  A failed \<^verbatim>\<open>Up\<close> has executed some of the pending migrations from the first on.
\<close>

definition pending :: "int list \<Rightarrow> int list \<Rightarrow> int list" where
  "pending files done = filter (\<lambda>v. v \<notin> set done) files"

locale goose_db =
  fixes M :: "'d goose" and applied :: "'d \<Rightarrow> int list" and files :: "int list"
  assumes provider: "gs_NewProvider M d = (r, d') \<Longrightarrow> applied d' = applied d"
    and version_err: "gs_GetDBVersion M d = (Inl e, d') \<Longrightarrow> applied d' = applied d"
    and version_ok: "gs_GetDBVersion M d = (Inr n, d') \<Longrightarrow> n = Max (insert 0 (set (applied d))) \<and> applied d' = applied d"
    and count: "gs_CountTables M t d = (c, d') \<Longrightarrow> applied d' = applied d"
    and apply_ok: "gs_ApplyVersion M n d = (Inr u, d') \<Longrightarrow> applied d' = applied d @ [n]"
    and apply_err: "gs_ApplyVersion M n d = (Inl e, d') \<Longrightarrow> applied d' = applied d"
    and up_ok: "gs_Up M d = (Inr u, d') \<Longrightarrow> applied d' = applied d @ pending files (applied d)"
    and up_err: "gs_Up M d = (Inl e, d') \<Longrightarrow> \<exists>k. applied d' = applied d @ take k (pending files (applied d))"
begin

lemma baselineIfNeeded_cases:
  assumes "baselineIfNeeded M d = (r, d')"
  shows "applied d' = applied d \<or>
    applied d' = applied d @ [baselineVersion] \<and> r = Inr () \<and> (\<forall>v \<in> set (applied d). v < baselineVersion)"
  using assms
  by (auto simp: baselineIfNeeded_def tableExists_dbo_def bindA_def wrapA_def Max_ge_iff not_le
      dest!: count provider version_err version_ok apply_ok apply_err split: prod.splits sum.splits if_splits)

lemma pending_baseline:
  assumes "sorted_wrt (<) files" and "files \<noteq> []" and "hd files = baselineVersion" and "\<forall>v \<in> set xs. v < baselineVersion"
  shows "pending files xs = baselineVersion # pending files (xs @ [baselineVersion])"
proof -
  obtain vs where f: "files = baselineVersion # vs" "\<forall>v \<in> set vs. baselineVersion < v"
    using assms(1-3) by (cases files) auto
  then have "baselineVersion \<notin> set xs" "\<forall>v \<in> set vs. v \<notin> set xs \<and> v \<noteq> baselineVersion"
    using assms(4) by fastforce+
  then show ?thesis
    by (simp add: pending_def f(1) cong: filter_cong)
qed

end

section \<open>A database in memory\<close>

record memmig =
  mm_applied :: "int list"
  mm_legacy :: bool

definition mem_goose :: "int list \<Rightarrow> memmig goose" where
  "mem_goose files =
     \<lparr> gs_NewProvider = retA (), gs_Up = (\<lambda>d. (Inr (), d\<lparr> mm_applied := mm_applied d @ pending files (mm_applied d) \<rparr>)),
       gs_Down = (\<lambda>d. (Inr (), d\<lparr> mm_applied := butlast (mm_applied d) \<rparr>)),
       gs_GetDBVersion = (\<lambda>d. (Inr (Max (insert 0 (set (mm_applied d)))), d)),
       gs_Status = (\<lambda>d. (Inr (map (\<lambda>v. (v, itoa v @ ''.sql'', v \<in> set (mm_applied d))) files), d)),
       gs_ApplyVersion = (\<lambda>v d. if v \<in> set (mm_applied d) then (Inl (ErrExt ''already applied''), d)
                               else (Inr (), d\<lparr> mm_applied := mm_applied d @ [v] \<rparr>)),
       gs_CountTables = (\<lambda>t d. (Inr (if mm_legacy d then 1 else 0), d)) \<rparr>"

interpretation memm: goose_db "mem_goose files" mm_applied files for files
  by unfold_locales (auto simp: mem_goose_def retA_def split: if_splits)

context goose_db
begin

text \<open>The calls after the baseline.\<close>

lemma Up_after_baseline:
  assumes "migrate_Up M d = (r, d')" and "baselineIfNeeded M d = (Inr u, d1)"
  shows "case r of
      Inr _ \<Rightarrow> applied d' = applied d1 @ pending files (applied d1)
    | Inl _ \<Rightarrow> \<exists>k. applied d' = applied d1 @ take k (pending files (applied d1))"
proof -
  obtain r2 d2 where n: "gs_NewProvider M d1 = (r2, d2)" by fastforce
  note a2 = provider [OF n]
  show ?thesis
  proof (cases r2)
    case (Inl e)
    then have "applied d' = applied d1 @ take 0 (pending files (applied d1))" "\<exists>e'. r = Inl e'"
      using assms n a2 by (auto simp: migrate_Up_def bindA_def wrapA_def)
    then show ?thesis by (auto simp del: take_0)
  next
    case (Inr w)
    obtain r3 d3 where up: "gs_Up M d2 = (r3, d3)" by fastforce
    then have "d' = d3" "(\<exists>e e'. r3 = Inl e \<and> r = Inl e') \<or> (\<exists>v. r3 = Inr v \<and> r = Inr v)"
      using assms n Inr by (auto simp: migrate_Up_def bindA_def wrapA_def split: sum.splits)
    then show ?thesis
      using up_ok [of d2] up_err [of d2] up a2 by auto
  qed
qed

end

text \<open>
  (C26) \<^verbatim>\<open>Up\<close> executes each pending migration once, in the order of the versions, and nothing else, with and without
  the tables of a database that GORM has set up. In that case the baseline is stamped first by executing its
  migration, so the sequence of executed migrations is the same as on an empty database. When it fails it has
  executed a first part of that sequence, so a later \<^verbatim>\<open>Up\<close> goes on where it stopped, and a further one after a
  success executes nothing.
\<close>

theorem migrate_Up_pending:
  assumes "goose_db M applied files" and "sorted_wrt (<) files" and "files \<noteq> []" and "hd files = baselineVersion"
    and "migrate_Up M d = (r, d')"
  shows "(case r of
      Inr _ \<Rightarrow> applied d' = applied d @ pending files (applied d) \<and> pending files (applied d') = []
    | Inl _ \<Rightarrow> \<exists>k. applied d' = applied d @ take k (pending files (applied d)))"
proof -
  obtain r1 d1 where b: "baselineIfNeeded M d = (r1, d1)" by fastforce
  have p: "pending files (xs @ pending files xs) = []" for xs
    by (auto simp: pending_def filter_empty_conv)
  show ?thesis
  proof (cases r1)
    case (Inl e)
    then have "applied d' = applied d @ take 0 (pending files (applied d))" "r = Inl e"
      using goose_db.baselineIfNeeded_cases [OF assms(1) b] b assms(5) by (auto simp: migrate_Up_def bindA_def)
    then show ?thesis by (auto simp del: take_0)
  next
    case (Inr w)
    note rest = goose_db.Up_after_baseline [OF assms(1,5) b [unfolded Inr]]
    from goose_db.baselineIfNeeded_cases [OF assms(1) b] consider
      "applied d1 = applied d" | "applied d1 = applied d @ [baselineVersion]" "\<forall>v \<in> set (applied d). v < baselineVersion"
      by blast
    then show ?thesis
    proof cases
      case 1
      then show ?thesis
        using rest p [of "applied d"] by (cases r) simp_all
    next
      case 2
      have "pending files (applied d) = baselineVersion # pending files (applied d1)"
        using goose_db.pending_baseline [OF assms(1-4) 2(2)] 2(1) by simp
      then have one: "\<And>k. applied d1 @ take k (pending files (applied d1)) = applied d @ take (Suc k) (pending files (applied d))"
        "applied d1 @ pending files (applied d1) = applied d @ pending files (applied d)"
        using 2(1) by simp_all
      show ?thesis
        using rest p [of "applied d"] unfolding one by (cases r) (simp_all, blast)
    qed
  qed
qed

theorem migrate_Up_pending_witness:
  "mm_applied (snd (migrate_Up (mem_goose [1, 2]) \<lparr> mm_applied = [], mm_legacy = True \<rparr>)) = [1, 2]"
proof -
  let ?d = "\<lparr> mm_applied = [], mm_legacy = True \<rparr>"
  have r: "migrate_Up (mem_goose [1, 2]) ?d = (Inr (), snd (migrate_Up (mem_goose [1, 2]) ?d))"
    by (simp add: migrate_Up_def baselineIfNeeded_def tableExists_dbo_def mem_goose_def bindA_def wrapA_def baselineVersion_def)
  show ?thesis
    using migrate_Up_pending [OF memm.goose_db_axioms _ _ _ r] by (simp add: baselineVersion_def pending_def)
qed

end
