(* ===== verification/Service.thy ===== *)
theory Service
  imports Config Coordinator Housekeeping Health DbLog Migrate Seed SinkConn
begin

text \<open>
  \<^verbatim>\<open>cmd/loader/main.go\<close> and \<^verbatim>\<open>cmd/seed/main.go\<close>: how the programs start, wire, run and stop their parts. The state
  of the server is the scheduler with the world of its runs, the object of the sink, the cron table of the
  housekeeper and the set of the parts whose goroutines run. Between the start and the signal it serves a list of
  events, each of them handled as a whole; what happens when they overlap is the subject of the theories of the
  parts.
\<close>

section \<open>Configurations\<close>

text \<open>\<^verbatim>\<open>time.Duration(n) * time.Second\<close> and \<^verbatim>\<open>time.Millisecond\<close> are products of 64-bit integers.\<close>

definition duration_sec :: "int \<Rightarrow> int" where
  "duration_sec n = wrap64 (n * second_ns)"

definition duration_ms :: "int \<Rightarrow> int" where
  "duration_ms n = wrap64 (n * 1000000)"

definition service_pool_config :: "AppConfig \<Rightarrow> PoolConfig" where
  "service_pool_config cfg = \<lparr> pc_IdleTimeout = duration_sec (SourcePoolIdleSec cfg), pc_MaxAge = duration_sec (SourcePoolMaxAgeSec cfg) \<rparr>"

definition service_reload_config :: "AppConfig \<Rightarrow> reload_Config" where
  "service_reload_config cfg = \<lparr> rc_Interval = duration_sec (ReloadIntervalSec cfg), rc_HandleHUP = ReloadOnSIGHUP cfg \<rparr>"

definition service_hk_config :: "AppConfig \<Rightarrow> hk_Config" where
  "service_hk_config cfg = \<lparr> hc_CronExpression = HousekeepingCron cfg, hc_LogRetentionDays = LogRetentionDays cfg,
     hc_LoadRunRetentionDays = LoadRunRetentionDays cfg, hc_BatchSize = HousekeepingBatchSize cfg,
     hc_BatchPause = duration_ms (HousekeepingBatchPauseMs cfg) \<rparr>"

definition service_scheduler :: "AppConfig \<Rightarrow> 'c \<Rightarrow> 'c Scheduler" where
  "service_scheduler cfg c = scheduler_New (duration_sec (ShutdownTimeoutSec cfg)) c"

definition service_extras :: "AppConfig \<Rightarrow> (('v, 'x) pool, unit) act \<Rightarrow> ('v, 'x) pool ReadyCheck list" where
  "service_extras cfg ping_all = (if SourcePoolEnabled cfg then [pool_check ping_all] else [])"

definition reload_target :: "AppConfig \<Rightarrow> 'c cron_lib \<Rightarrow> (int set \<Rightarrow> int list) \<Rightarrow> 'r RunAborter \<Rightarrow>
    (('c, 'r, 'k, ('w, 'x) pool) sworld, unit) act" where
  "reload_target cfg C ord A = (if SourcePoolEnabled cfg then service_reload C ord A else Reload C ord A)"

section \<open>The state of the server\<close>

text \<open>The parts with goroutines of their own.\<close>

datatype svc_part = Log_handler | Cron_loop | Health_listener | Reload_loops | House_loop

record ('c, 'r, 'k, 'w, 'd) server =
  sv_sw :: "('c, 'r, 'k, ('w, 'k hstate) pool) sworld"
  sv_objs :: "'d objs"
  sv_hkcron :: 'c
  sv_up :: "svc_part set"

text \<open>What the server is linked with and what it finds: its environment variables, the drivers and libraries.\<close>

record ('c, 'r, 'k, 'w, 'd) svc_env =
  se_getenv :: "string \<Rightarrow> string"
  se_OpenMeta :: "string \<Rightarrow> ('r, unit) act"
  se_gorm :: "'r gorm_db"
  se_telemetry :: "TelemetryCatalog option"
  se_driver :: "'d sql_driver"
  se_sink :: "'k Sink"
  se_Build :: "('w, 'k hstate) SourceFactory"
  se_cron :: "'c cron_lib"
  se_cronNew :: 'c
  se_ord :: "int set \<Rightarrow> int list"
  se_digest :: "string \<Rightarrow> string"
  se_clk :: "'w \<Rightarrow> gtime"
  se_now :: gtime
  se_Listen :: "string \<Rightarrow> gerr option"

definition server_aborter :: "('c, 'r, 'k, 'w, 'd) svc_env \<Rightarrow> 'r RunAborter" where
  "server_aborter E = repo_RunAborter (se_gorm E) (se_digest E)"

definition start_part :: "svc_part \<Rightarrow> ('c, 'r, 'k, 'w, 'd) server \<Rightarrow> ('c, 'r, 'k, 'w, 'd) server" where
  "start_part p S = S\<lparr> sv_up := insert p (sv_up S) \<rparr>"

definition stop_part :: "svc_part \<Rightarrow> ('c, 'r, 'k, 'w, 'd) server \<Rightarrow> ('c, 'r, 'k, 'w, 'd) server" where
  "stop_part p S = S\<lparr> sv_up := sv_up S - {p} \<rparr>"

definition on_sched :: "(('c, 'r, 'k, ('w, 'k hstate) pool) sworld \<Rightarrow> ('c, 'r, 'k, ('w, 'k hstate) pool) sworld) \<Rightarrow>
    ('c, 'r, 'k, 'w, 'd) server \<Rightarrow> ('c, 'r, 'k, 'w, 'd) server" where
  "on_sched f S = S\<lparr> sv_sw := f (sv_sw S) \<rparr>"

definition on_sess :: "(('w, 'k hstate) pool \<Rightarrow> ('w, 'k hstate) pool) \<Rightarrow> ('c, 'r, 'k, 'w, 'd) server \<Rightarrow> ('c, 'r, 'k, 'w, 'd) server" where
  "on_sess f = on_sched (on_pool f)"

section \<open>Sessions and runner\<close>

text \<open>
  Both kinds of session work on the state of the sources' connections; that of the pool is around it, and stays
  empty when the pool is disabled.
\<close>

definition server_pool :: "('c, 'r, 'k, 'w, 'd) svc_env \<Rightarrow> AppConfig \<Rightarrow> ('w, 'k hstate) SourcePool" where
  "server_pool E cfg = NewSourcePool (se_Build E) (service_pool_config cfg) (se_clk E) (se_digest E)"

definition unpooled :: "('w, 'x) SourceFactory \<Rightarrow> (('w, 'x) pool, 'x) SourceFactory" where
  "unpooled build cfg = bindA (on_w (build cfg)) (\<lambda>src. retA (pooled src))"

definition server_sessions :: "('c, 'r, 'k, 'w, 'd) svc_env \<Rightarrow> AppConfig \<Rightarrow> (('w, 'k hstate) pool, 'k hstate) SourceSession" where
  "server_sessions E cfg =
     (if SourcePoolEnabled cfg then pool_session (server_pool E cfg) else NewEphemeral (Some (unpooled (se_Build E))))"

definition NewRunnerWithBuilder :: "('s, 'k hstate) SourceFactory \<Rightarrow> 'r RunStore \<Rightarrow> TelemetryCatalog option \<Rightarrow> 'k Sink \<Rightarrow> (string \<Rightarrow> string) \<Rightarrow>
    ('s, 'k hstate) SourceFactory option \<Rightarrow> ('s, 'k hstate) SourceSession option \<Rightarrow> ('r, 'k, 's) Runner" where
  "NewRunnerWithBuilder sources_Build repo telemetry sink getenv build sessions =
     (let b = (case build of Some f \<Rightarrow> f | None \<Rightarrow> sources_Build) in
      \<lparr> rn_repo = repo, rn_telemetry = telemetry, rn_sink = sink,
        rn_sessions = (case sessions of Some ss \<Rightarrow> ss | None \<Rightarrow> NewEphemeral (Some b)), rn_getenv = getenv \<rparr>)"

definition NewRunner :: "('s, 'k hstate) SourceFactory \<Rightarrow> 'r RunStore \<Rightarrow> TelemetryCatalog option \<Rightarrow> 'k Sink \<Rightarrow> (string \<Rightarrow> string) \<Rightarrow>
    ('s, 'k hstate) SourceSession option \<Rightarrow> ('r, 'k, 's) Runner" where
  "NewRunner sources_Build repo telemetry sink getenv sessions =
     NewRunnerWithBuilder sources_Build repo telemetry sink getenv (Some sources_Build) sessions"

definition server_runner :: "('c, 'r, 'k, 'w, 'd) svc_env \<Rightarrow> AppConfig \<Rightarrow> ('r, 'k, ('w, 'k hstate) pool) Runner" where
  "server_runner E cfg =
     NewRunner (unpooled (se_Build E)) (repo_RunStore (se_gorm E)) (se_telemetry E) (se_sink E) (se_getenv E)
       (Some (server_sessions E cfg))"

section \<open>Start\<close>

text \<open>The deferred calls: the sessions are closed and then the sink.\<close>

definition deferred :: "('c, 'r, 'k, 'w, 'd) svc_env \<Rightarrow> AppConfig \<Rightarrow> mssql_sink \<Rightarrow> ('c, 'r, 'k, 'w, 'd) server \<Rightarrow> ('c, 'r, 'k, 'w, 'd) server" where
  "deferred E cfg k S =
     (let S1 = on_sess (\<lambda>s. snd (ss_Close (server_sessions E cfg) s)) S
      in S1\<lparr> sv_objs := snd (sink_Close (se_driver E) k (sv_objs S1)) \<rparr>)"

text \<open>\<^verbatim>\<open>runServer\<close> up to the point where the schedules are loaded; it stops before that, with 1, on any error.\<close>

definition startup :: "('c, 'r, 'k, 'w, 'd) svc_env \<Rightarrow> ('c, 'r, 'k, 'w, 'd) server \<Rightarrow>
    ('c, 'r, 'k, 'w, 'd) server + AppConfig \<times> mssql_sink \<times> ('c, 'r, 'k, 'w, 'd) server" where
  "startup E S0 =
     (case FromEnv (se_getenv E) of
        Inl e \<Rightarrow> Inl S0
      | Inr cfg \<Rightarrow>
          (case on_repo (se_OpenMeta E (MetadataDSN cfg)) (sv_sw S0) of
             (Inl e, w1) \<Rightarrow> Inl (S0\<lparr> sv_sw := w1 \<rparr>)
           | (Inr _, w1) \<Rightarrow>
               let S1 = start_part Log_handler (S0\<lparr> sv_sw := w1 \<rparr>) in
               (case NewMSSQLSink (SinkDSN cfg) (sv_objs S1) of
                  (Inl e, o1) \<Rightarrow> Inl (S1\<lparr> sv_objs := o1 \<rparr>)
                | (Inr k, o1) \<Rightarrow>
                    (case sink_Open (se_driver E) k o1 of
                       (Inl e, o2) \<Rightarrow> Inl (S1\<lparr> sv_objs := o2 \<rparr>)
                     | (Inr _, o2) \<Rightarrow>
                         let w2 = \<lparr> sw_sched = service_scheduler cfg (se_cronNew E),
                                    sw_run = (sw_run w1)\<lparr> rw_reg := runstate_New (se_now E), rw_sess := new_pool (pl_w (rw_sess (sw_run w1))) \<rparr> \<rparr>
                         in (case scheduler_Load (se_cron E) (se_ord E) (server_aborter E) w2 of
                               (Inl e, w3) \<Rightarrow> Inl (deferred E cfg k (S1\<lparr> sv_objs := o2, sv_sw := w3 \<rparr>))
                             | (Inr _, w3) \<Rightarrow> Inr (cfg, k, S1\<lparr> sv_objs := o2, sv_sw := w3 \<rparr>))))))"

section \<open>Service\<close>

datatype svc_event = Ev_cron int "nat \<Rightarrow> gtime" | Ev_reload co_event | Ev_sweep

definition server_coordinator :: "('c, 'r, 'k, 'w, 'd) svc_env \<Rightarrow> AppConfig \<Rightarrow> ('c, 'r, 'k, ('w, 'k hstate) pool) sworld Coordinator" where
  "server_coordinator E cfg =
     reload_New (reload_target cfg (se_cron E) (se_ord E) (server_aborter E)) (service_reload_config cfg)"

definition server_sweep :: "('c, 'r, 'k, 'w, 'd) svc_env \<Rightarrow> AppConfig \<Rightarrow> ('c, 'r, 'k, ('w, 'k hstate) pool) sworld \<Rightarrow>
    ('c, 'r, 'k, ('w, 'k hstate) pool) sworld" where
  "server_sweep E cfg W =
     (case tick (se_gorm E) (housekeeping_New (rw_repo (sw_run W)) (service_hk_config cfg)) of
        None \<Rightarrow> W
      | Some H \<Rightarrow> W\<lparr> sw_run := (sw_run W)\<lparr> rw_repo := hk_repo H \<rparr> \<rparr>)"

fun serve :: "('c, 'r, 'k, 'w, 'd) svc_env \<Rightarrow> AppConfig \<Rightarrow> svc_event \<Rightarrow> ('c, 'r, 'k, 'w, 'd) server \<Rightarrow> ('c, 'r, 'k, 'w, 'd) server" where
  "serve E cfg (Ev_cron i clk) S = on_sched (trigger (server_runner E cfg) clk i) S"
| "serve E cfg (Ev_reload e) S =
     (if Reload_loops \<in> sv_up S then on_sched (coordinate (server_coordinator E cfg) [e]) S else S)"
| "serve E cfg Ev_sweep S = (if House_loop \<in> sv_up S then on_sched (server_sweep E cfg) S else S)"

text \<open>The stops after the signal.\<close>

definition server_stop :: "('c, 'r, 'k, 'w, 'd) svc_env \<Rightarrow> AppConfig \<Rightarrow> ('c, 'r, 'k, 'w, 'd) server \<Rightarrow> ('c, 'r, 'k, 'w, 'd) server" where
  "server_stop E cfg S =
     (let S1 = (if ReloadEnabled cfg then stop_part Reload_loops S else S);
          S2 = stop_part Cron_loop (on_sched (scheduler_Stop (server_aborter E)) S1);
          S3 = (if HousekeepingEnabled cfg then stop_part House_loop S2 else S2);
          S4 = (if HealthEnabled cfg then stop_part Health_listener S3 else S3)
      in stop_part Log_handler S4)"

text \<open>\<^verbatim>\<open>runServer\<close> after the schedules are loaded.\<close>

definition server_run :: "('c, 'r, 'k, 'w, 'd) svc_env \<Rightarrow> AppConfig \<Rightarrow> svc_event list \<Rightarrow> ('c, 'r, 'k, 'w, 'd) server \<Rightarrow>
    int \<times> ('c, 'r, 'k, 'w, 'd) server" where
  "server_run E cfg evs S =
     (let S1 = start_part Cron_loop S in
      if HealthEnabled cfg \<and> se_Listen E (HealthAddr cfg) \<noteq> None then (1, S1)
      else
        let S2 = (if HealthEnabled cfg then start_part Health_listener S1 else S1);
            S3 = (if ReloadEnabled cfg then start_part Reload_loops S2 else S2)
        in if HousekeepingEnabled cfg then
             (case hk_Start (se_cron E) (housekeeping_New (rw_repo (sw_run (sv_sw S3))) (service_hk_config cfg)) (se_cronNew E) of
                (Inl e, c) \<Rightarrow> (1, S3\<lparr> sv_hkcron := c \<rparr>)
              | (Inr _, c) \<Rightarrow> (0, server_stop E cfg (fold (serve E cfg) evs (start_part House_loop (S3\<lparr> sv_hkcron := c \<rparr>)))))
           else (0, server_stop E cfg (fold (serve E cfg) evs S3)))"

definition runServer :: "('c, 'r, 'k, 'w, 'd) svc_env \<Rightarrow> svc_event list \<Rightarrow> ('c, 'r, 'k, 'w, 'd) server \<Rightarrow>
    int \<times> ('c, 'r, 'k, 'w, 'd) server" where
  "runServer E evs S0 =
     (case startup E S0 of
        Inl S1 \<Rightarrow> (1, S1)
      | Inr (cfg, k, S1) \<Rightarrow> (case server_run E cfg evs S1 of (code, S2) \<Rightarrow> (code, deferred E cfg k S2)))"

definition loader_main :: "string list \<Rightarrow> (string list \<Rightarrow> int) \<Rightarrow> ('c, 'r, 'k, 'w, 'd) svc_env \<Rightarrow> svc_event list \<Rightarrow>
    ('c, 'r, 'k, 'w, 'd) server \<Rightarrow> int" where
  "loader_main args migrate E evs S0 =
     (case args of a # as \<Rightarrow> if a = ''migrate'' then migrate as else fst (runServer E evs S0) | [] \<Rightarrow> fst (runServer E evs S0))"

text \<open>The seed command: its exit code and the state of the database.\<close>

definition seed_main :: "(string \<Rightarrow> string) \<Rightarrow> (string \<Rightarrow> seed_File res) \<Rightarrow> (string \<Rightarrow> ('g, unit) act) \<Rightarrow> (string set \<Rightarrow> string list) \<Rightarrow>
    'g seed_db \<Rightarrow> string \<Rightarrow> 'g \<Rightarrow> int \<times> 'g" where
  "seed_main getenv load open_db ord D file g =
     (if getenv ''LOADER_METADATA_DSN'' = [] then (2, g)
      else case load file of
        Inl e \<Rightarrow> (1, g)
      | Inr f \<Rightarrow>
          (case open_db (getenv ''LOADER_METADATA_DSN'') g of
             (Inl e, g1) \<Rightarrow> (1, g1)
           | (Inr _, g1) \<Rightarrow> (case seed_Apply ord D f g1 of (Inl e, (g2, rep)) \<Rightarrow> (1, g2) | (Inr _, (g2, rep)) \<Rightarrow> (0, g2))))"

section \<open>Connections\<close>

text \<open>The balance of opens and closes, \<open>k\<close> when the sessions are made: with the pool, and without it.\<close>

definition conns_ok :: "bool \<Rightarrow> ('w \<Rightarrow> int) \<Rightarrow> ('w \<Rightarrow> int) \<Rightarrow> int \<Rightarrow> ('w, 'x) pool \<Rightarrow> bool" where
  "conns_ok p opens closes k s \<longleftrightarrow>
     (if p then balanced opens closes k s else pl_entries s = [] \<and> opens (pl_w s) - closes (pl_w s) = k)"

context counted_pool
begin

lemma read_pooled:
  assumes "one_read (pooled src) invd s s'" and "counted opens closes src"
  obtains w where "s' = s\<lparr> pl_w := w \<rparr>" "opens w = opens (pl_w s)" "closes w = closes (pl_w s)"
proof (cases "s' = s")
  case True
  then show ?thesis using that [of "pl_w s"] by simp
next
  case False
  then obtain L h x rr x' where "src_Read (pooled src) L h s x = (rr, s', x')"
    using assms(1) by (auto simp: one_read_def)
  then obtain w where "src_Read src L h (pl_w s) x = (rr, w, x')" "s' = s\<lparr> pl_w := w \<rparr>"
    by (auto simp: pooled_def split: prod.splits)
  then show ?thesis
    using that countedD(4) [OF assms(2)] by blast
qed

lemma balanced_read:
  assumes "one_read (pooled src) invd s s'" and "counted opens closes src" and "balanced opens closes k s"
  shows "balanced opens closes k s'"
  using assms(1,2) by (rule read_pooled) (simp add: balanced_w assms(3))

text \<open>Without the pool a source that is opened for a run is closed when the run gives it back.\<close>

lemma Ephemeral_Obtain_balance:
  assumes "Ephemeral_Obtain (unpooled (sp_build P)) cfg s = (q, s1)"
  shows "pl_entries s1 = pl_entries s \<and>
    (case q of
       Inl e \<Rightarrow> opens (pl_w s1) - closes (pl_w s1) = opens (pl_w s) - closes (pl_w s)
     | Inr (src, release) \<Rightarrow> opens (pl_w s1) - closes (pl_w s1) = opens (pl_w s) - closes (pl_w s) + 1 \<and>
         (\<exists>src0. counted opens closes src0 \<and> src = pooled src0 \<and> release = (\<lambda>_ t. snd (src_Close (pooled src0) t))))"
proof -
  obtain r w1 where b: "sp_build P cfg (pl_w s) = (r, w1)" by fastforce
  note k = build_keeps [OF b]
  show ?thesis
  proof (cases r)
    case (Inl e)
    then show ?thesis
      using assms b k by (auto simp: Ephemeral_Obtain_def unpooled_def bindA_def on_w_def)
  next
    case (Inr src0)
    have c: "counted opens closes src0"
      using builds_counted b Inr by blast
    obtain q2 w2 where o: "src_Open src0 w1 = (q2, w2)" by fastforce
    have u: "unpooled (sp_build P) cfg s = (Inr (pooled src0), s\<lparr> pl_w := w1 \<rparr>)"
      using b Inr by (simp add: unpooled_def bindA_def on_w_def retA_def)
    have po: "src_Open (pooled src0) (s\<lparr> pl_w := w1 \<rparr>) = (q2, s\<lparr> pl_w := w2 \<rparr>)"
      using o by (simp add: pooled_def on_w_def)
    have cl: "pl_entries (snd (src_Close (pooled src0) t)) = pl_entries t" "pl_w (snd (src_Close (pooled src0) t)) = snd (src_Close src0 (pl_w t))" for t
      by (simp_all add: pooled_def on_w_def split: prod.splits)
    show ?thesis
      using assms u po countedD(1) [OF c o] counted_Close [OF c, of w2] k c
      by (cases q2) (auto simp: Ephemeral_Obtain_def cl)
  qed
qed

lemma balanced_InvalidateAll: "balanced opens closes k s \<Longrightarrow> balanced opens closes k (InvalidateAll s)"
proof -
  have "balanced opens closes k s \<Longrightarrow> balanced opens closes k (fold Invalidate is s)" for "is" s
    by (induction "is" arbitrary: s) (simp_all add: Invalidate_closeEntry balanced_closeEntry)
  then show "balanced opens closes k s \<Longrightarrow> balanced opens closes k (InvalidateAll s)"
    by (simp add: InvalidateAll_def)
qed

end

lemma balanced_Execute:
  assumes cp: "counted_pool P opens closes" and run: "Execute R clk load W = (e, W')" and ss: "rn_sessions R = pool_session P" and b0: "balanced opens closes k (rw_sess W)"
  shows "balanced opens closes k (rw_sess W')"
  using run
proof (cases rule: Execute_sess)
  case 1
  then show ?thesis using b0 by simp
next
  case (2 cfg e')
  then show ?thesis
    using counted_pool.balanced_Obtain [OF cp _ b0] ss by (simp add: pool_session_def)
next
  case (3 cfg src release s1 invd s2)
  then have ob: "pool_Obtain P cfg (rw_sess W) = (Inr (src, release), s1)"
    using ss by (simp add: pool_session_def)
  then have b: "balanced opens closes k s1"
    using counted_pool.balanced_Obtain [OF cp _ b0] by blast
  obtain src0 i n where o: "src = pooled src0" "pe_src (entry s1 i) = Some src0" "release = pool_release P i n"
    using ob by (auto elim: pool_Obtain_src)
  then have "counted opens closes src0"
    using b by (auto simp: balanced_def dest: pool_okD)
  then show ?thesis
    using 3(2,3) o b by (auto intro: counted_pool.balanced_release [OF cp] counted_pool.balanced_read [OF cp])
qed

lemma Ephemeral_Execute:
  assumes cp: "counted_pool P opens closes" and run: "Execute R clk load W = (e, W')" and sess: "rn_sessions R = NewEphemeral (Some (unpooled (sp_build P)))"
  shows "pl_entries (rw_sess W') = pl_entries (rw_sess W) \<and>
    opens (pl_w (rw_sess W')) - closes (pl_w (rw_sess W')) = opens (pl_w (rw_sess W)) - closes (pl_w (rw_sess W))"
proof -
  have ss: "ss_Obtain (rn_sessions R) = Ephemeral_Obtain (unpooled (sp_build P))"
    using sess by (simp add: NewEphemeral_def)
  from run show ?thesis
  proof (cases rule: Execute_sess)
    case (2 cfg e')
    then show ?thesis
      using counted_pool.Ephemeral_Obtain_balance [OF cp, of cfg "rw_sess W" "Inl e'" "rw_sess W'"] by (simp add: ss)
  next
    case (3 cfg src release s1 invd s2)
    then obtain src0 where o: "counted opens closes src0" "src = pooled src0" "release = (\<lambda>_ t. snd (src_Close (pooled src0) t))"
      and s1: "pl_entries s1 = pl_entries (rw_sess W)"
        "opens (pl_w s1) - closes (pl_w s1) = opens (pl_w (rw_sess W)) - closes (pl_w (rw_sess W)) + 1"
      using counted_pool.Ephemeral_Obtain_balance [OF cp, of cfg "rw_sess W" "Inr (src, release)" s1] by (auto simp: ss)
    have "pl_entries s2 = pl_entries s1 \<and> opens (pl_w s2) = opens (pl_w s1) \<and> closes (pl_w s2) = closes (pl_w s1)"
      using 3(2) [unfolded o(2)] o(1) by (rule counted_pool.read_pooled [OF cp]) simp
    moreover have "pl_entries (release b t) = pl_entries t" "pl_w (release b t) = snd (src_Close src0 (pl_w t))" for b t
      unfolding o(3) by (simp_all add: pooled_def on_w_def split: prod.splits)
    ultimately show ?thesis
      using s1 3(3) counted_Close [OF o(1), of "pl_w s2"] by simp
  qed simp
qed

section \<open>What the server's operations keep\<close>

lemma part_simps [simp]:
  "sv_sw (start_part p S) = sv_sw S" "sv_objs (start_part p S) = sv_objs S" "sv_up (start_part p S) = insert p (sv_up S)"
  "sv_sw (stop_part p S) = sv_sw S" "sv_objs (stop_part p S) = sv_objs S" "sv_up (stop_part p S) = sv_up S - {p}"
  by (simp_all add: start_part_def stop_part_def)

lemma on_sched_simps [simp]:
  "sv_sw (on_sched f S) = f (sv_sw S)" "sv_objs (on_sched f S) = sv_objs S" "sv_up (on_sched f S) = sv_up S"
  by (simp_all add: on_sched_def)

abbreviation sess :: "('c, 'r, 'k, 's) sworld \<Rightarrow> 's" where
  "sess W \<equiv> rw_sess (sw_run W)"

lemma on_repo_sess [simp]: "on_repo m W = (r, W') \<Longrightarrow> sess W' = sess W"
  by (auto simp: on_repo_def split: prod.splits)

lemma Reload_sess: "Reload C ord A W = (r, W') \<Longrightarrow> sess W' = sess W"
  by (auto simp: Reload_def split: prod.splits sum.splits if_splits)

lemma scheduler_Load_sess: "scheduler_Load C ord A W = (r, W') \<Longrightarrow> sess W' = sess W"
  by (auto simp: scheduler_Load_def bindA_def split: prod.splits sum.splits dest!: Reload_sess)

lemma server_sweep_sess [simp]: "sess (server_sweep E cfg W) = sess W"
  by (simp add: server_sweep_def split: option.split)

lemma scheduler_Stop_sess [simp]: "sess (scheduler_Stop A W) = sess W"
  by (simp add: scheduler_Stop_def on_repo_def split: prod.split)

lemma reload_target_conns:
  assumes "counted_pool P opens closes" and "conns_ok (SourcePoolEnabled cfg) opens closes k (sess W)"
  shows "conns_ok (SourcePoolEnabled cfg) opens closes k (sess (snd (reload_target cfg C ord A W)))"
proof -
  have "sess (snd (Reload C ord A W)) = sess W"
    using Reload_sess [of C ord A W] by (metis prod.collapse)
  then show ?thesis
    using assms(2) counted_pool.balanced_InvalidateAll [OF assms(1)]
    by (auto simp: reload_target_def service_reload_def Fanout_Reload_def on_pool_def conns_ok_def split: prod.splits)
qed

lemma trigger_conns:
  assumes "counted_pool (server_pool E cfg) opens closes" and "conns_ok (SourcePoolEnabled cfg) opens closes k (sess W)"
  shows "conns_ok (SourcePoolEnabled cfg) opens closes k (sess (trigger (server_runner E cfg) clk i W))"
proof -
  obtain q W1 where q: "trigger_start i W = (q, W1)" by fastforce
  then have s1: "sess W1 = sess W"
    by (auto simp: trigger_start_def split: option.splits if_splits)
  show ?thesis
  proof (cases q)
    case None
    then show ?thesis using q s1 assms(2) by (simp add: trigger_def)
  next
    case (Some load)
    obtain e W2 where x: "Execute (server_runner E cfg) clk load (sw_run W1) = (e, W2)" by fastforce
    have b: "sp_build (server_pool E cfg) = se_Build E"
      by (simp add: server_pool_def NewSourcePool_def)
    have ss: "rn_sessions (server_runner E cfg) = server_sessions E cfg"
      by (simp add: server_runner_def NewRunner_def NewRunnerWithBuilder_def)
    have "conns_ok (SourcePoolEnabled cfg) opens closes k (rw_sess W2)"
    proof (cases "SourcePoolEnabled cfg")
      case True
      then show ?thesis
        using balanced_Execute [OF assms(1) x, of k] assms(2) s1 by (simp add: conns_ok_def ss server_sessions_def)
    next
      case False
      then show ?thesis
        using Ephemeral_Execute [OF assms(1) x] assms(2) s1 by (simp add: conns_ok_def ss server_sessions_def b)
    qed
    then show ?thesis
      using q x Some by (simp add: trigger_def trigger_end_def)
  qed
qed

lemma serve_conns:
  assumes "counted_pool (server_pool E cfg) opens closes" and "conns_ok (SourcePoolEnabled cfg) opens closes k (sess (sv_sw S))"
  shows "conns_ok (SourcePoolEnabled cfg) opens closes k (sess (sv_sw (serve E cfg ev S)))"
proof (cases ev)
  case (Ev_cron i clk)
  then show ?thesis by (simp add: trigger_conns [OF assms])
next
  case (Ev_reload e)
  then show ?thesis
    using assms(2) reload_target_conns [OF assms] by (cases e) (simp_all add: server_coordinator_def doReload_def reload_New_def)
qed (simp add: assms(2))

lemma serve_same [simp]: "sv_up (serve E cfg ev S) = sv_up S" "sv_objs (serve E cfg ev S) = sv_objs S"
  by (cases ev; simp)+

lemma serves_conns:
  assumes "counted_pool (server_pool E cfg) opens closes" and "conns_ok (SourcePoolEnabled cfg) opens closes k (sess (sv_sw S))"
  shows "conns_ok (SourcePoolEnabled cfg) opens closes k (sess (sv_sw (fold (serve E cfg) evs S)))"
  using assms(2) by (induction evs arbitrary: S) (simp_all add: serve_conns [OF assms(1)])

lemma serves_same [simp]: "sv_up (fold (serve E cfg) evs S) = sv_up S" "sv_objs (fold (serve E cfg) evs S) = sv_objs S"
  by (induction evs arbitrary: S) simp_all

lemma server_stop_simps [simp]:
  "sv_sw (server_stop E cfg S) = scheduler_Stop (server_aborter E) (sv_sw S)" "sv_objs (server_stop E cfg S) = sv_objs S"
  "sv_up (server_stop E cfg S) = sv_up S - ({Cron_loop, Log_handler} \<union> (if ReloadEnabled cfg then {Reload_loops} else {}) \<union>
     (if HousekeepingEnabled cfg then {House_loop} else {}) \<union> (if HealthEnabled cfg then {Health_listener} else {}))"
  by (auto simp: server_stop_def Let_def)

text \<open>The deferred calls leave no connection open, and close the sink.\<close>

lemma deferred_conns:
  assumes "counted_pool P opens closes" and "conns_ok (SourcePoolEnabled cfg) opens closes k (sess (sv_sw S))"
  shows "LiveCount (sess (sv_sw (deferred E cfg ks S))) = 0 \<and>
    opens (pl_w (sess (sv_sw (deferred E cfg ks S)))) - closes (pl_w (sess (sv_sw (deferred E cfg ks S)))) = k"
proof (cases "SourcePoolEnabled cfg")
  case True
  let ?s = "InvalidateAll (sess (sv_sw S))"
  have s: "sess (sv_sw (deferred E cfg ks S)) = ?s"
    using True by (simp add: deferred_def Let_def on_sess_def on_pool_def server_sessions_def pool_session_def pool_Close_def)
  have b: "balanced opens closes k ?s" "live_ids ?s = {}"
    using assms True counted_pool.balanced_InvalidateAll [OF assms(1)] InvalidateAll_live [of "sess (sv_sw S)"]
    by (auto simp: conns_ok_def balanced_def)
  then show ?thesis
    unfolding s using LiveCount_card [of ?s] by (simp add: balanced_def)
next
  case False
  have s: "sess (sv_sw (deferred E cfg ks S)) = sess (sv_sw S)"
    using False by (simp add: deferred_def Let_def on_sess_def on_pool_def server_sessions_def NewEphemeral_def retA_def)
  show ?thesis
    unfolding s using assms(2) False by (simp add: conns_ok_def LiveCount_def)
qed

lemma deferred_same [simp]:
  "sv_up (deferred E cfg k S) = sv_up S" "sv_objs (deferred E cfg k S) = snd (sink_Close (se_driver E) k (sv_objs S))"
  "rw_repo (sw_run (sv_sw (deferred E cfg k S))) = rw_repo (sw_run (sv_sw S))"
  by (simp_all add: deferred_def Let_def on_sess_def on_pool_def)

text \<open>What the start leaves behind, and what the run of the server makes of it.\<close>

lemma startup_Inr:
  assumes "startup E S0 = Inr (cfg, k, S1)"
  shows "FromEnv (se_getenv E) = Inr cfg" "sv_up S1 = insert Log_handler (sv_up S0)"
    "sess (sv_sw S1) = new_pool (pl_w (sess (sv_sw S0)))" "\<exists>c. sink_DB k (sv_objs S1) = Some c"
  using assms
  by (auto simp: startup_def Let_def split: sum.splits prod.splits dest!: scheduler_Load_sess elim: sink_Open_ok)

lemma startup_Inl:
  assumes "startup E S0 = Inl S1"
  shows "sv_up S1 \<subseteq> insert Log_handler (sv_up S0)"
  using assms by (auto simp: startup_def Let_def split: sum.splits prod.splits)

text \<open>The starts that can fail once the scheduler runs: that of the health server and that of the housekeeper.\<close>

definition late_failure :: "('c, 'r, 'k, 'w, 'd) svc_env \<Rightarrow> AppConfig \<Rightarrow> bool" where
  "late_failure E cfg \<longleftrightarrow>
     (HealthEnabled cfg \<and> se_Listen E (HealthAddr cfg) \<noteq> None) \<or>
     (HousekeepingEnabled cfg \<and> isl (fst (cr_AddFunc (se_cron E) (HousekeepingCron cfg) 0 (se_cronNew E))))"

lemma hk_Start_fst:
  "isl (fst (hk_Start C (housekeeping_New g cfg) c)) = isl (fst (cr_AddFunc C (hc_CronExpression cfg) 0 c))"
  by (simp add: hk_Start_def housekeeping_New_def bindA_def retA_def split: prod.split sum.split)

lemma server_run_ends:
  assumes "server_run E cfg evs S = (code, S')" and "sv_up S = {Log_handler}"
    and "counted_pool (server_pool E cfg) opens closes" and "conns_ok (SourcePoolEnabled cfg) opens closes k (sess (sv_sw S))"
  shows "conns_ok (SourcePoolEnabled cfg) opens closes k (sess (sv_sw S')) \<and> sv_objs S' = sv_objs S \<and>
    (if late_failure E cfg then code = 1 \<and> {Log_handler, Cron_loop} \<subseteq> sv_up S'
     else code = 0 \<and> sv_up S' = {} \<and> (\<exists>W. sv_sw S' = scheduler_Stop (server_aborter E) W))"
proof -
  have hk: "isl (fst (hk_Start (se_cron E) (housekeeping_New g (service_hk_config cfg)) (se_cronNew E))) =
      isl (fst (cr_AddFunc (se_cron E) (HousekeepingCron cfg) 0 (se_cronNew E)))" for g
    by (simp add: hk_Start_fst) (simp add: service_hk_config_def)
  have served: "conns_ok (SourcePoolEnabled cfg) opens closes k (sess (sv_sw (fold (serve E cfg) evs T)))" if "sv_sw T = sv_sw S" for T
    by (rule serves_conns [OF assms(3)]) (simp add: that assms(4))
  let ?S2 = "if HealthEnabled cfg then start_part Health_listener (start_part Cron_loop S) else start_part Cron_loop S"
  let ?S3 = "if ReloadEnabled cfg then start_part Reload_loops ?S2 else ?S2"
  have s3: "sv_sw ?S3 = sv_sw S" "sv_objs ?S3 = sv_objs S"
    "sv_up ?S3 = {Log_handler, Cron_loop} \<union> (if HealthEnabled cfg then {Health_listener} else {}) \<union> (if ReloadEnabled cfg then {Reload_loops} else {})"
    using assms(2) by auto
  show ?thesis
  proof (cases "HealthEnabled cfg \<and> se_Listen E (HealthAddr cfg) \<noteq> None")
    case True
    then have "code = 1" "S' = start_part Cron_loop S" "late_failure E cfg"
      using assms(1) by (simp_all add: server_run_def Let_def late_failure_def)
    then show ?thesis
      using assms(2,4) by simp
  next
    case h: False
    show ?thesis
    proof (cases "HousekeepingEnabled cfg")
      case False
      then have "code = 0" "S' = server_stop E cfg (fold (serve E cfg) evs ?S3)"
        using assms(1) h unfolding server_run_def Let_def by auto
      then show ?thesis
        using h False served [of ?S3] s3 by (auto simp: late_failure_def)
    next
      case True
      obtain r c where st: "hk_Start (se_cron E) (housekeeping_New (rw_repo (sw_run (sv_sw ?S3))) (service_hk_config cfg)) (se_cronNew E) = (r, c)"
        by fastforce
      show ?thesis
      proof (cases r)
        case (Inl e)
        then have "code = 1" "S' = ?S3\<lparr> sv_hkcron := c \<rparr>"
          using assms(1) h True st unfolding server_run_def Let_def by auto
        moreover have "late_failure E cfg"
          using True hk st Inl by (metis fst_conv late_failure_def sum.disc(1))
        ultimately show ?thesis
          using assms(4) s3 by auto
      next
        case (Inr u)
        let ?S4 = "start_part House_loop (?S3\<lparr> sv_hkcron := c \<rparr>)"
        have "code = 0" "S' = server_stop E cfg (fold (serve E cfg) evs ?S4)"
          using assms(1) h True st Inr unfolding server_run_def Let_def by auto
        moreover have "\<not> late_failure E cfg"
          using h hk [of "rw_repo (sw_run (sv_sw ?S3))"] st Inr by (auto simp: late_failure_def)
        moreover have "sv_sw ?S4 = sv_sw S" "sv_objs ?S4 = sv_objs S" "sv_up ?S4 = insert House_loop (sv_up ?S3)"
          using s3 by simp_all
        ultimately show ?thesis
          using True served [of ?S4] s3(3) by auto
      qed
    qed
  qed
qed

lemma scheduler_Stop_runs:
  assumes "gorm_store (se_gorm E) view"
  shows "\<exists>g. case AbortRunningRuns (se_gorm E) ''aborted: shutdown timeout'' g of (r, g') \<Rightarrow>
    rw_repo (sw_run (scheduler_Stop (server_aborter E) W)) = g' \<and>
    (\<forall>n. r = Inr n \<longrightarrow> (\<forall>row \<in> set (d_runs (view g')). run_Status row \<noteq> ''running''))"
proof (intro exI [of _ "rw_repo (sw_run W)"], split prod.split, intro allI impI conjI)
  fix r g'
  assume a: "AbortRunningRuns (se_gorm E) ''aborted: shutdown timeout'' (rw_repo (sw_run W)) = (r, g')"
  then show "rw_repo (sw_run (scheduler_Stop (server_aborter E) W)) = g'"
    by (simp add: scheduler_Stop_def on_repo_def server_aborter_def repo_RunAborter_def)
  fix n
  assume "r = Inr n"
  with a show "\<forall>row \<in> set (d_runs (view g')). run_Status row \<noteq> ''running''"
    using gorm_store.AbortRunningRuns_ok [OF assms] by fastforce
qed

section \<open>Properties\<close>


text \<open>A server on the test doubles, over a driver that counts its open handles.\<close>

definition counting_driver :: "int sql_driver" where
  "counting_driver = \<lparr> sd_Open = (\<lambda>_ n. (Inr 1, n + 1)), sd_Ping = (\<lambda>_. retA ()), sd_Close = (\<lambda>_ n. (Inr (), n - 1)),
     sd_QueryTime = (\<lambda>_ _. retA None), sd_QueryString = (\<lambda>_ _. retA None),
     sd_Query = (\<lambda>_ _ _. failA (ErrExt ''no tables'')), sd_CloseRows = (\<lambda>_ n. n), sd_Now = (\<lambda>n. (0, n)) \<rparr>"

definition demo_env :: "string \<Rightarrow> string" where
  "demo_env k = (if k = ''LOADER_METADATA_DSN'' \<or> k = ''LOADER_SINK_DSN'' then ''dsn''
     else if k = ''LOADER_SOURCE_POOL'' then ''true'' else [])"

definition demo_linked :: "gerr option \<Rightarrow> (memcron, memgorm, memdb, fake_calls, int) svc_env" where
  "demo_linked listen = \<lparr> se_getenv = demo_env, se_OpenMeta = (\<lambda>_. retA ()), se_gorm = MemGorm, se_telemetry = None,
     se_driver = counting_driver, se_sink = MSSQLSink ascii_tabs MemDB, se_Build = (\<lambda>cfg. retA (fake_source quiet_source)),
     se_cron = mem_cron, se_cronNew = [], se_ord = sorted_list_of_set, se_digest = id, se_clk = (\<lambda>_. zero_time), se_now = 0,
     se_Listen = (\<lambda>_. listen) \<rparr>"

definition demo_server :: "(memcron, memgorm, memdb, fake_calls, int) server" where
  "demo_server = \<lparr> sv_sw = \<lparr> sw_sched = scheduler_New 0 [], sw_run = pool_world \<rparr>,
     sv_objs = \<lparr> so_next = 0, so_conn = (\<lambda>_. None), so_ext = 0 \<rparr>, sv_hkcron = [], sv_up = {} \<rparr>"

lemma demo_linked_counted: "counted_pool (server_pool (demo_linked listen) cfg) fs_OpenCalls fs_CloseCalls"
  by unfold_locales
    (auto simp: server_pool_def demo_linked_def NewSourcePool_def retA_def intro!: fake_source_counted, simp add: quiet_source_def)

lemma mem_repo_ok:
  assumes "mg_gfaults g = []"
  shows "\<exists>n g'. AbortRunningRuns MemGorm reason g = (Inr n, g') \<and> mg_gfaults g' = []"
    and "\<exists>fp g'. MetadataFingerprint MemGorm dg g = (Inr fp, g') \<and> mg_gfaults g' = []"
    and "\<exists>ls g'. ListEnabledLoads MemGorm g = (Inr ls, g') \<and> mg_gfaults g' = []"
  using assms by (simp_all add: AbortRunningRuns_def MetadataFingerprint_def ListEnabledLoads_def mem_gorm_defs bindA_def wrapA_def retA_def)

lemma mem_Load_ok:
  assumes "mg_gfaults (rw_repo (sw_run W)) = []"
  obtains W' where "scheduler_Load C ord (repo_RunAborter MemGorm dg) W = (Inr (), W')"
proof -
  obtain n g1 where a: "AbortRunningRuns MemGorm ''aborted: orphaned running row at startup'' (rw_repo (sw_run W)) = (Inr n, g1)" "mg_gfaults g1 = []"
    using mem_repo_ok(1) [OF assms] by blast
  obtain fp g2 where f: "MetadataFingerprint MemGorm dg g1 = (Inr fp, g2)" "mg_gfaults g2 = []"
    using mem_repo_ok(2) [OF a(2)] by blast
  obtain ls g3 where l: "ListEnabledLoads MemGorm g2 = (Inr ls, g3)"
    using mem_repo_ok(3) [OF f(2)] by blast
  have "fst (scheduler_Load C ord (repo_RunAborter MemGorm dg) W) = Inr ()"
    by (simp add: scheduler_Load_def Reload_def on_repo_def repo_RunAborter_def bindA_def a(1) f(1) l)
  then show thesis
    using that by (metis prod.collapse)
qed

lemma demo_startup:
  obtains cfg k S1 where "startup (demo_linked listen) demo_server = Inr (cfg, k, S1)" "FromEnv demo_env = Inr cfg"
    "so_ext (sv_objs S1) = 1"
proof -
  obtain cfg where c: "FromEnv demo_env = Inr cfg"
    by (simp add: FromEnv_def demo_env_def Let_def)
  let ?k = "\<lparr> ks_dsn = SinkDSN cfg, ks_obj = 0 \<rparr>"
  let ?o = "\<lparr> so_next = 1, so_conn = (\<lambda>_. None)(0 := Some 1), so_ext = 1 \<rparr> :: int objs"
  have sk: "NewMSSQLSink (SinkDSN cfg) (sv_objs demo_server) = (Inr ?k, \<lparr> so_next = 1, so_conn = (\<lambda>_. None), so_ext = 0 \<rparr>)"
    "sink_Open counting_driver ?k \<lparr> so_next = 1, so_conn = (\<lambda>_. None), so_ext = 0 \<rparr> = (Inr (), ?o)"
    by (simp_all add: NewMSSQLSink_def demo_server_def bindA_def new_object_def retA_def sink_Open_cases counting_driver_def fun_upd_idem)
  let ?w = "\<lparr> sw_sched = service_scheduler cfg [], sw_run = pool_world\<lparr> rw_reg := runstate_New 0, rw_sess := new_pool fake_world \<rparr> \<rparr>"
  have f: "mg_gfaults (rw_repo (sw_run ?w)) = []"
    by (simp add: pool_world_def demo_meta_def)
  obtain w3 where ld: "scheduler_Load mem_cron sorted_list_of_set (repo_RunAborter MemGorm id) ?w = (Inr (), w3)"
    using mem_Load_ok [OF f] by blast
  have "startup (demo_linked listen) demo_server =
      Inr (cfg, ?k, (start_part Log_handler demo_server)\<lparr> sv_objs := ?o, sv_sw := w3 \<rparr>)"
    using c sk ld
    by (simp add: startup_def Let_def demo_linked_def on_repo_def retA_def server_aborter_def)
      (simp add: demo_server_def pool_world_def new_pool_def start_part_def)
  then show thesis
    by (rule that) (use c in simp_all)
qed


end
