(* ===== verification/Spec2Isabelle.thy ===== *)
theory Spec2Isabelle
  imports Sink SinkConn Config Runstate Metrics Repository Runner Runs
    SqlServerSource PostgresSource PooledRuns Scheduler Seeding Service
begin

text \<open>
  \<^bold>\<open>The data loader.\<close>

  A service that copies data from configured sources into tables of a SQL Server, on cron schedules that are kept
  as metadata in a database. This development models the program under src/ and proves what makes it correct. The
  theories are listed below in the order in which the program is built up; each says at its top which files it
  models. Definitions keep the names of the Go code; a prefix or suffix is added where a name is used twice
  (\<open>pool_Obtain\<close>, \<open>Ephemeral_Obtain\<close>) or is taken (\<open>housekeeping_New\<close>).

  \<^bold>\<open>How Go is modelled.\<close> A struct is a record, an interface a record of its methods, so that any
  implementation can be handed in. A function with side effects is an action \<open>('s, 'a) act\<close>: it takes a state and
  returns a result and a state, also when it fails; errors are values of the type \<open>gerr\<close> with their text and what they
  wrap (\<open>Prelude\<close>). Machine integers have their width where it matters: registers are words, durations and counters
  wrap at 64 bits, \<^verbatim>\<open>float64\<close> is IEEE 754 binary64 with its rounding (\<open>Float64\<close>), instants are nanoseconds
  (\<open>GoTime\<close>). Strings are the bytes of their UTF-8 encoding. The order in which \<^verbatim>\<open>range\<close> visits a map is an argument.
  Deferred calls are made where Go makes them. Goroutines that share state are steps of an inductive relation, and
  what holds whatever the interleaving is proved by rule induction over its reachable states. Log records are not
  part of the state, except in the theory of the log handler.

  \<^bold>\<open>What is outside.\<close> Drivers, GORM, goose, the cron library, the Modbus and OPC UA clients, the YAML decoder
  and the servers behind them are not under src/. They are parameters, records of the calls that the program makes, and
  what the program relies on is the assumption of a locale: \<open>mssql_server\<close> (\<open>Tsql\<close>), \<open>gorm_store\<close> (\<open>Gorm\<close>),
  \<open>sql_tables\<close> and \<open>quoting\<close> (\<open>SqlSource\<close>), \<open>modbus_wire\<close> (\<open>Modbus\<close>), \<open>cron_table\<close> (\<open>Scheduler\<close>), \<open>seed_store\<close>
  (\<open>Seeding\<close>), \<open>goose_db\<close> (\<open>Migrate\<close>). Each has an instance in memory that satisfies it, with a script of faults
  where the calls can fail, and every property with such a hypothesis is applied to the instance by its witness. The
  interfaces inside the program are locales as well, instantiated with the program's own definitions:
  \<open>source_reader\<close>, \<open>atomic_sink\<close> (\<open>Contracts\<close>), \<open>run_store\<close>, \<open>source_session\<close>, \<open>reading_pool\<close>, \<open>counted_pool\<close> and
  their combination \<open>runner_env\<close>, in which the properties of a run are proved once.
\<close>

text \<open>
  \<^bold>\<open>Theories and what they show.\<close>

  \<^item> \<open>Prelude\<close>, \<open>Float64\<close>, \<open>GoTime\<close>, \<open>Json\<close>, \<open>Url\<close>: the parts of the language and of its standard library that the
    program uses, with the round trips that later theories need.

  \<^item> \<open>SqlIdent\<close> (internal/sqlident): validation and quoting. A quoted name is read back by a lexer of the dialect as
    exactly its parts, so that no identifier can end a quotation.

  \<^item> \<open>Config\<close> (internal/config): settings, and parameters with environment references, which read back after
    marshalling.

  \<^item> \<open>Contracts\<close> (pkg/contracts), \<open>Fakes\<close> (internal/testutil): data, ports and their test doubles.

  \<^item> \<open>Runstate\<close>, \<open>Metrics\<close> (internal/runstate, internal/metrics): the registry of load states and the calls on the
    collectors.

  \<^item> \<open>Models\<close>, \<open>Gorm\<close>, \<open>Repository\<close> (internal/metadata): the tables, the store and every query. Loads of a disabled
    source are not listed; a watermark reads back; the pruning loop returns.

  \<^item> \<open>Tsql\<close>, \<open>Sink\<close>, \<open>SinkConn\<close> (internal/sink): the statements the sink sends. A batch is written as a whole or not at
    all, staging leaves the live table alone, and the swap is atomic whatever call fails.

  \<^item> \<open>ReplaceSession\<close>, \<open>RunStore\<close>, \<open>Session\<close>, \<open>Runner\<close>, \<open>Runs\<close> (internal/pipeline): one run, from the configuration to
    the run row, with all its early returns. A replace run replaces everything or nothing; an append run adds a
    prefix of what was offered; the watermark moves only after everything before it is written; the run row, the
    registry and the result agree.

  \<^item> \<open>Pool\<close>, \<open>PooledRuns\<close> (internal/pipeline/pool.go): the pool of opened sources under concurrent use. A lease is
    exclusive, opens and closes balance, sources are reused only while fresh and for the same parameters, and a run
    gives its slot back however it ends.

  \<^item> \<open>SourceObjects\<close>, \<open>SqlSource\<close>, \<open>SqlServerSource\<close>, \<open>PostgresSource\<close>, \<open>Modbus\<close>, \<open>Opcua\<close>, \<open>Sources\<close>
    (internal/sources): the four kinds of source and their registry. Delta reads hand over exactly the rows between two
    watermarks; registers decode to the values they encode; every point gets the row of its own result.

  \<^item> \<open>Scheduler\<close>, \<open>Coordinator\<close>, \<open>Housekeeping\<close> (internal/scheduler, internal/reload, internal/housekeeping): a reload
    leaves the cron table with the enabled loads, a load never runs twice at once, a sweep removes only what has
    expired and ends.

  \<^item> \<open>DbLog\<close>, \<open>Health\<close> (internal/logging, internal/health): no accepted log entry is lost or reordered, and
    readiness is reported as probed.

  \<^item> \<open>Seed\<close>, \<open>Seeding\<close>, \<open>Migrate\<close> (internal/seed, internal/migrate, cmd/loader/migrate.go): seeding refines upserts by
    name in an abstract map and is all or nothing; migrations are executed once and in order.

  \<^item> \<open>Service\<close> (cmd/loader/main.go, cmd/seed/main.go): the wiring, the start, the events served and the shutdown, with
    all parts together: nothing stays open at exit.

  Properties that show a defect state what the code does: a load lost after an invalid expression, the race of
  \<^verbatim>\<open>Handle\<close> and \<^verbatim>\<open>Close\<close>, OPC UA statuses taken for good, the byte order without effect, the delta read of an
  emptied table, disabled entries of a seed file, the pool emptied by every reload, and the start that fails late.
\<close>

text \<open>
  \<^bold>\<open>Loops and bounds.\<close> Recursion is structural, or has a termination proof by a measure. The loop that
  prunes in batches may run forever against an arbitrary database and is a \<^theory_text>\<open>partial_function\<close> to an option; over a
  store that keeps the contract it is shown to return, as each round that deletes a full batch leaves fewer rows.
  Three readers count down a number: the members of a JSON object and the parts of a quoted name take the length of the text, of
  which each round uses up at least one character, and the word swap takes the number of words. The search for the
  shortest decimal of a \<^verbatim>\<open>float64\<close> goes through 17 digits, which are enough to tell two of them apart.

  \<^bold>\<open>Simplifications.\<close> Contexts are never cancelled, except in the pruning loop, which asks for it. The methods that
  hold one lock for their whole body are one step. In \<open>Service\<close> the events between start and signal are handled one
  after the other; their overlap is in \<open>Pool\<close>, \<open>Scheduler\<close>, \<open>Housekeeping\<close> and \<open>DbLog\<close>. The wait of a shutdown for the
  runs in flight is its end, by the last run or by the timeout.

  \<^bold>\<open>Not modelled.\<close> The HTTP listener of the health server and the JSON it writes; the registration of collectors
  with the Prometheus library; the logger carried in a context; the wait of the log handler's \<^verbatim>\<open>Close\<close> for its worker;
  the flags and the printed report of the seed command; the SQL of the migrations, which the runner takes as a list of
  versions; pipeline/main.go, which is one call of a package outside the repository; deployment files. These are input
  and output, or code that the repository only calls.
\<close>

end
